(* ===== verification/Prelude.thy ===== *)
theory Prelude
  imports Main "HOL-Library.Word"
begin

text \<open>
  Shared vocabulary of the development: the machine integer types of the C sources
  (LP64, so \<^verbatim>\<open>uintptr_t\<close> and \<^verbatim>\<open>size_t\<close> are 64 bits wide), the ways in which the
  trusted process can stop instead of returning, sequencing of computations that may
  stop, and the generic facts about words, lists and rounding that the component
  theories use.
\<close>

unbundle bit_operations_syntax

type_synonym u8 = "8 word"
type_synonym u16 = "16 word"
type_synonym u32 = "32 word"
type_synonym u64 = "64 word"

named_theorems page_simps \<open>unat-level facts about page rounding and masking\<close>

section \<open>Computations that may stop the process\<close>

text \<open>
  The service runtime never unwinds: a failed internal check ends the process. Each
  way of ending is a constructor: \<open>NaClLog(LOG_FATAL, ..)\<close>, \<open>CHECK\<close>, \<open>assert\<close>,
  \<open>COND_ABORT\<close> (which calls \<open>exit(1)\<close>), a NULL dereference, an access outside the
  memory block a pointer refers to, a loop that never ends, and the \<open>longjmp\<close> to
  \<open>main\<close> by which the untrusted program exits with a code.
\<close>

datatype fault =
    LogFatal
  | CheckFailed
  | AssertFailed
  | CondAbort
  | NullDeref
  | OutOfBounds
  | Diverges
  | UserExit int

type_synonym 'a result = "fault + 'a"

definition rbind :: "'a result \<Rightarrow> ('a \<Rightarrow> 'b result) \<Rightarrow> 'b result" where
  "rbind r f = (case r of Inl e \<Rightarrow> Inl e | Inr a \<Rightarrow> f a)"

lemma rbind_simps [simp]:
  "rbind (Inl e) f = Inl e"
  "rbind (Inr a) f = f a"
  by (simp_all add: rbind_def)

lemma rbind_eq_Inr: "rbind r f = Inr b \<longleftrightarrow> (\<exists>a. r = Inr a \<and> f a = Inr b)"
  by (cases r) auto

lemma rbind_cong [fundef_cong]:
  "r = s \<Longrightarrow> (\<And>a. s = Inr a \<Longrightarrow> f a = g a) \<Longrightarrow> rbind r f = rbind s g"
  by (cases s) auto

section \<open>Words\<close>

lemma unat_and_mask [simp]: "unat (x AND mask k :: 'a::len word) = unat x mod 2 ^ k"
  by (simp flip: take_bit_eq_mask add: unsigned_take_bit_eq) (simp add: take_bit_eq_mod)

lemma and_not_mask_minus: "x AND NOT (mask k) = x - (x AND mask k :: 'a::len word)"
proof -
  have "x - (x AND mask k) = x AND NOT (x AND mask k)"
    by (rule disjunctive_diff) (simp add: bit_simps)
  also have "\<dots> = x AND NOT (mask k)"
    by (rule bit_eqI) (auto simp: bit_simps)
  finally show ?thesis by simp
qed

lemma unat_and_not_mask:
  "unat (x AND NOT (mask k) :: 'a::len word) = unat x - unat x mod 2 ^ k"
proof -
  have "x AND mask k \<le> x" by (simp add: word_le_nat_alt)
  then show ?thesis by (simp add: and_not_mask_minus unat_sub)
qed

lemma unat_drop_bit [simp]: "unat (drop_bit k x :: 'a::len word) = unat x div 2 ^ k"
  by (subst unat_drop_bit_eq) (simp add: drop_bit_eq_div)

lemma unat_plus_nowrap:
  "unat x + unat y < 2 ^ LENGTH('a) \<Longrightarrow> unat (x + y :: 'a::len word) = unat x + unat y"
  by (simp add: unat_plus_if')

lemma unat_minus_le: "y \<le> x \<Longrightarrow> unat (x - y :: 'a::len word) = unat x - unat y"
  by (rule unat_sub)

lemma unat_lt64: "unat (x :: u64) < 18446744073709551616"
  using unsigned_less [of x] by simp

lemma unat_lt32: "unat (x :: u32) < 4294967296"
  using unsigned_less [of x] by simp

lemma unat_ucast32 [simp]: "unat (ucast (x :: u32) :: u64) = unat x"
  using unat_lt32 [of x] by (simp add: unsigned_ucast_eq take_bit_nat_eq_self)

lemma sint_small32: "unat (x :: u32) < 2 ^ 31 \<Longrightarrow> sint x = int (unat x)"
proof -
  assume a: "unat x < 2 ^ 31"
  have u: "uint x = int (unat x)" by (rule uint_nat)
  have "int (unat x) < int (2 ^ 31)" using a by (simp only: of_nat_less_iff)
  then have "uint x < 2 ^ 31" by (simp only: u of_nat_power of_nat_numeral)
  then have "signed_take_bit (LENGTH(32) - Suc 0) (uint x) = uint x"
    by (intro signed_take_bit_int_eq_self) (simp_all add: order_trans [OF _ uint_ge_0])
  then show ?thesis by (simp only: sint_uint u)
qed

lemma sint_small64: "unat (x :: u64) < 2 ^ 63 \<Longrightarrow> sint x = int (unat x)"
proof -
  assume a: "unat x < 2 ^ 63"
  have u: "uint x = int (unat x)" by (rule uint_nat)
  have "int (unat x) < int (2 ^ 63)" using a by (simp only: of_nat_less_iff)
  then have "uint x < 2 ^ 63" by (simp only: u of_nat_power of_nat_numeral)
  then have "signed_take_bit (LENGTH(64) - Suc 0) (uint x) = uint x"
    by (intro signed_take_bit_int_eq_self) (simp_all add: order_trans [OF _ uint_ge_0])
  then show ?thesis by (simp only: sint_uint u)
qed

section \<open>Pointer loops\<close>

text \<open>
  The loop \<open>for (p = a; p < e; p += step) body\<close>. The body yields \<open>Inl\<close> of a value to return
  it from the enclosing function, \<open>Inr\<close> of the new state to go on. The pointer is a 64-bit
  word and wraps, so it takes at most \<open>2 ^ 64\<close> values: a loop that needs more rounds never ends.
\<close>

fun ptr_loop :: "nat \<Rightarrow> u64 \<Rightarrow> (u64 \<Rightarrow> 's \<Rightarrow> ('r + 's) result) \<Rightarrow> u64 \<Rightarrow> u64 \<Rightarrow> 's \<Rightarrow> ('r + 's) result" where
  "ptr_loop 0 step f p e s = Inl Diverges"
| "ptr_loop (Suc k) step f p e s =
     (if p < e
      then rbind (f p s) (\<lambda>x. case x of Inl r \<Rightarrow> Inr (Inl r) | Inr s \<Rightarrow> ptr_loop k step f (p + step) e s)
      else Inr (Inr s))"

definition loop_rounds :: nat where "loop_rounds = 2 ^ 64 + 1"

text \<open>
  If the pointer does not wrap, the loop ends: after \<open>n\<close> rounds, with what every round keeps.
\<close>

lemma ptr_loop_inv:
  assumes "unat p + n * unat step < 2 ^ 64" "unat e \<le> unat p + n * unat step"
    and "\<forall>i<n. unat p + i * unat step < unat e" "n < k" "I i0 s"
    and "\<And>i s. i < n \<Longrightarrow> I (i0 + i) s \<Longrightarrow>
           \<exists>s'. f (p + of_nat i * step) s = Inr (Inr s') \<and> I (i0 + Suc i) s'"
  shows "\<exists>s'. ptr_loop k step f p e s = Inr (Inr s') \<and> I (i0 + n) s'"
  using assms
proof (induction n arbitrary: k p s i0)
  case 0
  then obtain k' where "k = Suc k'" by (cases k) auto
  with 0 show ?case by (auto simp: word_less_nat_alt)
next
  case (Suc n)
  then obtain k' where k: "k = Suc k'" by (cases k) auto
  have lt: "p < e" using Suc.prems(3) by (simp add: word_less_nat_alt) (metis add.right_neutral mult_0 zero_less_Suc)
  obtain s1 where s1: "f p s = Inr (Inr s1)" "I (Suc i0) s1"
    using Suc.prems(6) [of 0 s] Suc.prems(5) by auto
  have u: "unat (p + step) = unat p + unat step"
    by (rule unat_plus_nowrap) (use Suc.prems(1) in simp)
  have "\<exists>s'. ptr_loop k' step f (p + step) e s1 = Inr (Inr s') \<and> I (Suc i0 + n) s'"
  proof (rule Suc.IH)
    show "\<forall>i<n. unat (p + step) + i * unat step < unat e"
    proof (intro allI impI)
      fix i assume "i < n"
      then have "unat p + Suc i * unat step < unat e" using Suc.prems(3) by blast
      then show "unat (p + step) + i * unat step < unat e" by (simp add: u algebra_simps)
    qed
    show "\<exists>s'. f (p + step + of_nat i * step) t = Inr (Inr s') \<and> I (Suc i0 + Suc i) s'"
      if "i < n" "I (Suc i0 + i) t" for i t
      using Suc.prems(6) [of "Suc i" t] that by (simp add: algebra_simps)
  qed (use Suc.prems u k s1 in \<open>simp_all add: algebra_simps\<close>)
  with k lt s1 show ?case by simp
qed

section \<open>Rounding of natural numbers\<close>

definition round_down :: "nat \<Rightarrow> nat \<Rightarrow> nat" where
  "round_down k n = n - n mod 2 ^ k"

definition round_up :: "nat \<Rightarrow> nat \<Rightarrow> nat" where
  "round_up k n = round_down k (n + (2 ^ k - 1))"

lemma round_down_le: "round_down k n \<le> n"
  by (simp add: round_down_def)

lemma round_down_dvd: "2 ^ k dvd round_down k n"
  by (simp add: round_down_def dvd_minus_mod)

lemma round_down_gt: "n < round_down k n + 2 ^ k"
proof -
  have "n mod 2 ^ k < 2 ^ k" by simp
  then show ?thesis unfolding round_down_def by linarith
qed

lemma round_down_greatest: "2 ^ k dvd m \<Longrightarrow> m \<le> n \<Longrightarrow> m \<le> round_down k n"
proof -
  assume "2 ^ k dvd m" and "m \<le> n"
  then obtain q where q: "m = 2 ^ k * q" by (auto elim: dvdE)
  have "round_down k n = 2 ^ k * (n div 2 ^ k)"
    by (simp add: round_down_def minus_mod_eq_mult_div)
  moreover from \<open>m \<le> n\<close> q have "q \<le> n div 2 ^ k"
    by (metis div_le_mono nonzero_mult_div_cancel_left power_not_zero zero_neq_numeral)
  ultimately show "m \<le> round_down k n" by (simp add: q)
qed

lemma round_up_dvd: "2 ^ k dvd round_up k n"
  by (simp add: round_up_def round_down_dvd)

lemma round_up_ge: "n \<le> round_up k n"
  using round_down_gt [of "n + (2 ^ k - 1)" k] by (simp add: round_up_def)

lemma round_up_lt: "round_up k n < n + 2 ^ k"
proof -
  have "(0::nat) < 2 ^ k" by simp
  with round_down_le [of k "n + (2 ^ k - 1)"] show ?thesis
    unfolding round_up_def by linarith
qed

lemma round_up_least: "2 ^ k dvd m \<Longrightarrow> n \<le> m \<Longrightarrow> round_up k n \<le> m"
proof (rule ccontr)
  assume d: "2 ^ k dvd m" and le: "n \<le> m" and nle: "\<not> round_up k n \<le> m"
  from nle have gt: "m < round_up k n" by simp
  then have "0 < round_up k n - m" by simp
  moreover have "2 ^ k dvd round_up k n - m"
    by (intro dvd_diff_nat round_up_dvd d)
  ultimately have "2 ^ k \<le> round_up k n - m" by (rule dvd_imp_le [rotated])
  moreover have "round_up k n < n + 2 ^ k" by (rule round_up_lt)
  ultimately show False using le gt by linarith
qed

lemma round_up_id: "2 ^ k dvd n \<Longrightarrow> round_up k n = n"
  by (meson le_antisym order_refl round_up_ge round_up_least)

lemma round_down_id: "2 ^ k dvd n \<Longrightarrow> round_down k n = n"
  by (simp add: round_down_def)

section \<open>Lists\<close>

lemma nth_list_update_if:
  "i < length xs \<Longrightarrow> xs[i := v] ! j = (if i = j then v else xs ! j)"
  by simp

lemma take_Suc_update_last:
  "n < length xs \<Longrightarrow> take (Suc n) (xs[n := v]) = take n xs @ [v]"
  by (simp add: take_Suc_conv_app_nth)

end
