(* ===== verification/DynArray.thy ===== *)
theory DynArray
  imports Prelude
begin

text \<open>
  The dynamic array of \<^verbatim>\<open>src/service_runtime/dyn_array.c\<close>: a growable array of pointers
  with a bitmap of the slots in use and a hint where the first free slot may be. It is
  the descriptor table of the runtime. A NULL pointer is \<open>None\<close>. The C library's
  allocator is the parameter \<open>mal\<close>: whether a request of that many bytes succeeds.
\<close>

section \<open>Data and operations\<close>

record 'a DynArray =
  num_entries :: u64
  ptr_array :: "'a option list"
  ptr_array_space :: u64
  available :: "u32 list"
  avail_ix :: u64

definition BitsToAllocWords :: "u64 \<Rightarrow> u64" where
  "BitsToAllocWords nbits = drop_bit 5 (nbits + 32 - 1)"

definition BitsToIndex :: "u64 \<Rightarrow> u64" where
  "BitsToIndex nbits = drop_bit 5 nbits"

definition BitsToOffset :: "u64 \<Rightarrow> u64" where
  "BitsToOffset nbits = nbits AND (32 - 1)"

definition SIZE_T_MAX :: u64 where
  "SIZE_T_MAX = - 1"

text \<open>\<open>sizeof *ptr_array\<close> is 8 and \<open>sizeof *available\<close> is 4.\<close>

definition DynArrayCtor ::
  "(nat \<Rightarrow> bool) \<Rightarrow> 'a DynArray \<Rightarrow> u64 \<Rightarrow> bool \<times> 'a DynArray" where
  "DynArrayCtor mal dap size0 =
    (let initial_size = (if size0 = 0 then 32 else size0);
         dap = dap\<lparr>num_entries := 0\<rparr>;
         nwords = BitsToAllocWords initial_size in
     if SIZE_T_MAX div 8 < initial_size \<or> SIZE_T_MAX div 4 < nwords then (False, dap)
     else if \<not> mal (unat initial_size * 8) then (False, dap\<lparr>ptr_array := []\<rparr>)
     else if \<not> mal (unat nwords * 4) then (False, dap\<lparr>ptr_array := [], available := []\<rparr>)
     else (True, dap\<lparr>ptr_array := replicate (unat initial_size) None,
                     available := replicate (unat nwords) 0,
                     avail_ix := 0, ptr_array_space := initial_size\<rparr>))"

definition DynArrayDtor :: "'a DynArray \<Rightarrow> 'a DynArray" where
  "DynArrayDtor dap =
     dap\<lparr>num_entries := 0, ptr_array := [], ptr_array_space := 0, available := []\<rparr>"

definition DynArrayGet :: "'a DynArray \<Rightarrow> u64 \<Rightarrow> 'a option" where
  "DynArrayGet dap idx =
     (if idx < num_entries dap then ptr_array dap ! unat idx else None)"

text \<open>
  The doubling loop at the head of \<open>DynArraySet\<close>: \<open>Some None\<close> when doubling overflows,
  \<open>None\<close> when the loop does not end (an array of no space, as \<open>DynArrayDtor\<close> leaves).
\<close>

partial_function (option) desired_space :: "u64 \<Rightarrow> u64 \<Rightarrow> u64 option option" where
  "desired_space idx space =
     (if idx < space then Some (Some space)
      else let tmp = 2 * space in
           if tmp < space then Some None else desired_space idx tmp)"

text \<open>
  \<open>DynArraySet_grow\<close> is the block that grows the two arrays. The byte counts are 64-bit
  products; where one wraps around, the \<open>memset\<close> that follows writes outside the block.
\<close>

definition DynArraySet_grow ::
  "(nat \<Rightarrow> bool) \<Rightarrow> 'a DynArray \<Rightarrow> u64 \<Rightarrow> (bool \<times> 'a DynArray) result" where
  "DynArraySet_grow mal dap desired =
    (if desired = ptr_array_space dap then Inr (True, dap)
     else if \<not> mal (unat (desired * 8)) then Inr (False, dap)
     else if 2 ^ 64 \<le> unat desired * 8 then Inl OutOfBounds
     else
       let old_n = unat (ptr_array_space dap);
           dap1 = dap\<lparr>ptr_array :=
                    take old_n (ptr_array dap) @ replicate (unat desired - old_n) None\<rparr>;
           old_avail_nwords = unat (BitsToAllocWords (ptr_array_space dap));
           new_avail_nwords = unat (BitsToAllocWords desired) in
       if \<not> mal (new_avail_nwords * 4) then Inr (False, dap1)
       else Inr (True, dap1\<lparr>available :=
                   take old_avail_nwords (available dap) @
                     replicate (new_avail_nwords - old_avail_nwords) 0,
                   ptr_array_space := desired\<rparr>))"

text \<open>\<open>DynArraySet_store\<close> is the rest: the store, the bitmap and the hint.\<close>

definition DynArraySet_store :: "'a DynArray \<Rightarrow> u64 \<Rightarrow> 'a option \<Rightarrow> 'a DynArray result" where
  "DynArraySet_store dap idx ptr =
    (let ix = BitsToIndex idx; b = push_bit (unat (BitsToOffset idx)) 1 in
     if length (ptr_array dap) \<le> unat idx \<or> length (available dap) \<le> unat ix
     then Inl OutOfBounds
     else
       let w = available dap ! unat ix;
           dap1 = dap\<lparr>ptr_array := (ptr_array dap)[unat idx := ptr]\<rparr>;
           dap2 = (if ptr \<noteq> None
                   then dap1\<lparr>available := (available dap)[unat ix := w OR b]\<rparr>
                   else dap1\<lparr>available := (available dap)[unat ix := w AND NOT b],
                             avail_ix := (if ix < avail_ix dap then ix else avail_ix dap)\<rparr>)
       in Inr (if num_entries dap \<le> idx then dap2\<lparr>num_entries := idx + 1\<rparr> else dap2))"

definition DynArraySet ::
  "(nat \<Rightarrow> bool) \<Rightarrow> 'a DynArray \<Rightarrow> u64 \<Rightarrow> 'a option \<Rightarrow> (bool \<times> 'a DynArray) result option"
where
  "DynArraySet mal dap idx ptr =
    (case desired_space idx (ptr_array_space dap) of
       None \<Rightarrow> None
     | Some None \<Rightarrow> Some (Inr (False, dap))
     | Some (Some desired) \<Rightarrow>
         Some (rbind (DynArraySet_grow mal dap desired) (\<lambda>(ok, dap').
           if \<not> ok then Inr (False, dap')
           else rbind (DynArraySet_store dap' idx ptr) (\<lambda>dap''. Inr (True, dap'')))))"

text \<open>\<open>ffs\<close> of the C library: one more than the index of the least set bit, 0 if none.\<close>

definition ffs :: "u32 \<Rightarrow> nat" where
  "ffs w = (case find (bit w) [0..<32] of None \<Rightarrow> 0 | Some i \<Rightarrow> i + 1)"

text \<open>The scan for the first word with a clear bit, from the hint to \<open>last_ix\<close>.\<close>

function first_not_full :: "u32 list \<Rightarrow> nat \<Rightarrow> nat \<Rightarrow> nat result" where
  "first_not_full av ix last_ix =
    (if ix < last_ix then
       (if length av \<le> ix then Inl OutOfBounds
        else if NOT (av ! ix) \<noteq> 0 then Inr ix
        else first_not_full av (Suc ix) last_ix)
     else Inr ix)"
  by pat_completeness auto
termination
  by (relation "measure (\<lambda>(av, ix, last_ix). last_ix - ix)") auto

declare first_not_full.simps [simp del]

definition DynArrayFirstAvail :: "'a DynArray \<Rightarrow> (u64 \<times> 'a DynArray) result" where
  "DynArrayFirstAvail dap =
    (let last_ix = unat (BitsToAllocWords (ptr_array_space dap)) in
     rbind (first_not_full (available dap) (unat (avail_ix dap)) last_ix) (\<lambda>ix.
       if ix < last_ix
       then Inr (of_nat (ffs (NOT (available dap ! ix)) - 1) + push_bit 5 (of_nat ix),
                 dap\<lparr>avail_ix := of_nat ix\<rparr>)
       else Inr (ptr_array_space dap, dap)))"

section \<open>Invariant and abstraction\<close>

text \<open>A slot is in use when its bit is set; the bits past the end of the array are clear.\<close>

definition slot_bit :: "u32 list \<Rightarrow> nat \<Rightarrow> bool" where
  "slot_bit av i \<longleftrightarrow> i div 32 < length av \<and> bit (av ! (i div 32)) (i mod 32)"

definition dyn_wf :: "'a DynArray \<Rightarrow> bool" where
  "dyn_wf dap \<longleftrightarrow>
     0 < unat (ptr_array_space dap) \<and>
     unat (ptr_array_space dap) * 8 < 2 ^ 64 \<and>
     unat (ptr_array_space dap) \<le> length (ptr_array dap) \<and>
     length (available dap) = (unat (ptr_array_space dap) + 31) div 32 \<and>
     unat (num_entries dap) \<le> unat (ptr_array_space dap) \<and>
     (\<forall>i. slot_bit (available dap) i \<longleftrightarrow>
        i < unat (num_entries dap) \<and> ptr_array dap ! i \<noteq> None) \<and>
     (\<forall>i. unat (num_entries dap) \<le> i \<and> i < unat (ptr_array_space dap) \<longrightarrow>
        ptr_array dap ! i = None) \<and>
     unat (avail_ix dap) \<le> length (available dap) \<and>
     (\<forall>j < unat (avail_ix dap). available dap ! j = - 1)"

definition dyn_map :: "'a DynArray \<Rightarrow> nat \<Rightarrow> 'a option" where
  "dyn_map dap i = (if i < unat (num_entries dap) then ptr_array dap ! i else None)"


section \<open>Lemmas\<close>

lemma unat_BitsToIndex [simp]: "unat (BitsToIndex n) = unat n div 32"
  by (simp add: BitsToIndex_def)

lemma unat_BitsToOffset [simp]: "unat (BitsToOffset n) = unat n mod 32"
  using unat_and_mask [of n 5] by (simp add: BitsToOffset_def mask_eq_exp_minus_1)

lemma unat_BitsToAllocWords:
  "unat n * 8 < 2 ^ 64 \<Longrightarrow> unat (BitsToAllocWords n) = (unat n + 31) div 32"
proof -
  assume "unat n * 8 < 2 ^ 64"
  then have "unat (n + 31) = unat n + 31" by (subst unat_plus_nowrap) simp_all
  then show ?thesis by (simp add: BitsToAllocWords_def add.commute)
qed

lemma desired_space_total:
  assumes "0 < unat space"
  shows "\<exists>r. desired_space idx space = Some r \<and>
     (\<forall>d. r = Some d \<longrightarrow> idx < d \<and> space \<le> d \<and> (d = space \<or> unat d \<le> 2 * unat idx)) \<and>
     (r = None \<longrightarrow> 2 ^ 63 \<le> unat idx)"
  using assms
proof (induction "2 ^ 64 - unat space" arbitrary: space rule: less_induct)
  case less
  show ?case
  proof (cases "idx < space")
    case True
    then show ?thesis by (subst desired_space.simps) simp
  next
    case False
    then have le: "unat space \<le> unat idx" by (simp add: word_less_nat_alt)
    show ?thesis
    proof (cases "unat space < 2 ^ 63")
      case True
      then have u: "unat (2 * space) = 2 * unat space"
        by (simp add: unat_word_ariths)
      then have "\<not> 2 * space < space" by (simp add: word_less_nat_alt)
      then have eq: "desired_space idx space = desired_space idx (2 * space)"
        using False by (subst desired_space.simps) (simp add: Let_def)
      have "2 ^ 64 - unat (2 * space) < 2 ^ 64 - unat space" and "0 < unat (2 * space)"
        using True less.prems u by simp_all
      from less.hyps [OF this] obtain r where
        r: "desired_space idx (2 * space) = Some r"
          "\<And>d. r = Some d \<Longrightarrow> idx < d \<and> 2 * space \<le> d \<and> (d = 2 * space \<or> unat d \<le> 2 * unat idx)"
          "r = None \<Longrightarrow> 2 ^ 63 \<le> unat idx"
        by blast
      have "idx < d \<and> space \<le> d \<and> (d = space \<or> unat d \<le> 2 * unat idx)" if "r = Some d" for d
        using r(2) [OF that] u le by (auto simp: word_le_nat_alt)
      with r eq show ?thesis by auto
    next
      case big: False
      have "unat (2 * space) = 2 * unat space - 2 ^ 64"
        using big unat_lt64 [of space] by (simp add: unat_word_ariths mod_if)
      then have "2 * space < space" using unat_lt64 [of space] less.prems by (simp add: word_less_nat_alt)
      with False big le show ?thesis by (subst desired_space.simps) (auto simp: Let_def)
    qed
  qed
qed

lemma bit_or_push: "o' < 32 \<Longrightarrow> bit (w OR 2 ^ o' :: u32) j \<longleftrightarrow> bit w j \<or> j = o'"
  by (auto simp: bit_simps)

lemma bit_and_not_push: "o' < 32 \<Longrightarrow> bit (w AND NOT (2 ^ o') :: u32) j \<longleftrightarrow> bit w j \<and> j \<noteq> o'"
  using bit_imp_le_length [of w j] by (auto simp: bit_simps)

lemma div_mod_eq_iff: "(i::nat) div 32 = j div 32 \<Longrightarrow> i mod 32 = j mod 32 \<longleftrightarrow> i = j"
  by (metis div_mult_mod_eq)

lemma slot_bit_set:
  "i div 32 < length av \<Longrightarrow>
   slot_bit (av[i div 32 := av ! (i div 32) OR 2 ^ (i mod 32)]) j \<longleftrightarrow> slot_bit av j \<or> j = i"
  by (cases "i div 32 = j div 32")
    (auto simp: slot_bit_def bit_or_push div_mod_eq_iff)

lemma slot_bit_clear:
  "i div 32 < length av \<Longrightarrow>
   slot_bit (av[i div 32 := av ! (i div 32) AND NOT (2 ^ (i mod 32))]) j \<longleftrightarrow>
     slot_bit av j \<and> j \<noteq> i"
  by (cases "i div 32 = j div 32")
    (auto simp: slot_bit_def bit_and_not_push div_mod_eq_iff)

lemma slot_bit_extend: "slot_bit (av @ replicate n 0) i \<longleftrightarrow> slot_bit av i"
  by (auto simp: slot_bit_def nth_append)

lemma dyn_wf_store:
  assumes wf: "dyn_wf dap" and lt: "idx < ptr_array_space dap"
  shows "\<exists>dap'. DynArraySet_store dap idx ptr = Inr dap' \<and> dyn_wf dap' \<and>
           dyn_map dap' = (dyn_map dap)(unat idx := ptr)"
proof -
  let ?i = "unat idx"
  let ?b = "2 ^ (?i mod 32) :: u32"
  let ?w = "available dap ! (?i div 32)"
  let ?av = "(available dap)[?i div 32 := (if ptr \<noteq> None then ?w OR ?b else ?w AND NOT ?b)]"
  let ?hint = "if ptr = None \<and> BitsToIndex idx < avail_ix dap then BitsToIndex idx else avail_ix dap"
  let ?num = "if num_entries dap \<le> idx then idx + 1 else num_entries dap"
  let ?dap = "dap\<lparr>ptr_array := (ptr_array dap)[?i := ptr], available := ?av, avail_ix := ?hint,
                  num_entries := ?num\<rparr>"
  note wf' = wf [unfolded dyn_wf_def]
  have i: "?i < unat (ptr_array_space dap)" using lt by (simp add: word_less_nat_alt)
  then have ip: "?i < length (ptr_array dap)" using wf' by linarith
  have ia: "?i div 32 < length (available dap)" using i wf' by auto
  have unum: "unat ?num = max (unat (num_entries dap)) (?i + 1)"
  proof -
    have "unat (idx + 1) = ?i + 1" using i wf' by (subst unat_plus_nowrap) auto
    then show ?thesis by (auto simp: word_le_nat_alt)
  qed
  have eq: "DynArraySet_store dap idx ptr = Inr ?dap"
    using ip ia by (auto simp: DynArraySet_store_def Let_def)
  have bits: "slot_bit ?av j \<longleftrightarrow>
      j < unat ?num \<and> (ptr_array dap)[?i := ptr] ! j \<noteq> None" for j
  proof -
    have old: "slot_bit (available dap) j \<longleftrightarrow> j < unat (num_entries dap) \<and> ptr_array dap ! j \<noteq> None"
      using wf' by blast
    have none: "ptr_array dap ! j = None" if "unat (num_entries dap) \<le> j" "j < ?i + 1"
      using wf' i that by auto
    show ?thesis
      using slot_bit_set [OF ia, of j] slot_bit_clear [OF ia, of j] old none ip unum
      by (cases "j = ?i"; cases "j < unat (num_entries dap)") auto
  qed
  have tail: "(ptr_array dap)[?i := ptr] ! j = None"
    if "unat ?num \<le> j" "j < unat (ptr_array_space dap)" for j
    using wf' that unum by (cases "j = ?i") auto
  have hint_le: "unat ?hint \<le> length ?av" using wf' ia by auto
  have hint: "?av ! j = - 1" if "j < unat ?hint" for j
  proof (cases "j = ?i div 32")
    case True
    with that have "ptr \<noteq> None" and "j < unat (avail_ix dap)"
      by (auto simp: word_less_nat_alt split: if_splits)
    with True that wf' show ?thesis by auto
  next
    case False
    with that wf' show ?thesis
      by (auto simp: word_less_nat_alt split: if_splits)
  qed
  have "dyn_wf ?dap"
    unfolding dyn_wf_def
    using wf' bits tail hint hint_le unum i by auto
  moreover have "dyn_map ?dap = (dyn_map dap)(?i := ptr)"
  proof
    fix j
    have "ptr_array dap ! j = None" if "unat (num_entries dap) \<le> j" "j < ?i + 1"
      using wf' i that by auto
    then show "dyn_map ?dap j = ((dyn_map dap)(?i := ptr)) j"
      using unum ip by (auto simp: dyn_map_def)
  qed
  ultimately show ?thesis using eq by blast
qed


text \<open>Growing keeps the invariant and the contents, also when an allocation fails half way.\<close>

lemma dyn_wf_grow:
  assumes wf: "dyn_wf dap" and le: "ptr_array_space dap \<le> desired" and b: "unat desired * 8 < 2 ^ 64"
  shows "\<exists>ok dap'. DynArraySet_grow mal dap desired = Inr (ok, dap') \<and> dyn_wf dap' \<and>
           dyn_map dap' = dyn_map dap \<and> (ok \<longrightarrow> ptr_array_space dap' = desired) \<and>
           ((\<forall>n. mal n) \<longrightarrow> ok)"
proof (cases "desired = ptr_array_space dap")
  case True
  with wf show ?thesis by (intro exI [of _ True] exI [of _ dap]) (simp add: DynArraySet_grow_def)
next
  case False
  let ?o = "unat (ptr_array_space dap)"
  let ?pa = "take ?o (ptr_array dap) @ replicate (unat desired - ?o) None"
  let ?av = "available dap @ replicate ((unat desired + 31) div 32 - length (available dap)) 0"
  let ?dap = "dap\<lparr>ptr_array := ?pa, available := ?av, ptr_array_space := desired\<rparr>"
  note wf' = wf [unfolded dyn_wf_def]
  have ole: "?o \<le> unat desired" using le by (simp add: word_le_nat_alt)
  have nth: "?pa ! i = (if i < ?o then ptr_array dap ! i else None)" if "i < unat desired" for i
    using that wf' by (auto simp: nth_append)
  have len: "length (available dap) \<le> (unat desired + 31) div 32"
    using wf' ole by (simp add: div_le_mono)
  have wf1: "dyn_wf (dap\<lparr>ptr_array := ?pa\<rparr>)"
    using wf' nth ole unfolding dyn_wf_def by auto
  have wf2: "dyn_wf ?dap"
    using wf' nth ole len b unfolding dyn_wf_def by (auto simp: slot_bit_extend nth_append)
  have "dyn_map (dap\<lparr>ptr_array := ?pa\<rparr>) = dyn_map dap" and "dyn_map ?dap = dyn_map dap"
    using wf' nth ole by (auto simp: dyn_map_def fun_eq_iff)
  then show ?thesis
    using False b wf wf1 wf2 wf'
    by (auto simp: DynArraySet_grow_def Let_def unat_BitsToAllocWords)
qed

lemma dyn_set_total:
  assumes wf: "dyn_wf dap" and lt: "unat idx < 2 ^ 60"
  shows "\<exists>ok dap'. DynArraySet mal dap idx ptr = Some (Inr (ok, dap')) \<and> dyn_wf dap' \<and>
           dyn_map dap' = (if ok then (dyn_map dap)(unat idx := ptr) else dyn_map dap) \<and>
           ((\<forall>n. mal n) \<longrightarrow> ok)"
proof -
  have sp: "0 < unat (ptr_array_space dap)" "unat (ptr_array_space dap) * 8 < 2 ^ 64"
    using wf by (simp_all add: dyn_wf_def)
  from desired_space_total [OF sp(1), of idx] lt obtain d where
    d: "desired_space idx (ptr_array_space dap) = Some (Some d)" "idx < d"
      "ptr_array_space dap \<le> d" "d = ptr_array_space dap \<or> unat d \<le> 2 * unat idx"
    by (cases "desired_space idx (ptr_array_space dap)") (auto split: option.splits)
  have "unat d * 8 < 2 ^ 64" using d(4) sp(2) lt by auto
  from dyn_wf_grow [OF wf d(3) this, of mal] obtain ok dap1 where
    g: "DynArraySet_grow mal dap d = Inr (ok, dap1)" "dyn_wf dap1" "dyn_map dap1 = dyn_map dap"
      "ok \<Longrightarrow> ptr_array_space dap1 = d" "(\<forall>n. mal n) \<Longrightarrow> ok"
    by blast
  show ?thesis
  proof (cases ok)
    case True
    with d(2) g dyn_wf_store [OF g(2), of idx ptr] obtain dap2 where
      "DynArraySet_store dap1 idx ptr = Inr dap2" "dyn_wf dap2"
      "dyn_map dap2 = (dyn_map dap)(unat idx := ptr)" by auto
    with True d(1) g show ?thesis
      by (intro exI [of _ True] exI [of _ dap2]) (simp add: DynArraySet_def)
  next
    case False
    with d(1) g show ?thesis
      by (intro exI [of _ False] exI [of _ dap1]) (auto simp: DynArraySet_def)
  qed
qed

lemma unat_SIZE_T_MAX_div: "unat (SIZE_T_MAX div 8) = 2 ^ 61 - 1"
  by (simp add: SIZE_T_MAX_def unat_div)

lemma dyn_ctor:
  assumes "DynArrayCtor mal dap n = (True, dap')"
  shows "dyn_wf dap' \<and> dyn_map dap' = (\<lambda>_. None)"
proof -
  define m where "m = (if n = 0 then 32 else n)"
  have pos: "0 < unat m" by (simp add: m_def unat_gt_0)
  have c: "\<not> SIZE_T_MAX div 8 < m"
    "dap' = dap\<lparr>num_entries := 0, ptr_array := replicate (unat m) None,
        available := replicate (unat (BitsToAllocWords m)) 0, avail_ix := 0, ptr_array_space := m\<rparr>"
    using assms by (auto simp: DynArrayCtor_def Let_def m_def split: if_splits)
  have b: "unat m * 8 < 2 ^ 64"
    using c(1) unat_SIZE_T_MAX_div by (simp add: word_less_nat_alt)
  show ?thesis
    using pos b by (auto simp: c(2) dyn_wf_def dyn_map_def slot_bit_def unat_BitsToAllocWords)
qed

lemma ffs_not:
  assumes "(w :: u32) \<noteq> - 1"
  shows "\<exists>i < 32. ffs (NOT w) = Suc i \<and> \<not> bit w i \<and> (\<forall>j < i. bit w j)"
proof -
  obtain k where k: "k < 32" "\<not> bit w k"
    using assms by (auto simp: bit_eq_iff)
  then have "find (bit (NOT w)) [0..<32] \<noteq> None"
    by (auto simp: find_None_iff bit_not_iff intro!: exI [of _ k])
  then obtain i where f: "find (bit (NOT w)) [0..<32] = Some i" by auto
  then have "i < 32" "\<not> bit w i" "\<forall>j < i. bit w j"
    by (auto simp: find_Some_iff bit_not_iff)
  with f show ?thesis by (auto simp: ffs_def)
qed

lemma not_eq_0_iff: "NOT (w :: u32) = 0 \<longleftrightarrow> w = - 1"
  by (metis bit.double_compl bit.compl_zero)

lemma first_not_full_spec:
  assumes "\<forall>j < ix. av ! j = - 1" "ix \<le> length av"
  shows "\<exists>k. first_not_full av ix (length av) = Inr k \<and> k \<le> length av \<and>
           (\<forall>j < k. av ! j = - 1) \<and> (k < length av \<longrightarrow> av ! k \<noteq> - 1)"
  using assms
proof (induction av ix "length av" rule: first_not_full.induct)
  case (1 av ix)
  show ?case
  proof (cases "ix < length av \<and> av ! ix = - 1")
    case True
    then show ?thesis using 1 by (subst first_not_full.simps) (auto simp: less_Suc_eq not_eq_0_iff)
  next
    case False
    then show ?thesis using 1 by (subst first_not_full.simps) (auto simp: not_eq_0_iff)
  qed
qed

lemma dyn_map_slot_bit: "dyn_wf dap \<Longrightarrow> dyn_map dap i \<noteq> None \<longleftrightarrow> slot_bit (available dap) i"
  by (auto simp: dyn_map_def dyn_wf_def)

text \<open>The bitmap has the least free slot at bit \<open>b\<close> of the first word that is not all ones.\<close>

lemma slot_bit_first_word:
  assumes "\<forall>j < k. av ! j = - 1" "k < length av" "b < 32" "\<not> bit (av ! k) b" "\<forall>j < b. bit (av ! k) j"
  shows "\<not> slot_bit av (b + k * 32)" "j < b + k * 32 \<Longrightarrow> slot_bit av j"
proof -
  show "\<not> slot_bit av (b + k * 32)" using assms by (simp add: slot_bit_def)
  assume j: "j < b + k * 32"
  have "j div 32 < k \<or> j div 32 = k \<and> j mod 32 < b" 
    using j assms(3) div_mult_mod_eq [of j 32] mod_less_divisor [of 32 j] by arith
  then show "slot_bit av j" using assms by (auto simp: slot_bit_def)
qed

lemma dyn_first_avail:
  assumes wf: "dyn_wf dap"
  shows "\<exists>r dap'. DynArrayFirstAvail dap = Inr (r, dap') \<and> dyn_wf dap' \<and> dyn_map dap' = dyn_map dap \<and>
           dyn_map dap (unat r) = None \<and> (\<forall>j < unat r. dyn_map dap j \<noteq> None)"
proof -
  let ?av = "available dap" and ?sp = "unat (ptr_array_space dap)"
  note wf' = wf [unfolded dyn_wf_def]
  have last: "unat (BitsToAllocWords (ptr_array_space dap)) = length ?av"
    using wf' by (simp add: unat_BitsToAllocWords)
  have "length ?av * 32 \<le> ?sp + 31" using wf' by simp
  moreover have "?sp * 8 < 2 ^ 64" using wf' by blast
  ultimately have small: "length ?av * 32 < 2 ^ 62" by simp
  from first_not_full_spec [of "unat (avail_ix dap)" ?av] wf' obtain k where
    k: "first_not_full ?av (unat (avail_ix dap)) (length ?av) = Inr k" "k \<le> length ?av"
      "\<forall>j < k. ?av ! j = - 1" "k < length ?av \<longrightarrow> ?av ! k \<noteq> - 1" by auto
  show ?thesis
  proof (cases "k < length ?av")
    case True
    with k(4) ffs_not obtain b where
      b: "b < 32" "ffs (NOT (?av ! k)) = Suc b" "\<not> bit (?av ! k) b" "\<forall>j < b. bit (?av ! k) j" by blast
    let ?r = "of_nat b + push_bit 5 (of_nat k) :: u64"
    have "unat (push_bit 5 (of_nat k :: u64)) = k * 32"
      using True small by (simp add: push_bit_eq_mult unat_word_ariths unat_of_nat)
    then have r: "unat ?r = b + k * 32"
      using True small b(1) by (simp add: unat_word_ariths unat_of_nat)
    have uk: "unat (of_nat k :: u64) = k" using True small by (simp add: unat_of_nat)
    note s = slot_bit_first_word [OF k(3) True b(1,3,4)]
    have "dyn_wf (dap\<lparr>avail_ix := of_nat k\<rparr>)"
      using wf' k(3) True uk by (simp add: dyn_wf_def)
    moreover have "dyn_map (dap\<lparr>avail_ix := of_nat k\<rparr>) = dyn_map dap" by (simp add: dyn_map_def fun_eq_iff)
    moreover have "dyn_map dap (unat ?r) = None"
      unfolding r using s(1) dyn_map_slot_bit [OF wf] by blast
    moreover have "\<forall>j < unat ?r. dyn_map dap j \<noteq> None"
      unfolding r using s(2) dyn_map_slot_bit [OF wf] by blast
    ultimately show ?thesis
      using k(1) True b(2) last by (simp add: DynArrayFirstAvail_def)
  next
    case False
    then have "slot_bit ?av i" if "i < ?sp" for i
      using that k wf' by (simp add: slot_bit_def)
    then have all: "dyn_map dap i \<noteq> None" if "i < ?sp" for i
      using that dyn_map_slot_bit [OF wf] by blast
    have "dyn_map dap ?sp = None" using wf' by (simp add: dyn_map_def)
    with all False k(1) last wf show ?thesis by (simp add: DynArrayFirstAvail_def)
  qed
qed

section \<open>The descriptor-table interface\<close>

text \<open>
  What the runtime relies on when it uses a dynamic array as a table of slots: reading
  a slot, writing one, and asking for the first free one. The laws speak of the
  content of the table only, not of the bitmap and the hint.
\<close>

locale slot_table =
  fixes invar :: "'t \<Rightarrow> bool"
    and content :: "'t \<Rightarrow> nat \<Rightarrow> 'v option"
    and get :: "'t \<Rightarrow> u64 \<Rightarrow> 'v option"
    and set :: "'t \<Rightarrow> u64 \<Rightarrow> 'v option \<Rightarrow> (bool \<times> 't) result option"
    and first :: "'t \<Rightarrow> (u64 \<times> 't) result"
  assumes get_content: "invar t \<Longrightarrow> get t i = content t (unat i)"
    and set_content: "invar t \<Longrightarrow> unat i < 2 ^ 60 \<Longrightarrow>
      \<exists>ok t'. set t i v = Some (Inr (ok, t')) \<and> invar t' \<and>
        content t' = (if ok then (content t)(unat i := v) else content t)"
    and first_content: "invar t \<Longrightarrow>
      \<exists>r t'. first t = Inr (r, t') \<and> invar t' \<and> content t' = content t \<and>
        content t (unat r) = None \<and> (\<forall>j < unat r. content t j \<noteq> None)"
begin

lemma get_set:
  assumes "invar t" "unat i < 2 ^ 60"
  obtains ok t' where "set t i v = Some (Inr (ok, t'))" "invar t'"
    "ok \<Longrightarrow> get t' j = (if j = i then v else get t j)" "\<not> ok \<Longrightarrow> get t' j = get t j"
proof -
  from set_content [OF assms, of v] obtain ok t' where s: "set t i v = Some (Inr (ok, t'))" "invar t'"
    "content t' = (if ok then (content t)(unat i := v) else content t)" by blast
  show ?thesis by (rule that [OF s(1,2)]) (use assms s get_content in \<open>auto simp: word_unat_eq_iff\<close>)
qed

text \<open>Storing at the first free slot overwrites nothing.\<close>

lemma fresh_slot:
  assumes "invar t"
  obtains r t' where "first t = Inr (r, t')" "invar t'" "get t r = None"
    "\<forall>i. get t' i = get t i" "\<forall>i < r. get t i \<noteq> None"
proof -
  from first_content [OF assms] obtain r t' where f: "first t = Inr (r, t')" "invar t'"
    "content t' = content t" "content t (unat r) = None" "\<forall>j < unat r. content t j \<noteq> None" by blast
  show ?thesis
    by (rule that [OF f(1,2)]) (use assms f get_content in \<open>auto simp: word_less_nat_alt\<close>)
qed

end

interpretation dyn: slot_table dyn_wf dyn_map DynArrayGet "DynArraySet mal" DynArrayFirstAvail
proof unfold_locales
  show "dyn_wf t \<Longrightarrow> DynArrayGet t i = dyn_map t (unat i)" for t :: "'a DynArray" and i
    by (simp add: DynArrayGet_def dyn_map_def word_less_nat_alt)
qed (use dyn_set_total dyn_first_avail in blast)+

lemma desired_space_zero: "desired_space idx 0 = None"
proof -
  have "space \<noteq> 0" if "desired_space idx space = Some r" for idx space r
    using that
  proof (rule desired_space.raw_induct [where P = "\<lambda>idx space r. space \<noteq> 0", rotated])
    fix f :: "u64 \<Rightarrow> u64 \<Rightarrow> u64 option option" and idx space :: u64 and r
    assume IH: "\<And>idx space r. f idx space = Some r \<Longrightarrow> space \<noteq> 0"
      and body: "(if idx < space then Some (Some space)
            else let tmp = 2 * space in if tmp < space then Some None else f idx tmp) = Some r"
    show "space \<noteq> 0"
    proof
      assume "space = 0"
      then have "f idx 0 = Some r" using body by simp
      then show False using IH by blast
    qed
  qed
  then show ?thesis by (cases "desired_space idx 0") auto
qed

section \<open>Properties of the dynamic array\<close>

definition dyn_example :: "string DynArray" where
  "dyn_example = snd (DynArrayCtor (\<lambda>_. True)
     \<lparr>num_entries = 0, ptr_array = [], ptr_array_space = 0, available = [], avail_ix = 0\<rparr> 2)"

lemma dyn_example_wf: "dyn_wf dyn_example" "DynArrayGet dyn_example i = None"
proof -
  have "fst (DynArrayCtor (\<lambda>_. True)
      (\<lparr>num_entries = 0, ptr_array = [], ptr_array_space = 0, available = [], avail_ix = 0\<rparr> :: string DynArray) 2)"
    by code_simp
  then have c: "DynArrayCtor (\<lambda>_. True)
      \<lparr>num_entries = 0, ptr_array = [], ptr_array_space = 0, available = [], avail_ix = 0\<rparr> 2 = (True, dyn_example)"
    unfolding dyn_example_def by (metis (full_types) prod.collapse)
  from dyn_ctor [OF this] show "dyn_wf dyn_example" "DynArrayGet dyn_example i = None"
    by (auto simp: dyn.get_content)
qed

text \<open>
  C12. \<open>DynArraySet\<close> on a well-formed array returns for every index below \<open>2 ^ 60\<close> (the
  doubling loop ends), keeps the array, its bitmap and its hint well-formed, stores the
  pointer and changes no other slot; if an allocation fails it reports failure and no
  slot changes, and it succeeds whenever the allocator does.
\<close>

theorem DynArraySet_correct:
  assumes "dyn_wf dap" "unat idx < 2 ^ 60"
  shows "\<exists>ok dap'. DynArraySet mal dap idx ptr = Some (Inr (ok, dap')) \<and> dyn_wf dap' \<and>
    (\<forall>j. DynArrayGet dap' j = (if ok \<and> j = idx then ptr else DynArrayGet dap j)) \<and>
    ((\<forall>n. mal n) \<longrightarrow> ok)"
proof -
  obtain ok dap' where s: "DynArraySet mal dap idx ptr = Some (Inr (ok, dap'))" "dyn_wf dap'"
    "dyn_map dap' = (if ok then (dyn_map dap)(unat idx := ptr) else dyn_map dap)" "(\<forall>n. mal n) \<longrightarrow> ok"
    using dyn_set_total [OF assms] by blast
  then show ?thesis using assms(1) by (auto simp: dyn.get_content word_unat_eq_iff)
qed

theorem DynArraySet_correct_witness:
  "\<exists>dap'. DynArraySet (\<lambda>_. True) dyn_example 5 (Some ''a'') = Some (Inr (True, dap')) \<and>
     DynArrayGet dap' 5 = Some ''a'' \<and> DynArrayGet dap' 1 = None"
  using DynArraySet_correct [OF dyn_example_wf(1), of 5 "\<lambda>_. True" "Some ''a''"] dyn_example_wf(2) by auto

text \<open>
  C13. \<open>DynArrayFirstAvail\<close> returns the least free slot of a well-formed array, changes
  nothing but the hint, and keeps the hint valid.
\<close>

theorem DynArrayFirstAvail_least:
  assumes "dyn_wf dap"
  shows "\<exists>r dap'. DynArrayFirstAvail dap = Inr (r, dap') \<and> dyn_wf dap' \<and>
    DynArrayGet dap r = None \<and> (\<forall>j < r. DynArrayGet dap j \<noteq> None) \<and>
    (\<forall>j. DynArrayGet dap' j = DynArrayGet dap j)"
  using dyn.fresh_slot [OF assms] by metis

theorem DynArrayFirstAvail_least_witness:
  "\<exists>dap'. DynArrayFirstAvail dyn_example = Inr (0, dap') \<and> dyn_wf dap'"
proof -
  obtain r dap' where r: "DynArrayFirstAvail dyn_example = Inr (r, dap')" "dyn_wf dap'"
    "\<forall>j < r. DynArrayGet dyn_example j \<noteq> None"
    using DynArrayFirstAvail_least [OF dyn_example_wf(1)] by blast
  then have "r = 0" using dyn_example_wf(2) word_gt_0 by metis
  then show ?thesis using r by auto
qed

text \<open>
  C14. \<open>DynArraySet\<close> never returns on an array of no space, the state \<open>DynArrayDtor\<close> leaves:
  doubling zero does not reach the index.
\<close>

theorem DynArraySet_after_Dtor: "DynArraySet mal (DynArrayDtor dap) idx ptr = None"
  by (simp add: DynArraySet_def DynArrayDtor_def desired_space_zero)

end
