(* ===== verification/SelUtil.thy ===== *)
theory SelUtil
  imports Prelude
begin

text \<open>
  Configuration constants (\<^verbatim>\<open>src/service_runtime/nacl_config.h\<close>) and the page
  arithmetic of \<^verbatim>\<open>src/service_runtime/sel_util-inl.h\<close>. Every function masks a 64-bit
  word, so rounding up wraps around near the top of the range; the locale \<open>rounding\<close>
  states what a masking function computes as long as it does not wrap, once for the
  three granularities in use (4K pages, 64K allocation units, 16 pages per unit).
\<close>

section \<open>Constants\<close>

definition NACL_PAGESHIFT :: nat where "NACL_PAGESHIFT = 12"
definition NACL_PAGESIZE :: u64 where "NACL_PAGESIZE = 4096"
definition NACL_MAP_PAGESHIFT :: nat where "NACL_MAP_PAGESHIFT = 16"
definition NACL_MAP_PAGESIZE :: u64 where "NACL_MAP_PAGESIZE = 65536"
definition NACL_PAGES_PER_MAP :: u64 where "NACL_PAGES_PER_MAP = 16"
definition NACL_SYSCALL_START_ADDR :: u64 where "NACL_SYSCALL_START_ADDR = 65536"
definition NACL_SYSCALL_BLOCK_SHIFT :: nat where "NACL_SYSCALL_BLOCK_SHIFT = 5"
definition NACL_SYSCALL_BLOCK_SIZE :: u64 where "NACL_SYSCALL_BLOCK_SIZE = 32"
definition NACL_TRAMPOLINE_START :: u64 where "NACL_TRAMPOLINE_START = 65536"
definition NACL_TRAMPOLINE_SIZE :: u64 where "NACL_TRAMPOLINE_SIZE = 65536"
definition NACL_TRAMPOLINE_END :: u64 where
  "NACL_TRAMPOLINE_END = NACL_TRAMPOLINE_START + NACL_TRAMPOLINE_SIZE"
definition NACL_HALT_SLED_SIZE :: u64 where "NACL_HALT_SLED_SIZE = 32"
definition NACL_INSTR_BLOCK_SIZE :: u64 where "NACL_INSTR_BLOCK_SIZE = 32"
definition NACL_MAX_PROGRAM_HEADERS :: nat where "NACL_MAX_PROGRAM_HEADERS = 128"

lemmas config_defs =
  NACL_PAGESHIFT_def NACL_PAGESIZE_def NACL_MAP_PAGESHIFT_def NACL_MAP_PAGESIZE_def
  NACL_PAGES_PER_MAP_def NACL_SYSCALL_START_ADDR_def NACL_SYSCALL_BLOCK_SHIFT_def
  NACL_SYSCALL_BLOCK_SIZE_def NACL_TRAMPOLINE_START_def NACL_TRAMPOLINE_SIZE_def
  NACL_TRAMPOLINE_END_def NACL_HALT_SLED_SIZE_def NACL_INSTR_BLOCK_SIZE_def
  NACL_MAX_PROGRAM_HEADERS_def

section \<open>Page arithmetic\<close>

definition NaClRoundPage :: "u64 \<Rightarrow> u64" where
  "NaClRoundPage nbytes = (nbytes + NACL_PAGESIZE - 1) AND NOT (NACL_PAGESIZE - 1)"

definition NaClRoundAllocPage :: "u64 \<Rightarrow> u64" where
  "NaClRoundAllocPage nbytes = (nbytes + NACL_MAP_PAGESIZE - 1) AND NOT (NACL_MAP_PAGESIZE - 1)"

text \<open>The 32-bit versions: the sum wraps at 32 bits.\<close>

definition NaClRoundPage32 :: "u32 \<Rightarrow> u32" where
  "NaClRoundPage32 nbytes =
     ucast ((ucast (nbytes + 4096 - 1) :: u64) AND NOT (NACL_PAGESIZE - 1))"

definition NaClRoundAllocPage32 :: "u32 \<Rightarrow> u32" where
  "NaClRoundAllocPage32 nbytes = (nbytes + 65536 - 1) AND NOT (65536 - 1)"

definition NaClTruncPage :: "u64 \<Rightarrow> u64" where
  "NaClTruncPage nbytes = nbytes AND NOT (NACL_PAGESIZE - 1)"

definition NaClTruncAllocPage :: "u64 \<Rightarrow> u64" where
  "NaClTruncAllocPage nbytes = nbytes AND NOT (NACL_MAP_PAGESIZE - 1)"

definition NaClBytesToPages :: "u64 \<Rightarrow> u64" where
  "NaClBytesToPages nbytes = drop_bit NACL_PAGESHIFT (nbytes + NACL_PAGESIZE - 1)"

definition NaClIsPageMultiple :: "u64 \<Rightarrow> bool" where
  "NaClIsPageMultiple addr_or_size \<longleftrightarrow> 0 = ((NACL_PAGESIZE - 1) AND addr_or_size)"

definition NaClIsAllocPageMultiple :: "u64 \<Rightarrow> bool" where
  "NaClIsAllocPageMultiple addr_or_size \<longleftrightarrow> 0 = ((NACL_MAP_PAGESIZE - 1) AND addr_or_size)"

definition NaClRoundHostAllocPage :: "u64 \<Rightarrow> u64" where
  "NaClRoundHostAllocPage nbytes = NaClRoundPage nbytes"

definition NaClRoundPageNumUpToMapMultiple :: "u64 \<Rightarrow> u64" where
  "NaClRoundPageNumUpToMapMultiple npages =
     (npages + NACL_PAGES_PER_MAP - 1) AND NOT (NACL_PAGES_PER_MAP - 1)"

definition NaClTruncPageNumDownToMapMultiple :: "u64 \<Rightarrow> u64" where
  "NaClTruncPageNumDownToMapMultiple npages = npages AND NOT (NACL_PAGES_PER_MAP - 1)"

section \<open>What masking computes\<close>

locale rounding =
  fixes k :: nat and rnd :: "u64 \<Rightarrow> u64" and trunc :: "u64 \<Rightarrow> u64" and is_mult :: "u64 \<Rightarrow> bool"
  assumes k_less: "k < 64"
    and rnd_mask: "rnd x = (x + mask k) AND NOT (mask k)"
    and trunc_mask: "trunc x = x AND NOT (mask k)"
    and is_mult_mask: "is_mult x \<longleftrightarrow> x AND mask k = 0"
begin

lemma unat_mask64: "unat (mask k :: u64) = 2 ^ k - 1"
proof -
  have "(2::nat) ^ k < 2 ^ 64" using k_less by (intro power_strict_increasing) simp_all
  moreover have "unat (mask k :: u64) = mask k mod 2 ^ 64"
    using unat_of_nat [where 'a = 64, of "mask k"] by (simp add: of_nat_mask_eq)
  ultimately show ?thesis by (simp add: mask_eq_exp_minus_1)
qed

lemma unat_trunc: "unat (trunc x) = round_down k (unat x)"
  by (simp add: trunc_mask unat_and_not_mask round_down_def)

lemma trunc_le: "trunc x \<le> x"
  by (simp add: word_le_nat_alt unat_trunc round_down_le)

lemma is_mult_dvd: "is_mult x \<longleftrightarrow> 2 ^ k dvd unat x"
proof -
  have "x AND mask k = 0 \<longleftrightarrow> unat (x AND mask k) = 0"
    by (simp only: unsigned_eq_0_iff)
  then show ?thesis by (simp add: is_mult_mask dvd_eq_mod_eq_0)
qed

lemma unat_rnd:
  assumes "unat x + 2 ^ k \<le> 2 ^ 64"
  shows "unat (rnd x) = round_up k (unat x)"
proof -
  have "(0::nat) < 2 ^ k" by simp
  then have "unat x + (2 ^ k - 1) < 2 ^ LENGTH(64)" using assms by (simp del: zero_less_power)
  then have "unat (x + mask k) = unat x + (2 ^ k - 1)"
    by (subst unat_plus_nowrap) (simp_all add: unat_mask64)
  then show ?thesis
    by (simp add: rnd_mask unat_and_not_mask round_up_def round_down_def)
qed

lemma rnd_wraps:
  assumes "2 ^ 64 < unat x + 2 ^ k"
  shows "rnd x = 0"
proof -
  have *: "(2::nat) ^ k < 2 ^ 64" using k_less by (intro power_strict_increasing) simp_all
  have pos: "(0::nat) < 2 ^ k" by simp
  have u: "unat (x + mask k) = unat x + (2 ^ k - 1) - 2 ^ 64"
    using assms pos unat_lt64 [of x] * by (simp add: unat_plus_if' unat_mask64 del: zero_less_power)
  have "unat x < 2 ^ 64" using unsigned_less [of x] by simp
  then have "unat (x + mask k) < 2 ^ k" using u pos by linarith
  then have "unat (rnd x) = 0"
    by (simp add: rnd_mask unat_and_not_mask)
  then show ?thesis by (simp only: unsigned_eq_0_iff)
qed

lemma rnd_is_mult: "is_mult (rnd x)"
  by (simp add: is_mult_dvd rnd_mask unat_and_not_mask dvd_minus_mod)

lemma trunc_is_mult: "is_mult (trunc x)"
  by (simp add: is_mult_dvd trunc_mask unat_and_not_mask dvd_minus_mod)

lemma rnd_mult: "is_mult x \<Longrightarrow> rnd x = x"
proof -
  assume m: "is_mult x"
  then have d: "2 ^ k dvd unat x" by (simp add: is_mult_dvd)
  have "(2::nat) ^ k dvd 2 ^ 64" using k_less by (intro le_imp_power_dvd) simp
  with d have "2 ^ k dvd 2 ^ 64 - unat x" by (rule dvd_diff_nat [rotated])
  moreover have "0 < 2 ^ 64 - unat x" using unat_lt64 [of x] by simp
  ultimately have "2 ^ k \<le> 2 ^ 64 - unat x" by (rule dvd_imp_le)
  then have "unat x + 2 ^ k \<le> 2 ^ 64" using unat_lt64 [of x] by simp
  from unat_rnd [OF this] d show "rnd x = x" by (simp add: round_up_id word_unat_eq_iff)
qed

lemma rnd_ge: "unat x + 2 ^ k \<le> 2 ^ 64 \<Longrightarrow> x \<le> rnd x"
  by (simp add: word_le_nat_alt unat_rnd round_up_ge)

end

interpretation page: rounding 12 NaClRoundPage NaClTruncPage NaClIsPageMultiple
proof
  show "NaClIsPageMultiple x \<longleftrightarrow> x AND mask 12 = 0" for x
    by (auto simp add: NaClIsPageMultiple_def config_defs mask_eq_exp_minus_1 and.commute)
qed (simp_all add: NaClRoundPage_def NaClTruncPage_def config_defs mask_eq_exp_minus_1 add.commute)

interpretation alloc: rounding 16 NaClRoundAllocPage NaClTruncAllocPage NaClIsAllocPageMultiple
proof
  show "NaClIsAllocPageMultiple x \<longleftrightarrow> x AND mask 16 = 0" for x
    by (auto simp add: NaClIsAllocPageMultiple_def config_defs mask_eq_exp_minus_1 and.commute)
qed (simp_all add: NaClRoundAllocPage_def NaClTruncAllocPage_def config_defs
      mask_eq_exp_minus_1 add.commute)

definition NaClIsMapMultiple :: "u64 \<Rightarrow> bool" where
  "NaClIsMapMultiple npages \<longleftrightarrow> NaClTruncPageNumDownToMapMultiple npages = npages"

interpretation mapm: rounding 4 NaClRoundPageNumUpToMapMultiple
  NaClTruncPageNumDownToMapMultiple NaClIsMapMultiple
proof
  show "NaClIsMapMultiple x \<longleftrightarrow> x AND mask 4 = 0" for x
    using and_not_mask_minus [of x 4]
    by (simp add: NaClIsMapMultiple_def NaClTruncPageNumDownToMapMultiple_def config_defs
        mask_eq_exp_minus_1)
qed (simp_all add: NaClRoundPageNumUpToMapMultiple_def NaClTruncPageNumDownToMapMultiple_def
      config_defs mask_eq_exp_minus_1 add.commute)

end
