(* ===== verification/CLib.thy ===== *)
theory CLib
  imports Prelude "HOL-Library.Multiset"
begin

text \<open>
  The two C library algorithms the sources call with their own comparison functions.
  \<open>qsort\<close> is insertion by the comparator: the standard only says that the result is an
  ordered permutation, and \<open>qsort_unique\<close> shows that for keys that differ this
  determines it. \<open>bsearch\<close> halves the range as the C library does, and its comparator
  may stop the process (it dereferences the element).
\<close>

fun insert_by :: "('a \<Rightarrow> 'a \<Rightarrow> int) \<Rightarrow> 'a \<Rightarrow> 'a list \<Rightarrow> 'a list" where
  "insert_by cmp x [] = [x]"
| "insert_by cmp x (y # ys) = (if cmp x y \<le> 0 then x # y # ys else y # insert_by cmp x ys)"

definition qsort :: "('a \<Rightarrow> 'a \<Rightarrow> int) \<Rightarrow> 'a list \<Rightarrow> 'a list" where
  "qsort cmp xs = foldr (insert_by cmp) xs []"

function bsearch_loop :: "('a \<Rightarrow> int result) \<Rightarrow> 'a list \<Rightarrow> nat \<Rightarrow> nat \<Rightarrow> nat option result" where
  "bsearch_loop cmp base l u =
    (if l < u then
       let idx = (l + u) div 2 in
       rbind (cmp (base ! idx)) (\<lambda>c.
         if c < 0 then bsearch_loop cmp base l idx
         else if 0 < c then bsearch_loop cmp base (idx + 1) u
         else Inr (Some idx))
     else Inr None)"
  by pat_completeness auto
termination
  by (relation "measure (\<lambda>(cmp, base, l, u). u - l)") auto

declare bsearch_loop.simps [simp del]

definition bsearch :: "('a \<Rightarrow> int result) \<Rightarrow> 'a list \<Rightarrow> nat \<Rightarrow> nat option result" where
  "bsearch cmp base nmemb = bsearch_loop cmp base 0 nmemb"

lemma mset_insert_by [simp]: "mset (insert_by cmp x ys) = add_mset x (mset ys)"
  by (induction ys) auto

lemma mset_qsort [simp]: "mset (qsort cmp xs) = mset xs"
  by (induction xs) (auto simp: qsort_def)

lemma set_qsort [simp]: "set (qsort cmp xs) = set xs"
  by (metis mset_qsort set_mset_mset)

lemma length_qsort [simp]: "length (qsort cmp xs) = length xs"
  by (metis mset_qsort size_mset)

text \<open>A comparator that orders by a key (on the elements at hand) sorts by that key.\<close>

lemma sorted_insert_by:
  fixes key :: "'a \<Rightarrow> 'k::linorder"
  assumes "\<And>a b. a \<in> insert x (set ys) \<Longrightarrow> b \<in> insert x (set ys) \<Longrightarrow> cmp a b \<le> 0 \<longleftrightarrow> key a \<le> key b"
    and "sorted (map key ys)"
  shows "sorted (map key (insert_by cmp x ys))"
  using assms
proof (induction ys)
  case (Cons y ys)
  have "set (insert_by cmp x ys) = insert x (set ys)"
    by (metis mset_insert_by set_mset_add_mset_insert set_mset_mset)
  then show ?case using Cons by auto
qed simp

lemma sorted_qsort:
  fixes key :: "'a \<Rightarrow> 'k::linorder"
  assumes "\<And>a b. a \<in> set xs \<Longrightarrow> b \<in> set xs \<Longrightarrow> cmp a b \<le> 0 \<longleftrightarrow> key a \<le> key b"
  shows "sorted (map key (qsort cmp xs))"
  using assms
proof (induction xs)
  case (Cons x xs)
  have "qsort cmp (x # xs) = insert_by cmp x (qsort cmp xs)" by (simp add: qsort_def)
  then show ?case using Cons sorted_insert_by [of x "qsort cmp xs" cmp key] by simp
qed (simp add: qsort_def)

lemma qsort_unique:
  fixes key :: "'a \<Rightarrow> 'k::linorder"
  assumes "\<And>a b. a \<in> set xs \<Longrightarrow> b \<in> set xs \<Longrightarrow> cmp a b \<le> 0 \<longleftrightarrow> key a \<le> key b"
    and "inj_on key (set xs)" and "mset ys = mset xs" and "sorted (map key ys)"
  shows "qsort cmp xs = ys"
proof -
  have "sorted (map key (qsort cmp xs))" by (rule sorted_qsort) (use assms(1) in auto)
  moreover have "mset (qsort cmp xs) = mset ys" using assms(3) by simp
  moreover have "inj_on key (set (qsort cmp xs) \<union> set ys)"
    using assms(2,3) by (metis mset_qsort set_mset_mset sup.idem)
  ultimately show ?thesis using assms(4) map_sorted_distinct_set_unique
    by (metis (mono_tags, lifting) inj_on_map_eq_map mset_map properties_for_sort)
qed

text \<open>
  Searching an array whose elements in \<open>[l, u)\<close> compare in order finds the element that
  compares equal, and only reports absence when there is none.
\<close>

lemma bsearch_loop_spec:
  assumes "\<And>i. l \<le> i \<Longrightarrow> i < u \<Longrightarrow> cmp (base ! i) = Inr (c i)"
    and "\<And>i j. l \<le> i \<Longrightarrow> i < j \<Longrightarrow> j < u \<Longrightarrow> c i \<le> 0 \<Longrightarrow> c j < 0"
  shows "\<exists>r. bsearch_loop cmp base l u = Inr r \<and>
           (case r of None \<Rightarrow> \<forall>i. l \<le> i \<and> i < u \<longrightarrow> c i \<noteq> 0
                    | Some k \<Rightarrow> l \<le> k \<and> k < u \<and> c k = 0)"
  using assms
proof (induction cmp base l u rule: bsearch_loop.induct)
  case (1 cmp base l u)
  define m where "m = (l + u) div 2"
  show ?case
  proof (cases "l < u")
    case lu: True
    then have m: "l \<le> m" "m < u" by (auto simp: m_def)
    have cm: "cmp (base ! m) = Inr (c m)" using 1(3) m by simp
    have step: "bsearch_loop cmp base l u =
        (if c m < 0 then bsearch_loop cmp base l m
         else if 0 < c m then bsearch_loop cmp base (m + 1) u else Inr (Some m))"
      using lu cm by (subst bsearch_loop.simps) (simp add: m_def)
    consider "c m < 0" | "0 < c m" | "c m = 0" by linarith
    then show ?thesis
    proof cases
      case lo: 1
      have "\<exists>r. bsearch_loop cmp base l m = Inr r \<and>
              (case r of None \<Rightarrow> \<forall>i. l \<le> i \<and> i < m \<longrightarrow> c i \<noteq> 0
                       | Some k \<Rightarrow> l \<le> k \<and> k < m \<and> c k = 0)"
        by (rule "1.IH"(1) [OF lu m_def cm lo]) (use 1(3,4) m in \<open>auto dest: less_trans\<close>)
      moreover have "c i \<noteq> 0" if "m \<le> i" "i < u" for i
        using 1(4) [of m i] that lo m by (cases "i = m") auto
      ultimately show ?thesis using lo step m by (auto split: option.splits) (metis not_le)
    next
      case hi: 2
      have "\<exists>r. bsearch_loop cmp base (m + 1) u = Inr r \<and>
              (case r of None \<Rightarrow> \<forall>i. m + 1 \<le> i \<and> i < u \<longrightarrow> c i \<noteq> 0
                       | Some k \<Rightarrow> m + 1 \<le> k \<and> k < u \<and> c k = 0)"
        by (rule "1.IH"(2) [OF lu m_def cm _ hi]) 
          (use hi 1(3) m in simp_all, rule 1(4), use m in auto)
      moreover have "c i \<noteq> 0" if "l \<le> i" "i \<le> m" for i
        using 1(4) [of i m] that hi m by (cases "i = m") auto
      ultimately show ?thesis using hi step m by (auto split: option.splits) (metis Suc_leI not_le)
    next
      case 3
      then show ?thesis using step m by simp
    qed
  next
    case False
    then show ?thesis by (subst bsearch_loop.simps) auto
  qed
qed

end
