(* ===== verification/Vmmap.thy ===== *)
theory Vmmap
  imports SelUtil CLib
begin

text \<open>
  The memory map of the sandbox, \<^verbatim>\<open>src/service_runtime/sel_mem.c\<close>, and the memory
  objects its entries carry, \<^verbatim>\<open>src/service_runtime/nacl_memory_object.c\<close>. The map is an
  array of entry pointers (\<open>None\<close> is NULL) of which the first \<open>nvalid\<close> are in use; it is
  sorted lazily and entries are deleted by marking. The model keeps the array, so a
  NULL dereference and an access past the array are visible, and the lemmas relate it
  to the function from page numbers to what is mapped there.

  Descriptors are represented by their identity, a number; their reference counts are
  not part of the model. \<open>mal\<close> is the C allocator, as in the dynamic array.
\<close>

section \<open>Memory objects\<close>

record NaClMemObj =
  ndp :: nat
  nbytes :: u64
  offset :: u64

definition NaClMemObjCtor :: "nat option \<Rightarrow> u64 \<Rightarrow> u64 \<Rightarrow> NaClMemObj result" where
  "NaClMemObjCtor d nb off =
     (case d of None \<Rightarrow> Inl LogFatal | Some d \<Rightarrow> Inr \<lparr>ndp = d, nbytes = nb, offset = off\<rparr>)"

definition NaClMemObjCopyCtorOff :: "NaClMemObj \<Rightarrow> u64 \<Rightarrow> NaClMemObj" where
  "NaClMemObjCopyCtorOff src additional =
     \<lparr>ndp = ndp src, nbytes = nbytes src, offset = offset src + additional\<rparr>"

text \<open>\<open>sizeof(struct NaClMemObj)\<close> is 24.\<close>

definition NaClMemObjMake ::
  "(nat \<Rightarrow> bool) \<Rightarrow> nat option \<Rightarrow> u64 \<Rightarrow> u64 \<Rightarrow> NaClMemObj option result" where
  "NaClMemObjMake mal d nb off =
     (if d = None then Inr None
      else if \<not> mal 24 then Inl LogFatal
      else rbind (NaClMemObjCtor d nb off) (\<lambda>o'. Inr (Some o')))"

definition NaClMemObjSplit ::
  "(nat \<Rightarrow> bool) \<Rightarrow> NaClMemObj option \<Rightarrow> u64 \<Rightarrow> NaClMemObj option result" where
  "NaClMemObjSplit mal orig additional =
     (case orig of None \<Rightarrow> Inr None
      | Some src \<Rightarrow> if \<not> mal 24 then Inl LogFatal
                    else Inr (Some (NaClMemObjCopyCtorOff src additional)))"

definition NaClMemObjIncOffset :: "NaClMemObj option \<Rightarrow> u64 \<Rightarrow> NaClMemObj option" where
  "NaClMemObjIncOffset nmo additional = map_option (\<lambda>x. x\<lparr>offset := offset x + additional\<rparr>) nmo"

section \<open>The map and its operations\<close>

record NaClVmmapEntry =
  page_num :: u64
  npages :: u64
  prot :: int
  nmop :: "NaClMemObj option"
  removed :: bool

record NaClVmmap =
  vmentry :: "NaClVmmapEntry option list"
  nvalid :: nat
  vm_size :: nat
  is_sorted :: bool

record NaClVmmapIter =
  vmmap :: NaClVmmap
  entry_ix :: nat

definition START_ENTRIES :: nat where "START_ENTRIES = 5"

text \<open>\<open>sizeof(struct NaClVmmapEntry)\<close> is 40; NULL when the allocation fails.\<close>

definition NaClVmmapEntryMake ::
  "(nat \<Rightarrow> bool) \<Rightarrow> u64 \<Rightarrow> u64 \<Rightarrow> int \<Rightarrow> NaClMemObj option \<Rightarrow> NaClVmmapEntry option" where
  "NaClVmmapEntryMake mal pn np pr nmo =
     (if \<not> mal 40 then None
      else Some \<lparr>page_num = pn, npages = np, prot = pr, nmop = nmo, removed = False\<rparr>)"

definition deref :: "'a option list \<Rightarrow> nat \<Rightarrow> 'a result" where
  "deref v i = (if length v \<le> i then Inl OutOfBounds
                else case v ! i of None \<Rightarrow> Inl NullDeref | Some e \<Rightarrow> Inr e)"

definition NaClVmmapCtor :: "(nat \<Rightarrow> bool) \<Rightarrow> NaClVmmap \<Rightarrow> bool \<times> NaClVmmap" where
  "NaClVmmapCtor mal self =
    (let self = self\<lparr>vm_size := START_ENTRIES\<rparr> in
     if (2 ^ 64 - 1) div 8 < vm_size self then (False, self)
     else if \<not> mal (vm_size self * 8) then (False, self\<lparr>vmentry := []\<rparr>)
     else (True, self\<lparr>vmentry := replicate (vm_size self) None, nvalid := 0, is_sorted := True\<rparr>))"

text \<open>Freeing an entry reads it, so each of the first \<open>nvalid\<close> entries must not be NULL.\<close>

definition NaClVmmapDtor :: "NaClVmmap \<Rightarrow> NaClVmmap result" where
  "NaClVmmapDtor self =
    (if length (vmentry self) < nvalid self then Inl OutOfBounds
     else if None \<in> set (take (nvalid self) (vmentry self)) then Inl NullDeref
     else Inr (self\<lparr>vmentry := []\<rparr>))"

text \<open>The difference is truncated to the 32-bit \<open>int\<close> that \<open>qsort\<close> looks at.\<close>

definition NaClVmmapCmpEntries :: "NaClVmmapEntry \<Rightarrow> NaClVmmapEntry \<Rightarrow> int" where
  "NaClVmmapCmpEntries left right = sint (ucast (page_num left - page_num right) :: u32)"

text \<open>
  The three loops of \<open>NaClVmmapRemoveMarked\<close>: dropping marked entries at the end,
  the same after each move, and the scan that fills each hole from the end. All
  return the index \<open>last\<close> (here \<open>lst\<close>) and the array.
\<close>

fun rm_tail :: "NaClVmmapEntry option list \<Rightarrow> nat \<Rightarrow> (nat \<times> NaClVmmapEntry option list) result" where
  "rm_tail v 0 = Inr (0, v)"
| "rm_tail v (Suc lst) =
     rbind (deref v lst) (\<lambda>e. if removed e then rm_tail (v[lst := None]) lst else Inr (lst, v))"

fun rm_inner ::
  "NaClVmmapEntry option list \<Rightarrow> nat \<Rightarrow> nat \<Rightarrow> (nat \<times> NaClVmmapEntry option list) result" where
  "rm_inner v i 0 = Inl OutOfBounds"
| "rm_inner v i (Suc lst) =
     (if i < lst then
        rbind (deref v lst) (\<lambda>e.
          if removed e then rm_inner (v[lst := None]) i lst else Inr (lst, v))
      else Inr (lst, v))"

lemma rm_inner_less: "rm_inner v i lst = Inr (lst', v') \<Longrightarrow> lst' < lst"
  by (induction v i lst rule: rm_inner.induct) (force simp: rbind_eq_Inr split: if_splits)+

function rm_scan ::
  "NaClVmmapEntry option list \<Rightarrow> nat \<Rightarrow> nat \<Rightarrow> (nat \<times> NaClVmmapEntry option list) result" where
  "rm_scan v i lst =
     (if i < lst then
        rbind (deref v i) (\<lambda>e.
          if \<not> removed e then rm_scan v (Suc i) lst
          else rbind (rm_inner (v[i := v ! lst, lst := None]) i lst) (\<lambda>(lst', v').
                 rm_scan v' (Suc i) lst'))
      else Inr (lst, v))"
  by pat_completeness auto
termination
  by (relation "measure (\<lambda>(v, i, lst). lst - i)") (auto dest: rm_inner_less)

declare rm_scan.simps [simp del]

definition NaClVmmapRemoveMarked :: "NaClVmmap \<Rightarrow> NaClVmmap result" where
  "NaClVmmapRemoveMarked self =
    (if nvalid self = 0 then Inr self
     else rbind (rm_tail (vmentry self) (nvalid self)) (\<lambda>(lst, v).
       rbind (if lst = 0
              then rbind (deref v 0) (\<lambda>e. if removed e then Inl LogFatal else Inr ())
              else Inr ()) (\<lambda>_.
       if \<not> lst < nvalid self then Inl CheckFailed
       else rbind (deref v lst) (\<lambda>e.
       if removed e then Inl CheckFailed
       else rbind (rm_scan v 0 lst) (\<lambda>(lst, v).
         Inr (self\<lparr>vmentry := v, nvalid := lst + 1, is_sorted := False\<rparr>))))))"

text \<open>\<open>qsort\<close> rearranges the first \<open>nvalid\<close> pointers; its comparator reads each of them.\<close>

definition NaClVmmapMakeSorted :: "NaClVmmap \<Rightarrow> NaClVmmap result" where
  "NaClVmmapMakeSorted self =
    (if is_sorted self then Inr self
     else rbind (NaClVmmapRemoveMarked self) (\<lambda>self.
       if length (vmentry self) < nvalid self then Inl OutOfBounds
       else if None \<in> set (take (nvalid self) (vmentry self)) then Inl NullDeref
       else Inr (self\<lparr>vmentry :=
                  map Some (qsort NaClVmmapCmpEntries (map the (take (nvalid self) (vmentry self))))
                    @ drop (nvalid self) (vmentry self),
                is_sorted := True\<rparr>)))"

definition NaClVmmapAdd ::
  "(nat \<Rightarrow> bool) \<Rightarrow> NaClVmmap \<Rightarrow> u64 \<Rightarrow> u64 \<Rightarrow> int \<Rightarrow> NaClMemObj option \<Rightarrow>
     (bool \<times> NaClVmmap) result" where
  "NaClVmmapAdd mal self pn np pr nmo =
    (if nvalid self = vm_size self \<and> \<not> mal (2 * vm_size self * 8) then Inr (False, self)
     else
       let self = (if nvalid self = vm_size self
                   then self\<lparr>vmentry := take (2 * vm_size self) (vmentry self @
                               replicate (2 * vm_size self - length (vmentry self)) None),
                             vm_size := 2 * vm_size self\<rparr>
                   else self);
           entry = NaClVmmapEntryMake mal pn np pr nmo in
       if length (vmentry self) \<le> nvalid self then Inl OutOfBounds
       else Inr (True, self\<lparr>vmentry := (vmentry self)[nvalid self := entry],
                            is_sorted := False, nvalid := nvalid self + 1\<rparr>))"

definition set_entry :: "NaClVmmap \<Rightarrow> nat \<Rightarrow> NaClVmmapEntry \<Rightarrow> NaClVmmap" where
  "set_entry self i e = self\<lparr>vmentry := (vmentry self)[i := Some e]\<rparr>"

lemma nvalid_set_entry [simp]: "nvalid (set_entry self i e) = nvalid self"
  by (simp add: set_entry_def)

text \<open>
  The loop of \<open>NaClVmmapUpdate\<close> over the entries from index \<open>i\<close>; \<open>pn\<close> and \<open>new_end\<close> are
  \<open>page_num\<close> and \<open>new_region_end_page\<close>. The two branches that return are its \<open>break\<close>s.
\<close>

function update_loop ::
  "(nat \<Rightarrow> bool) \<Rightarrow> u64 \<Rightarrow> u64 \<Rightarrow> NaClVmmap \<Rightarrow> nat \<Rightarrow> NaClVmmap result" where
  "update_loop mal pn new_end self i =
    (if i < nvalid self then
       rbind (deref (vmentry self) i) (\<lambda>ent.
         let ent_end = page_num ent + npages ent;
             additional_offset = push_bit NACL_PAGESHIFT (new_end - page_num ent) in
         if page_num ent < pn \<and> new_end < ent_end then
           rbind (NaClMemObjSplit mal (nmop ent) additional_offset) (\<lambda>nmo.
           rbind (NaClVmmapAdd mal self new_end (ent_end - new_end) (prot ent) nmo) (\<lambda>(ok, self).
             if \<not> ok then Inl LogFatal
             else Inr (set_entry self i (ent\<lparr>npages := pn - page_num ent\<rparr>))))
         else if page_num ent < pn \<and> pn < ent_end then
           update_loop mal pn new_end (set_entry self i (ent\<lparr>npages := pn - page_num ent\<rparr>)) (Suc i)
         else if page_num ent < new_end \<and> new_end < ent_end then
           Inr (set_entry self i
             (ent\<lparr>nmop := NaClMemObjIncOffset (nmop ent) additional_offset,
                  page_num := new_end, npages := ent_end - new_end\<rparr>))
         else if pn \<le> page_num ent \<and> ent_end \<le> new_end then
           update_loop mal pn new_end (set_entry self i (ent\<lparr>removed := True\<rparr>)) (Suc i)
         else if new_end \<le> page_num ent \<or> ent_end \<le> pn then
           update_loop mal pn new_end self (Suc i)
         else Inl AssertFailed)
     else Inr self)"
  by pat_completeness auto
termination
  by (relation "measure (\<lambda>(mal, pn, new_end, self, i). nvalid self - i)") auto

declare update_loop.simps [simp del]

definition NaClVmmapUpdate ::
  "(nat \<Rightarrow> bool) \<Rightarrow> NaClVmmap \<Rightarrow> u64 \<Rightarrow> u64 \<Rightarrow> int \<Rightarrow> NaClMemObj option \<Rightarrow> bool \<Rightarrow>
     NaClVmmap result" where
  "NaClVmmapUpdate mal self pn np pr nmo remove =
    (let new_region_end_page = pn + np in
     rbind (NaClVmmapMakeSorted self) (\<lambda>self.
     if \<not> 0 < np then Inl CheckFailed
     else rbind (update_loop mal pn new_region_end_page self 0) (\<lambda>self.
     rbind (if remove then Inr self
            else rbind (NaClVmmapAdd mal self pn np pr nmo) (\<lambda>(ok, self).
                   if \<not> ok then Inl LogFatal else Inr self)) (\<lambda>self.
     NaClVmmapRemoveMarked self))))"

definition NaClVmmapContainCmpEntries :: "u64 \<Rightarrow> NaClVmmapEntry \<Rightarrow> int" where
  "NaClVmmapContainCmpEntries key_page ent =
    (if key_page < page_num ent then - 1
     else if key_page < page_num ent + npages ent then 0
     else 1)"

definition find_page_ix :: "NaClVmmap \<Rightarrow> u64 \<Rightarrow> nat option result" where
  "find_page_ix self pnum =
     bsearch (\<lambda>p. case p of None \<Rightarrow> Inl NullDeref
                     | Some e \<Rightarrow> Inr (NaClVmmapContainCmpEntries pnum e))
             (vmentry self) (nvalid self)"

definition NaClVmmapFindPage ::
  "NaClVmmap \<Rightarrow> u64 \<Rightarrow> (NaClVmmapEntry option \<times> NaClVmmap) result" where
  "NaClVmmapFindPage self pnum =
     rbind (NaClVmmapMakeSorted self) (\<lambda>self.
     rbind (find_page_ix self pnum) (\<lambda>r.
       Inr (case r of None \<Rightarrow> (None, self) | Some k \<Rightarrow> (vmentry self ! k, self))))"

definition NaClVmmapFindPageIter :: "NaClVmmap \<Rightarrow> u64 \<Rightarrow> NaClVmmapIter result" where
  "NaClVmmapFindPageIter self pnum =
     rbind (NaClVmmapMakeSorted self) (\<lambda>self.
     rbind (find_page_ix self pnum) (\<lambda>r.
       Inr \<lparr>vmmap = self, entry_ix = (case r of None \<Rightarrow> nvalid self | Some k \<Rightarrow> k)\<rparr>))"

definition NaClVmmapIterAtEnd :: "NaClVmmapIter \<Rightarrow> bool" where
  "NaClVmmapIterAtEnd nvip \<longleftrightarrow> nvalid (vmmap nvip) \<le> entry_ix nvip"

definition NaClVmmapIterStar :: "NaClVmmapIter \<Rightarrow> NaClVmmapEntry option result" where
  "NaClVmmapIterStar nvip =
     (if length (vmentry (vmmap nvip)) \<le> entry_ix nvip then Inl OutOfBounds
      else Inr (vmentry (vmmap nvip) ! entry_ix nvip))"

definition NaClVmmapIterIncr :: "NaClVmmapIter \<Rightarrow> NaClVmmapIter" where
  "NaClVmmapIterIncr nvip = nvip\<lparr>entry_ix := entry_ix nvip + 1\<rparr>"

definition NaClVmmapIterErase :: "NaClVmmapIter \<Rightarrow> NaClVmmapIter result" where
  "NaClVmmapIterErase nvip =
    (let nvp = vmmap nvip; n = nvalid nvp - 1 in
     if length (vmentry nvp) \<le> entry_ix nvip \<or> nvalid nvp = 0 \<or> length (vmentry nvp) \<le> n
     then Inl OutOfBounds
     else Inr (nvip\<lparr>vmmap := nvp\<lparr>vmentry := (vmentry nvp)[entry_ix nvip := vmentry nvp ! n],
                                 nvalid := n, is_sorted := False\<rparr>\<rparr>))"

text \<open>The visitor gets the entry pointer, which may be NULL, and its own state.\<close>

fun visit_loop ::
  "('s \<Rightarrow> NaClVmmapEntry option \<Rightarrow> 's result) \<Rightarrow> NaClVmmapEntry option list \<Rightarrow> 's \<Rightarrow> 's result" where
  "visit_loop fn [] st = Inr st"
| "visit_loop fn (e # es) st = rbind (fn st e) (visit_loop fn es)"

definition NaClVmmapVisit ::
  "NaClVmmap \<Rightarrow> ('s \<Rightarrow> NaClVmmapEntry option \<Rightarrow> 's result) \<Rightarrow> 's \<Rightarrow> ('s \<times> NaClVmmap) result" where
  "NaClVmmapVisit self fn st =
     rbind (NaClVmmapMakeSorted self) (\<lambda>self.
       if length (vmentry self) < nvalid self then Inl OutOfBounds
       else rbind (visit_loop fn (take (nvalid self) (vmentry self)) st) (\<lambda>st. Inr (st, self)))"

text \<open>
  The loop \<open>for (i = self->nvalid; --i > 0; )\<close> of the three downward searches. \<open>chk\<close> is
  its body: from the end page of entry \<open>i - 1\<close> and the start page of entry \<open>i\<close> it says
  what to return, if anything; the loop ends with 0.
\<close>

fun down_loop ::
  "(u64 \<Rightarrow> u64 \<Rightarrow> u64 option) \<Rightarrow> NaClVmmapEntry option list \<Rightarrow> nat \<Rightarrow> u64 result" where
  "down_loop chk v 0 = Inr 0"
| "down_loop chk v (Suc j) =
     rbind (deref v j) (\<lambda>vmep. rbind (deref v (Suc j)) (\<lambda>cur.
       case chk (page_num vmep + npages vmep) (page_num cur) of
         Some r \<Rightarrow> Inr r
       | None \<Rightarrow> down_loop chk v j))"

definition NaClVmmapFindSpace :: "NaClVmmap \<Rightarrow> u64 \<Rightarrow> (u64 \<times> NaClVmmap) result" where
  "NaClVmmapFindSpace self num_pages =
    (if nvalid self = 0 then Inr (0, self)
     else rbind (NaClVmmapMakeSorted self) (\<lambda>self.
       rbind (down_loop (\<lambda>end_page start_page.
                if num_pages \<le> start_page - end_page then Some (start_page - num_pages) else None)
              (vmentry self) (nvalid self - 1)) (\<lambda>r. Inr (r, self))))"

definition NaClVmmapFindMaxFreeSpace :: "NaClVmmap \<Rightarrow> u64 \<Rightarrow> (u64 \<times> NaClVmmap) result" where
  "NaClVmmapFindMaxFreeSpace self num_pages =
    (if nvalid self = 0 then Inr (0, self)
     else rbind (NaClVmmapMakeSorted self) (\<lambda>self.
       rbind (down_loop (\<lambda>end_page start_page.
                if num_pages \<le> start_page - end_page then Some (start_page - end_page) else None)
              (vmentry self) (nvalid self - 1)) (\<lambda>r. Inr (r, self))))"

definition NaClVmmapFindMapSpace :: "NaClVmmap \<Rightarrow> u64 \<Rightarrow> (u64 \<times> NaClVmmap) result" where
  "NaClVmmapFindMapSpace self num_pages0 =
    (if nvalid self = 0 then Inr (0, self)
     else rbind (NaClVmmapMakeSorted self) (\<lambda>self.
       let num_pages = NaClRoundPageNumUpToMapMultiple num_pages0 in
       rbind (down_loop (\<lambda>end0 start0.
                let end_page = NaClRoundPageNumUpToMapMultiple end0;
                    start_page = NaClTruncPageNumDownToMapMultiple start0 in
                if start_page \<le> end_page then None
                else if num_pages \<le> start_page - end_page then Some (start_page - num_pages)
                else None)
              (vmentry self) (nvalid self - 1)) (\<lambda>r. Inr (r, self))))"

function above_loop :: "u64 \<Rightarrow> u64 \<Rightarrow> NaClVmmap \<Rightarrow> nat \<Rightarrow> u64 result" where
  "above_loop usr_page num_pages self i =
    (if i < nvalid self then
       rbind (deref (vmentry self) (i - 1)) (\<lambda>vmep. rbind (deref (vmentry self) i) (\<lambda>cur.
         let end_page = NaClRoundPageNumUpToMapMultiple (page_num vmep + npages vmep);
             start_page = NaClTruncPageNumDownToMapMultiple (page_num cur) in
         if start_page \<le> end_page then above_loop usr_page num_pages self (i + 1)
         else
           let end_page = (if end_page \<le> usr_page \<and> usr_page < start_page
                           then usr_page else end_page) in
           if usr_page \<le> end_page \<and> num_pages \<le> start_page - end_page then Inr end_page
           else above_loop usr_page num_pages self (i + 1)))
     else Inr 0)"
  by pat_completeness auto
termination
  by (relation "measure (\<lambda>(usr_page, num_pages, self, i). nvalid self - i)") auto

declare above_loop.simps [simp del]

definition NaClVmmapFindMapSpaceAboveHint ::
  "NaClVmmap \<Rightarrow> u64 \<Rightarrow> u64 \<Rightarrow> (u64 \<times> NaClVmmap) result" where
  "NaClVmmapFindMapSpaceAboveHint self uaddr num_pages =
     rbind (NaClVmmapMakeSorted self) (\<lambda>self.
     rbind (above_loop (drop_bit NACL_PAGESHIFT uaddr) (NaClRoundPageNumUpToMapMultiple num_pages)
              self 1) (\<lambda>r. Inr (r, self)))"

end
