(* ===== verification/VmmapPages.thy ===== *)
theory VmmapPages
  imports Vmmap
begin

text \<open>
  Correctness of the memory map: deleting marked entries, sorting, updating, looking up
  a page and searching for free space, against the function from page numbers to what
  is mapped there.
\<close>

section \<open>Deleting marked entries\<close>

definition full :: "'a option list \<Rightarrow> nat \<Rightarrow> bool" where
  "full v n \<longleftrightarrow> n \<le> length v \<and> None \<notin> set (take n v)"

definition slots :: "'a option list \<Rightarrow> nat \<Rightarrow> 'a list" where
  "slots v n = map the (take n v)"

definition live :: "NaClVmmapEntry list \<Rightarrow> NaClVmmapEntry list" where
  "live es = filter (\<lambda>e. \<not> removed e) es"

lemma full_iff: "full v n \<longleftrightarrow> n \<le> length v \<and> (\<forall>j < n. v ! j \<noteq> None)"
  by (auto simp: full_def in_set_conv_nth)

lemma full_0 [simp]: "full v 0" by (simp add: full_def)

lemma full_Suc: "full v (Suc n) \<longleftrightarrow> full v n \<and> n < length v \<and> v ! n \<noteq> None"
  by (auto simp: full_iff less_Suc_eq)

lemma full_update_None [simp]: "n \<le> k \<Longrightarrow> full (v[k := None]) n \<longleftrightarrow> full v n"
  by (auto simp: full_iff)

lemma full_mono: "full v n \<Longrightarrow> m \<le> n \<Longrightarrow> full v m"
  by (auto simp: full_iff)

lemma slots_simps [simp]:
  "slots v 0 = []"
  "n < length v \<Longrightarrow> slots v (Suc n) = slots v n @ [the (v ! n)]"
  "n \<le> k \<Longrightarrow> slots (v[k := x]) n = slots v n"
  by (simp_all add: slots_def take_Suc_conv_app_nth)

lemma length_slots [simp]: "n \<le> length v \<Longrightarrow> length (slots v n) = n"
  by (simp add: slots_def)

lemma nth_slots [simp]: "n \<le> length v \<Longrightarrow> i < n \<Longrightarrow> slots v n ! i = the (v ! i)"
  by (simp add: slots_def)

lemma slots_update: "slots (v[i := Some x]) n = (slots v n)[i := x]"
  by (simp add: slots_def take_update_swap map_update)

lemma deref_full [simp]: "full v n \<Longrightarrow> i < n \<Longrightarrow> deref v i = Inr (the (v ! i))"
  by (auto simp: full_iff deref_def split: option.splits)

lemma live_simps [simp]:
  "live [] = []" "live (xs @ ys) = live xs @ live ys"
  "live (e # es) = (if removed e then live es else e # live es)"
  by (simp_all add: live_def)

lemma set_live [simp]: "set (live es) = {e \<in> set es. \<not> removed e}"
  by (simp add: live_def)

lemma rm_tail_spec:
  "full v n \<Longrightarrow> \<exists>l v'. rm_tail v n = Inr (l, v') \<and> length v' = length v \<and>
     (if live (slots v n) = [] then l = 0 \<and> (0 < n \<longrightarrow> v' ! 0 = None)
      else l < n \<and> full v' (Suc l) \<and> \<not> removed (the (v' ! l)) \<and>
           live (slots v' (Suc l)) = live (slots v n))"
proof (induction n arbitrary: v)
  case (Suc n)
  then have n: "n < length v" "full v n" by (auto simp: full_Suc)
  show ?case
  proof (cases "removed (the (v ! n))")
    case True
    from Suc.IH [of "v[n := None]"] n obtain l v' where
      "rm_tail (v[n := None]) n = Inr (l, v')" "length v' = length v"
      "if live (slots v n) = [] then l = 0 \<and> (0 < n \<longrightarrow> v' ! 0 = None)
       else l < n \<and> full v' (Suc l) \<and> \<not> removed (the (v' ! l)) \<and>
            live (slots v' (Suc l)) = live (slots v n)" by auto
    then show ?thesis using True n Suc.prems by (cases "n = 0") (auto split: if_splits)
  next
    case False
    then show ?thesis using n Suc.prems by simp
  qed
qed simp

lemma rm_inner_spec:
  "full v lst \<Longrightarrow> i < lst \<Longrightarrow> \<not> removed (the (v ! i)) \<Longrightarrow>
   \<exists>l v'. rm_inner v i lst = Inr (l, v') \<and> length v' = length v \<and> i \<le> l \<and> l < lst \<and>
     full v' (Suc l) \<and> \<not> removed (the (v' ! l)) \<and> live (slots v' (Suc l)) = live (slots v lst) \<and>
     (\<forall>j \<le> i. v' ! j = v ! j)"
proof (induction lst arbitrary: v)
  case (Suc l)
  then have l: "l < length v" "full v l" by (auto simp: full_Suc)
  show ?case
  proof (cases "i < l \<and> removed (the (v ! l))")
    case True
    with Suc.IH [of "v[l := None]"] l Suc.prems(3) obtain l' v' where
      "rm_inner (v[l := None]) i l = Inr (l', v')" "length v' = length v" "i \<le> l'" "l' < l"
      "full v' (Suc l')" "\<not> removed (the (v' ! l'))" "live (slots v' (Suc l')) = live (slots v l)"
      "\<forall>j \<le> i. v' ! j = v ! j" by auto
    then show ?thesis using True l Suc.prems by auto
  next
    case False
    then show ?thesis using l Suc.prems by (cases "i < l") (auto simp: less_Suc_eq)
  qed
qed simp

lemma mset_live_update_removed:
  assumes "i < length xs" "removed (xs ! i)"
  shows "mset (live (xs[i := y])) = mset (live (xs @ [y]))"
  using assms by (simp add: live_def mset_filter mset_update filter_diff_mset)

lemma live_slots_id:
  "n \<le> length v \<Longrightarrow> \<forall>j < n. \<not> removed (the (v ! j)) \<Longrightarrow> live (slots v n) = slots v n"
  unfolding live_def by (intro filter_True) (auto simp: in_set_conv_nth)

lemma rm_scan_spec:
  assumes "full v (Suc lst)" "i \<le> lst" "\<not> removed (the (v ! lst))" "\<forall>j < i. \<not> removed (the (v ! j))"
  shows "\<exists>l v'. rm_scan v i lst = Inr (l, v') \<and> length v' = length v \<and> full v' (Suc l) \<and>
           (\<forall>j \<le> l. \<not> removed (the (v' ! j))) \<and> mset (slots v' (Suc l)) = mset (live (slots v (Suc lst)))"
  using assms
proof (induction v i lst rule: rm_scan.induct)
  case (1 v i lst)
  have len: "lst < length v" and f: "full v lst" using "1.prems"(1) by (auto simp: full_Suc)
  have di: "deref v i = Inr (the (v ! i))" using "1.prems"(1,2) by simp
  consider "i = lst" | "i < lst" "\<not> removed (the (v ! i))" | "i < lst" "removed (the (v ! i))"
    using "1.prems"(2) by linarith
  then show ?case
  proof cases
    case eq: 1
    have "live (slots v (Suc lst)) = slots v (Suc lst)"
      using "1.prems"(3,4) eq len by (intro live_slots_id) (auto simp: less_Suc_eq)
    then show ?thesis using eq "1.prems" by (subst rm_scan.simps) (auto simp: le_less)
  next
    case 2
    then show ?thesis
      using "1.IH"(1) [OF 2(1) di 2(2)] "1.prems" di by (subst rm_scan.simps) (auto simp: less_Suc_eq)
  next
    case 3
    define w where "w = v[i := v ! lst, lst := None]"
    have w: "full w lst" "w ! i = v ! lst" "length w = length v"
      using 3(1) len "1.prems"(1) by (auto simp: w_def full_iff nth_list_update)
    have sl: "slots w lst = (slots v lst)[i := the (v ! lst)]"
      using 3(1) len "1.prems"(1) slots_update [of v i "the (v ! lst)" lst]
      by (simp add: w_def full_Suc)
    have ml: "mset (live (slots w lst)) = mset (live (slots v (Suc lst)))"
      using 3 len sl mset_live_update_removed [of i "slots v lst"] by simp
    from rm_inner_spec [OF w(1) 3(1)] w(2) "1.prems"(3) obtain l v' where
      r: "rm_inner w i lst = Inr (l, v')" "length v' = length w" "i \<le> l" "l < lst" "full v' (Suc l)"
        "\<not> removed (the (v' ! l))" "live (slots v' (Suc l)) = live (slots w lst)"
        "\<forall>j \<le> i. v' ! j = w ! j" by auto
    have wlow: "w ! j = v ! j" if "j < i" for j using that 3(1) by (simp add: w_def)
    have step: "rm_scan v i lst = rm_scan v' (Suc i) l"
      using 3 di r(1) by (subst rm_scan.simps) (simp add: w_def)
    show ?thesis
    proof (cases "l = i")
      case True
      then have sc: "rm_scan v' (Suc i) l = Inr (l, v')" by (subst rm_scan.simps) simp
      have nr: "\<forall>j \<le> l. \<not> removed (the (v' ! j))"
        using True r(6,8) wlow "1.prems"(4) by (auto simp: le_less)
      then have "live (slots v' (Suc l)) = slots v' (Suc l)"
        using r(2,4,5) by (intro live_slots_id) (auto simp: full_iff)
      then show ?thesis using step sc nr r ml w(3) by simp
    next
      case False
      have "\<forall>j < Suc i. \<not> removed (the (v' ! j))"
        using r(8) wlow w(2) "1.prems"(3,4) by (auto simp: less_Suc_eq_le le_less)
      with "1.IH"(2) [OF 3(1) di _ r(1) [unfolded w_def] refl] 3(2) r False
      show ?thesis using step ml w(3) by auto
    qed
  qed
qed

definition ents :: "NaClVmmap \<Rightarrow> NaClVmmapEntry list" where
  "ents self = slots (vmentry self) (nvalid self)"

definition vm_shape :: "NaClVmmap \<Rightarrow> bool" where
  "vm_shape self \<longleftrightarrow> full (vmentry self) (nvalid self) \<and> length (vmentry self) = vm_size self \<and>
     0 < vm_size self"

lemma length_ents [simp]: "vm_shape self \<Longrightarrow> length (ents self) = nvalid self"
  by (simp add: ents_def vm_shape_def full_def)

text \<open>
  Deleting keeps exactly the unmarked entries. When every entry is marked the process
  dereferences the NULL it has just stored in slot 0.
\<close>

lemma RemoveMarked_spec:
  assumes sh: "vm_shape self" and ne: "live (ents self) \<noteq> []"
  obtains self' where "NaClVmmapRemoveMarked self = Inr self'" "vm_shape self'"
    "mset (ents self') = mset (live (ents self))" "\<not> is_sorted self'" "vm_size self' = vm_size self"
proof -
  have f: "full (vmentry self) (nvalid self)" using sh by (simp add: vm_shape_def)
  have n0: "nvalid self \<noteq> 0" using ne by (cases "nvalid self") (simp_all add: ents_def)
  from rm_tail_spec [OF f] ne obtain l v where
    t: "rm_tail (vmentry self) (nvalid self) = Inr (l, v)" "length v = length (vmentry self)"
      "l < nvalid self" "full v (Suc l)" "\<not> removed (the (v ! l))"
      "live (slots v (Suc l)) = live (ents self)" by (auto simp: ents_def)
  from rm_scan_spec [OF t(4) _ t(5), of 0] obtain l' v' where
    s: "rm_scan v 0 l = Inr (l', v')" "length v' = length v" "full v' (Suc l')"
      "mset (slots v' (Suc l')) = mset (live (slots v (Suc l)))" by auto
  have "deref v l = Inr (the (v ! l))" using t(4) by simp
  with t s n0 have "NaClVmmapRemoveMarked self =
      Inr (self\<lparr>vmentry := v', nvalid := Suc l', is_sorted := False\<rparr>)"
    by (cases "l = 0") (simp_all add: NaClVmmapRemoveMarked_def)
  then show ?thesis
    by (rule that) (use sh s t in \<open>simp_all add: vm_shape_def ents_def\<close>)
qed

lemma RemoveMarked_all:
  assumes sh: "vm_shape self" and "nvalid self \<noteq> 0" "live (ents self) = []"
  shows "NaClVmmapRemoveMarked self = Inl NullDeref"
proof -
  have f: "full (vmentry self) (nvalid self)" using sh by (simp add: vm_shape_def)
  from rm_tail_spec [OF f] assms obtain v where
    t: "rm_tail (vmentry self) (nvalid self) = Inr (0, v)" "length v = length (vmentry self)"
      "v ! 0 = None" by (auto simp: ents_def)
  then have "deref v 0 = Inl NullDeref" using sh by (simp add: deref_def vm_shape_def)
  with t assms(2) show ?thesis by (simp add: NaClVmmapRemoveMarked_def)
qed

section \<open>Entries as intervals of pages\<close>

text \<open>
  The map covers user addresses, of at most 32 bits, so page numbers stay far below
  \<open>2 ^ 31\<close>; below that bound the truncating comparator orders entries by page number.
\<close>

definition e_start :: "NaClVmmapEntry \<Rightarrow> nat" where "e_start e = unat (page_num e)"
definition e_end :: "NaClVmmapEntry \<Rightarrow> nat" where "e_end e = unat (page_num e) + unat (npages e)"

definition ent_ok :: "NaClVmmapEntry \<Rightarrow> bool" where
  "ent_ok e \<longleftrightarrow> e_start e < e_end e \<and> e_end e \<le> 2 ^ 31 \<and> \<not> removed e"

definition apart :: "NaClVmmapEntry \<Rightarrow> NaClVmmapEntry \<Rightarrow> bool" where
  "apart e f \<longleftrightarrow> e_end e \<le> e_start f \<or> e_end f \<le> e_start e"

definition ents_ok :: "NaClVmmapEntry list \<Rightarrow> bool" where
  "ents_ok es \<longleftrightarrow> (\<forall>e \<in> set es. ent_ok e) \<and> distinct es \<and>
     (\<forall>e \<in> set es. \<forall>f \<in> set es. e \<noteq> f \<longrightarrow> apart e f)"

definition vm_inv :: "NaClVmmap \<Rightarrow> bool" where
  "vm_inv self \<longleftrightarrow> vm_shape self \<and> ents_ok (ents self) \<and>
     (is_sorted self \<longrightarrow> sorted (map e_start (ents self)))"

lemma apart_sym: "apart e f \<longleftrightarrow> apart f e" by (auto simp: apart_def)

lemma unat_ent_end: "ent_ok e \<Longrightarrow> unat (page_num e + npages e) = e_end e"
  by (simp add: ent_ok_def e_end_def unat_plus_nowrap)

lemma sint_ucast_word_of_int: "sint (ucast (word_of_int k :: u64) :: u32) = signed_take_bit 31 k"
  by (simp add: unsigned_of_int signed_of_int signed_take_bit_take_bit)

lemma CmpEntries_le:
  assumes "ent_ok e" "ent_ok f"
  shows "NaClVmmapCmpEntries e f \<le> 0 \<longleftrightarrow> e_start e \<le> e_start f"
proof -
  have b: "e_start e < 2 ^ 31" "e_start f < 2 ^ 31" using assms by (auto simp: ent_ok_def)
  have "page_num e - page_num f = word_of_int (int (e_start e) - int (e_start f))"
    by (simp add: e_start_def uint_nat [symmetric] wi_hom_sub [symmetric])
  then have "NaClVmmapCmpEntries e f = signed_take_bit 31 (int (e_start e) - int (e_start f))"
    by (simp only: NaClVmmapCmpEntries_def sint_ucast_word_of_int)
  also have "\<dots> = int (e_start e) - int (e_start f)"
    by (rule signed_take_bit_int_eq_self) (use b in auto)
  finally show ?thesis by simp
qed

lemma ents_ok_mset: "mset xs = mset ys \<Longrightarrow> ents_ok xs \<longleftrightarrow> ents_ok ys"
  using mset_eq_imp_distinct_iff [of xs ys] mset_eq_setD [of xs ys] by (simp add: ents_ok_def)

lemma live_ok: "ents_ok es \<Longrightarrow> live es = es"
  by (auto simp: live_def ents_ok_def ent_ok_def intro: filter_True)

lemma sorted_order:
  assumes "ents_ok es" "sorted (map e_start es)"
  shows "sorted_wrt (\<lambda>e f. e_end e \<le> e_start f) es"
  using assms
proof (induction es)
  case (Cons e es)
  then have "e_end e \<le> e_start f" if "f \<in> set es" for f
    using that by (auto simp: ents_ok_def ent_ok_def apart_def) (metis leD order_trans)
  moreover have "ents_ok es" using Cons.prems(1) by (simp add: ents_ok_def)
  ultimately show ?case using Cons by simp
qed simp

lemma slots_sorted [simp]: "length xs = n \<Longrightarrow> slots (map Some xs @ ys) n = xs"
  by (simp add: slots_def)

lemma MakeSorted_spec:
  assumes inv: "vm_inv self"
  obtains self' where "NaClVmmapMakeSorted self = Inr self'" "vm_inv self'" "is_sorted self'"
    "mset (ents self') = mset (ents self)" "vm_size self' = vm_size self"
proof (cases "is_sorted self")
  case True
  then show ?thesis using that inv by (simp add: NaClVmmapMakeSorted_def)
next
  case False
  have ok: "ents_ok (ents self)" and sh: "vm_shape self" using inv by (simp_all add: vm_inv_def)
  obtain s1 where s1: "NaClVmmapRemoveMarked self = Inr s1" "vm_shape s1"
      "mset (ents s1) = mset (ents self)" "vm_size s1 = vm_size self"
  proof (cases "nvalid self = 0")
    case True
    then show ?thesis using that sh by (simp add: NaClVmmapRemoveMarked_def)
  next
    case False
    then have "live (ents self) \<noteq> []" using live_ok [OF ok] length_ents [OF sh] by auto
    from RemoveMarked_spec [OF sh this] show ?thesis using that live_ok [OF ok] by metis
  qed
  let ?q = "qsort NaClVmmapCmpEntries (ents s1)"
  let ?s2 = "s1\<lparr>vmentry := map Some ?q @ drop (nvalid s1) (vmentry s1), is_sorted := True\<rparr>"
  have ok1: "ents_ok (ents s1)" using ents_ok_mset [OF s1(3)] ok by simp
  have eq: "NaClVmmapMakeSorted self = Inr ?s2"
    using False s1(1,2) by (simp add: NaClVmmapMakeSorted_def vm_shape_def full_def ents_def slots_def)
  have e2: "ents ?s2 = ?q" using s1(2) by (simp add: ents_def vm_shape_def full_def)
  have so: "sorted (map e_start ?q)"
    by (rule sorted_qsort) (use ok1 CmpEntries_le in \<open>auto simp: ents_ok_def\<close>)
  have fl: "full (vmentry ?s2) (nvalid ?s2)"
    using s1(2) by (auto simp: full_def vm_shape_def)
  have "vm_shape ?s2" using fl s1(2) by (simp add: vm_shape_def full_def)
  moreover have "ents_ok ?q" using ents_ok_mset [OF mset_qsort] ok1 by blast
  ultimately have "vm_inv ?s2" using e2 so by (simp add: vm_inv_def)
  then show ?thesis using that [OF eq] e2 s1(3,4) by simp
qed

section \<open>The page map\<close>

text \<open>
  What a page is mapped to: its protection and, when the entry has a memory object, the
  descriptor and the offset of the page in it.
\<close>

definition covers :: "NaClVmmapEntry \<Rightarrow> u64 \<Rightarrow> bool" where
  "covers e p \<longleftrightarrow> e_start e \<le> unat p \<and> unat p < e_end e"

definition page_of :: "NaClVmmapEntry \<Rightarrow> u64 \<Rightarrow> int \<times> (nat \<times> u64) option" where
  "page_of e p = (prot e,
     map_option (\<lambda>m. (ndp m, offset m + push_bit NACL_PAGESHIFT (p - page_num e))) (nmop e))"

definition pages :: "NaClVmmapEntry list \<Rightarrow> u64 \<Rightarrow> (int \<times> (nat \<times> u64) option) option" where
  "pages es p = map_option (\<lambda>e. page_of e p) (find (\<lambda>e. covers e p) es)"

definition vm_pages :: "NaClVmmap \<Rightarrow> u64 \<Rightarrow> (int \<times> (nat \<times> u64) option) option" where
  "vm_pages self = pages (ents self)"

lemma covers_unique: "ents_ok es \<Longrightarrow> e \<in> set es \<Longrightarrow> f \<in> set es \<Longrightarrow> covers e p \<Longrightarrow> covers f p \<Longrightarrow> e = f"
  by (force simp: ents_ok_def covers_def apart_def)

lemma pages_eq_Some:
  assumes "ents_ok es"
  shows "pages es p = Some x \<longleftrightarrow> (\<exists>e \<in> set es. covers e p \<and> x = page_of e p)"
proof
  assume "pages es p = Some x"
  then show "\<exists>e \<in> set es. covers e p \<and> x = page_of e p"
    by (auto simp: pages_def find_Some_iff)
next
  assume "\<exists>e \<in> set es. covers e p \<and> x = page_of e p"
  then obtain e where e: "e \<in> set es" "covers e p" "x = page_of e p" by blast
  then obtain f where f: "find (\<lambda>e. covers e p) es = Some f"
    by (cases "find (\<lambda>e. covers e p) es") (auto simp: find_None_iff)
  then have "f \<in> set es" "covers f p" by (auto simp: find_Some_iff)
  then have "f = e" using covers_unique [OF assms] e by blast
  then show "pages es p = Some x" using f e by (simp add: pages_def)
qed

lemma option_eq_iff_Some: "(\<And>x. a = Some x \<longleftrightarrow> b = Some x) \<Longrightarrow> a = b"
  by (cases a; cases b) auto

lemma pages_eqI:
  assumes "ents_ok xs" "ents_ok ys"
    and "\<And>x. (\<exists>e \<in> set xs. covers e p \<and> x = page_of e p) \<longleftrightarrow> (\<exists>e \<in> set ys. covers e p \<and> x = page_of e p)"
  shows "pages xs p = pages ys p"
  using assms(3) pages_eq_Some [OF assms(1)] pages_eq_Some [OF assms(2)]
  by (metis not_Some_eq)

lemma pages_mset: "ents_ok xs \<Longrightarrow> mset xs = mset ys \<Longrightarrow> pages xs = pages ys"
  using ents_ok_mset [of xs ys] mset_eq_setD [of xs ys] by (intro ext pages_eqI) auto

section \<open>Updating a range\<close>

text \<open>What is left of an entry when the pages \<open>[pn, new_end)\<close> are taken out of it.\<close>

definition left_part :: "u64 \<Rightarrow> NaClVmmapEntry \<Rightarrow> NaClVmmapEntry" where
  "left_part pn e = e\<lparr>npages := pn - page_num e\<rparr>"

definition right_part :: "u64 \<Rightarrow> NaClVmmapEntry \<Rightarrow> NaClVmmapEntry" where
  "right_part new_end e =
     e\<lparr>nmop := NaClMemObjIncOffset (nmop e) (push_bit NACL_PAGESHIFT (new_end - page_num e)),
       page_num := new_end, npages := page_num e + npages e - new_end\<rparr>"

definition cut :: "u64 \<Rightarrow> u64 \<Rightarrow> NaClVmmapEntry \<Rightarrow> NaClVmmapEntry list" where
  "cut pn new_end e =
     (if unat pn \<le> e_start e \<and> e_end e \<le> unat new_end then []
      else if e_end e \<le> unat pn \<or> unat new_end \<le> e_start e then [e]
      else (if e_start e < unat pn then [left_part pn e] else []) @
           (if unat new_end < e_end e then [right_part new_end e] else []))"

lemma e_start_parts [simp]:
  "e_start (left_part pn e) = e_start e" "e_start (right_part new_end e) = unat new_end"
  by (simp_all add: left_part_def right_part_def e_start_def)

lemma e_end_left: "e_start e \<le> unat pn \<Longrightarrow> e_end (left_part pn e) = unat pn"
  by (simp add: left_part_def e_start_def e_end_def unat_sub word_le_nat_alt)

lemma e_end_right: "ent_ok e \<Longrightarrow> unat new_end \<le> e_end e \<Longrightarrow> e_end (right_part new_end e) = e_end e"
  using unat_ent_end [of e] by (simp add: right_part_def e_end_def unat_sub word_le_nat_alt)

lemma removed_parts [simp]:
  "removed (left_part pn e) = removed e" "removed (right_part new_end e) = removed e"
  by (simp_all add: left_part_def right_part_def)

lemma page_of_left [simp]: "page_of (left_part pn e) p = page_of e p"
  by (simp add: page_of_def left_part_def)

lemma page_of_right [simp]: "page_of (right_part new_end e) p = page_of e p"
  by (simp add: page_of_def right_part_def NaClMemObjIncOffset_def option.map_comp comp_def
      push_bit_eq_mult algebra_simps)

lemma cut_piece:
  assumes "ent_ok e" "unat pn < unat new_end" "f \<in> set (cut pn new_end e)"
  shows "ent_ok f" "e_start e \<le> e_start f" "e_end f \<le> e_end e"
    "e_end f \<le> unat pn \<or> unat new_end \<le> e_start f"
  using assms by (auto simp: cut_def ent_ok_def e_end_left e_end_right split: if_splits)

lemma cut_covers:
  assumes "ent_ok e" "unat pn < unat new_end"
  shows "(\<exists>f \<in> set (cut pn new_end e). covers f p \<and> x = page_of f p) \<longleftrightarrow>
         covers e p \<and> \<not> (pn \<le> p \<and> p < new_end) \<and> x = page_of e p"
  using assms unfolding cut_def covers_def word_le_nat_alt word_less_nat_alt
  by (auto simp: e_end_left e_end_right ent_ok_def)

lemma cut_ok:
  assumes "ent_ok e" "unat pn < unat new_end"
  shows "ents_ok (cut pn new_end e)"
proof -
  have "distinct (cut pn new_end e)"
    using assms by (auto simp: cut_def dest: arg_cong [where f = e_start])
  moreover have "apart f g" if "f \<in> set (cut pn new_end e)" "g \<in> set (cut pn new_end e)" "f \<noteq> g" for f g
    using assms that by (auto simp: cut_def apart_def e_end_left e_end_right split: if_splits)
  ultimately show ?thesis using cut_piece [OF assms] by (simp add: ents_ok_def)
qed

lemma ents_ok_append:
  assumes "ents_ok xs" "ents_ok ys" "\<And>e f. e \<in> set xs \<Longrightarrow> f \<in> set ys \<Longrightarrow> apart e f"
  shows "ents_ok (xs @ ys)"
proof -
  have "e \<notin> set ys" if "e \<in> set xs" for e
    using assms(1) assms(3) [OF that, of e] that by (auto simp: ents_ok_def ent_ok_def apart_def)
  moreover have "apart e f" if "e \<in> set ys" "f \<in> set xs" for e f
    using assms(3) [OF that(2,1)] apart_sym by blast
  ultimately show ?thesis using assms by (auto simp: ents_ok_def)
qed

lemma cuts_ok:
  assumes "ents_ok es" "unat pn < unat new_end"
  shows "ents_ok (concat (map (cut pn new_end) es))"
  using assms(1)
proof (induction es)
  case (Cons e es)
  then have e: "ent_ok e" "ents_ok es" "\<And>f. f \<in> set es \<Longrightarrow> ent_ok f \<and> apart e f"
    by (auto simp: ents_ok_def)
  have "ents_ok (cut pn new_end e @ concat (map (cut pn new_end) es))"
  proof (rule ents_ok_append)
    fix a b
    assume "a \<in> set (cut pn new_end e)" "b \<in> set (concat (map (cut pn new_end) es))"
    then obtain f where f: "f \<in> set es" "b \<in> set (cut pn new_end f)" by auto
    note pa = cut_piece [OF e(1) assms(2) \<open>a \<in> _\<close>]
    note pb = cut_piece [OF conjunct1 [OF e(3) [OF f(1)]] assms(2) f(2)]
    show "apart a b" using pa pb e(3) [OF f(1)] by (auto simp: apart_def)
  qed (use cut_ok e Cons assms(2) in auto)
  then show ?case by simp
qed (simp add: ents_ok_def)

lemma cuts_away:
  assumes "ents_ok es" "unat pn < unat new_end" "f \<in> set (concat (map (cut pn new_end) es))"
  shows "e_end f \<le> unat pn \<or> unat new_end \<le> e_start f"
proof -
  obtain e where "e \<in> set es" "f \<in> set (cut pn new_end e)" using assms(3) by auto
  then show ?thesis using cut_piece(4) assms(1,2) unfolding ents_ok_def by blast
qed

lemma pages_cuts:
  assumes "ents_ok es" "unat pn < unat new_end"
  shows "pages (concat (map (cut pn new_end) es)) p = (if pn \<le> p \<and> p < new_end then None else pages es p)"
proof -
  have "(\<exists>f \<in> set (concat (map (cut pn new_end) es)). covers f p \<and> x = page_of f p) \<longleftrightarrow>
      (\<exists>e \<in> set es. \<exists>f \<in> set (cut pn new_end e). covers f p \<and> x = page_of f p)" for x by auto
  also have "\<dots> x \<longleftrightarrow> (\<exists>e \<in> set es. covers e p \<and> \<not> (pn \<le> p \<and> p < new_end) \<and> x = page_of e p)" for x
    using assms(1) by (intro bex_cong cut_covers [OF _ assms(2)]) (auto simp: ents_ok_def)
  finally have "pages (concat (map (cut pn new_end) es)) p = Some x \<longleftrightarrow>
      (if pn \<le> p \<and> p < new_end then None else pages es p) = Some x" for x
    unfolding pages_eq_Some [OF cuts_ok [OF assms]] using pages_eq_Some [OF assms(1), of p x] by auto
  then show ?thesis by (rule option_eq_iff_Some)
qed

lemma cut_beyond: "ent_ok f \<Longrightarrow> unat pn < unat new_end \<Longrightarrow> unat new_end \<le> e_start f \<Longrightarrow> cut pn new_end f = [f]"
  by (auto simp: cut_def ent_ok_def)

lemma concat_cut_beyond:
  "\<forall>f \<in> set es. ent_ok f \<and> unat new_end \<le> e_start f \<Longrightarrow> unat pn < unat new_end \<Longrightarrow>
   concat (map (cut pn new_end) es) = es"
  by (induction es) (simp_all add: cut_beyond)

lemma Add_spec:
  assumes "vm_shape self" "\<forall>n. mal n"
  obtains self' where "NaClVmmapAdd mal self pn np pr nmo = Inr (True, self')" "vm_shape self'"
    "ents self' = ents self @ [\<lparr>page_num = pn, npages = np, prot = pr, nmop = nmo, removed = False\<rparr>]"
    "nvalid self' = Suc (nvalid self)" "\<not> is_sorted self'"
    "\<And>i. i < nvalid self \<Longrightarrow> vmentry self' ! i = vmentry self ! i"
proof -
  let ?e = "\<lparr>page_num = pn, npages = np, prot = pr, nmop = nmo, removed = False\<rparr>"
  define v where "v = vmentry self @ replicate (if nvalid self = vm_size self then vm_size self else 0) None"
  let ?self' = "self\<lparr>vmentry := v[nvalid self := Some ?e], vm_size := length v,
                    is_sorted := False, nvalid := Suc (nvalid self)\<rparr>"
  have v: "nvalid self < length v" "full v (nvalid self)" "slots v (nvalid self) = ents self"
    "length v = (if nvalid self = vm_size self then 2 * vm_size self else vm_size self)"
    using assms(1) by (auto simp: v_def vm_shape_def full_def slots_def ents_def)
  have "full (v[nvalid self := Some ?e]) (Suc (nvalid self))"
    using v(1,2) by (auto simp: full_iff less_Suc_eq nth_list_update)
  then have "vm_shape ?self'" using v(1) by (auto simp: vm_shape_def)
  moreover have "ents ?self' = ents self @ [?e]" using v by (simp add: ents_def)
  moreover have "NaClVmmapAdd mal self pn np pr nmo = Inr (True, ?self')"
    using v assms by (auto simp: NaClVmmapAdd_def NaClVmmapEntryMake_def Let_def v_def vm_shape_def)
  moreover have "vmentry ?self' ! i = vmentry self ! i" if "i < nvalid self" for i
    using that assms(1) by (simp add: v_def vm_shape_def full_def nth_append)
  ultimately show ?thesis using that by auto
qed

lemma set_entry_shape:
  assumes "vm_shape self" "i < nvalid self"
  shows "vm_shape (set_entry self i e)" "ents (set_entry self i e) = (ents self)[i := e]"
  using assms by (auto simp: set_entry_def vm_shape_def ents_def slots_update full_iff nth_list_update)

lemma unat_ends [simp]:
  assumes "ent_ok e"
  shows "page_num e < x \<longleftrightarrow> e_start e < unat x" "x \<le> page_num e \<longleftrightarrow> unat x \<le> e_start e"
    "x < page_num e + npages e \<longleftrightarrow> unat x < e_end e" "page_num e + npages e \<le> x \<longleftrightarrow> e_end e \<le> unat x"
  using unat_ent_end [OF assms] by (simp_all add: word_less_nat_alt word_le_nat_alt e_start_def)

text \<open>The loop leaves, unmarked, what the range leaves of each entry.\<close>

lemma split_entry:
  assumes sh: "vm_shape self" and i: "i < nvalid self" and mal: "\<forall>n. mal n" and e: "ent_ok e"
    and nth: "ents self ! i = e"
  obtains self' nmo where
    "NaClMemObjSplit mal (nmop e) (push_bit NACL_PAGESHIFT (new_end - page_num e)) = Inr nmo"
    "NaClVmmapAdd mal self new_end (page_num e + npages e - new_end) (prot e) nmo = Inr (True, self')"
    "vm_shape (set_entry self' i (left_part pn e))"
    "ents (set_entry self' i (left_part pn e)) = (ents self)[i := left_part pn e] @ [right_part new_end e]"
proof -
  define nmo where "nmo = NaClMemObjIncOffset (nmop e) (push_bit NACL_PAGESHIFT (new_end - page_num e))"
  have 1: "NaClMemObjSplit mal (nmop e) (push_bit NACL_PAGESHIFT (new_end - page_num e)) = Inr nmo"
    using mal by (cases "nmop e")
      (simp_all add: NaClMemObjSplit_def nmo_def NaClMemObjIncOffset_def NaClMemObjCopyCtorOff_def)
  have rp: "\<lparr>page_num = new_end, npages = page_num e + npages e - new_end, prot = prot e,
      nmop = nmo, removed = False\<rparr> = right_part new_end e"
    using e by (cases e) (simp add: right_part_def nmo_def ent_ok_def)
  obtain self' where a:
    "NaClVmmapAdd mal self new_end (page_num e + npages e - new_end) (prot e) nmo = Inr (True, self')"
    "vm_shape self'" "nvalid self' = Suc (nvalid self)"
    "ents self' = ents self @ [right_part new_end e]"
    using Add_spec [OF sh mal, of new_end "page_num e + npages e - new_end" "prot e" nmo]
    unfolding rp by blast
  have "i < nvalid self'" using i a(3) by simp
  then show ?thesis
    by (intro that [OF 1 a(1)]) (use set_entry_shape a i sh in \<open>simp_all add: list_update_append\<close>)
qed

lemma deref_ents: "vm_shape self \<Longrightarrow> i < nvalid self \<Longrightarrow> deref (vmentry self) i = Inr (ents self ! i)"
  using deref_full [of "vmentry self" "nvalid self" i] by (simp add: vm_shape_def ents_def full_def)

lemma update_loop_step:
  assumes sh: "vm_shape self" and i: "i < nvalid self" and mal: "\<forall>n. mal n"
    and e: "ents self ! i = e" "ent_ok e" and lt: "unat pn < unat new_end"
  shows "e_start e < unat pn \<and> unat new_end < e_end e \<Longrightarrow>
      \<exists>self'. update_loop mal pn new_end self i = Inr self' \<and> vm_shape self' \<and>
        ents self' = (ents self)[i := left_part pn e] @ [right_part new_end e]"
    and "e_start e < unat pn \<and> unat pn < e_end e \<and> e_end e \<le> unat new_end \<Longrightarrow>
      update_loop mal pn new_end self i = update_loop mal pn new_end (set_entry self i (left_part pn e)) (Suc i)"
    and "unat pn \<le> e_start e \<and> e_start e < unat new_end \<and> unat new_end < e_end e \<Longrightarrow>
      update_loop mal pn new_end self i = Inr (set_entry self i (right_part new_end e))"
    and "unat pn \<le> e_start e \<and> e_end e \<le> unat new_end \<Longrightarrow>
      update_loop mal pn new_end self i = update_loop mal pn new_end (set_entry self i (e\<lparr>removed := True\<rparr>)) (Suc i)"
    and "e_end e \<le> unat pn \<or> unat new_end \<le> e_start e \<Longrightarrow>
      update_loop mal pn new_end self i = update_loop mal pn new_end self (Suc i)"
proof -
  note d = deref_ents [OF sh i, unfolded e(1)] and ne = e(2) [unfolded ent_ok_def]
  note step = update_loop.simps [of mal pn new_end self i] i d e(2) Let_def
  show "\<exists>self'. update_loop mal pn new_end self i = Inr self' \<and> vm_shape self' \<and>
        ents self' = (ents self)[i := left_part pn e] @ [right_part new_end e]"
    if "e_start e < unat pn \<and> unat new_end < e_end e"
    using split_entry [OF sh i mal e(2,1), of new_end pn] that by (force simp: step left_part_def)
  show "update_loop mal pn new_end self i = update_loop mal pn new_end (set_entry self i (left_part pn e)) (Suc i)"
    if "e_start e < unat pn \<and> unat pn < e_end e \<and> e_end e \<le> unat new_end"
    using that by (simp add: step left_part_def)
  show "update_loop mal pn new_end self i = Inr (set_entry self i (right_part new_end e))"
    if "unat pn \<le> e_start e \<and> e_start e < unat new_end \<and> unat new_end < e_end e"
    using that by (simp add: step right_part_def)
  show "update_loop mal pn new_end self i = update_loop mal pn new_end (set_entry self i (e\<lparr>removed := True\<rparr>)) (Suc i)"
    if "unat pn \<le> e_start e \<and> e_end e \<le> unat new_end"
    using that ne lt by (simp add: step)
  show "update_loop mal pn new_end self i = update_loop mal pn new_end self (Suc i)"
    if "e_end e \<le> unat pn \<or> unat new_end \<le> e_start e"
    using that ne lt by (auto simp: step)
qed

lemma update_loop_spec:
  assumes "vm_shape self" and "i \<le> nvalid self" and mal: "\<forall>n. mal n" and lt: "unat pn < unat new_end"
    and "\<forall>e \<in> set (drop i (ents self)). ent_ok e"
    and "sorted_wrt (\<lambda>e f. e_end e \<le> e_start f) (drop i (ents self))"
  shows "\<exists>self'. update_loop mal pn new_end self i = Inr self' \<and> vm_shape self' \<and>
           nvalid self \<le> nvalid self' \<and>
           mset (live (ents self')) =
           mset (live (take i (ents self)) @ concat (map (cut pn new_end) (drop i (ents self))))"
  using assms(1,2,5,6)
proof (induction "nvalid self - i" arbitrary: self i)
  case 0
  then show ?case by (subst update_loop.simps) simp
next
  case (Suc k)
  then have i: "i < nvalid self" and sh: "vm_shape self" by simp_all
  define e where "e = ents self ! i"
  let ?pre = "take i (ents self)" and ?rest = "drop (Suc i) (ents self)"
  have len: "i < length (ents self)" using i sh by simp
  have dr: "drop i (ents self) = e # ?rest" using len by (simp add: Cons_nth_drop_Suc e_def)
  have e: "ent_ok e" "\<not> removed e" and rest: "\<forall>f \<in> set ?rest. ent_ok f \<and> e_end e \<le> e_start f"
    "sorted_wrt (\<lambda>e f. e_end e \<le> e_start f) ?rest"
    using Suc.prems(3,4) by (auto simp: dr ent_ok_def)
  have upd: "take (Suc i) ((ents self)[i := x]) = ?pre @ [x]" "drop (Suc i) ((ents self)[i := x]) = ?rest"
    "(ents self)[i := x] = ?pre @ [x] @ ?rest" for x
    using len by (simp_all add: take_Suc_conv_app_nth upd_conv_take_nth_drop)
  have live_rest: "live ?rest = ?rest"
    using rest(1) by (auto simp: live_def ent_ok_def intro!: filter_True)
  note ss = set_entry_shape [OF sh i] and st = update_loop_step [OF sh i mal e_def [symmetric] e(1) lt]
  have IH: "\<exists>self'. update_loop mal pn new_end (set_entry self i x) (Suc i) = Inr self' \<and> vm_shape self' \<and>
      nvalid self \<le> nvalid self' \<and>
      mset (live (ents self')) = mset (live ?pre @ live [x] @ concat (map (cut pn new_end) ?rest))" for x
    using Suc.hyps(1) [of "set_entry self i x" "Suc i"] Suc.hyps(2) ss i rest by (simp add: upd(1,2))
  have same: "set_entry self i e = self"
    using i sh by (simp add: set_entry_def e_def ents_def vm_shape_def full_iff list_update_same_conv)
  have beyond: "concat (map (cut pn new_end) ?rest) = ?rest" if "unat new_end < e_end e"
    using that rest(1) lt by (intro concat_cut_beyond) auto
  consider "e_start e < unat pn \<and> unat new_end < e_end e"
    | "e_start e < unat pn \<and> unat pn < e_end e \<and> e_end e \<le> unat new_end"
    | "unat pn \<le> e_start e \<and> e_start e < unat new_end \<and> unat new_end < e_end e"
    | "unat pn \<le> e_start e \<and> e_end e \<le> unat new_end"
    | "e_end e \<le> unat pn \<or> unat new_end \<le> e_start e" by linarith
  then show ?case
  proof cases
    case 1
    then obtain self' where self': "update_loop mal pn new_end self i = Inr self'" "vm_shape self'"
      "ents self' = (ents self)[i := left_part pn e] @ [right_part new_end e]" using st(1) by blast
    then have "nvalid self \<le> nvalid self'" using length_ents [of self'] length_ents [OF sh] by simp
    with 1 self' show ?thesis using e beyond lt by (auto simp: dr upd live_rest cut_def ent_ok_def)
  next
    case 2
    then show ?thesis using st(2) IH [of "left_part pn e"] e by (auto simp: dr cut_def)
  next
    case 3
    then show ?thesis using st(3) ss e beyond by (auto simp: dr upd live_rest cut_def)
  next
    case 4
    then show ?thesis using st(4) IH [of "e\<lparr>removed := True\<rparr>"] by (auto simp: dr cut_def)
  next
    case 5
    then show ?thesis using st(5) IH [of e] e lt by (auto simp: dr cut_def same ent_ok_def)
  qed
qed

lemma pages_first: "ents_ok (e # es) \<Longrightarrow> pages (e # es) (page_num e) \<noteq> None"
  by (auto simp: pages_def ents_ok_def ent_ok_def covers_def e_start_def)

lemma pages_append: "pages (xs @ ys) p = (case pages xs p of None \<Rightarrow> pages ys p | Some x \<Rightarrow> Some x)"
  by (induction xs) (auto simp: pages_def)

definition new_page :: "u64 \<Rightarrow> int \<Rightarrow> NaClMemObj option \<Rightarrow> u64 \<Rightarrow> int \<times> (nat \<times> u64) option" where
  "new_page pn pr nmo p =
     (pr, map_option (\<lambda>m. (ndp m, offset m + push_bit NACL_PAGESHIFT (p - pn))) nmo)"

lemma RemoveMarked_inv:
  assumes "vm_shape s" "live (ents s) \<noteq> []" "mset (live (ents s)) = mset es" "ents_ok es"
  obtains s' where "NaClVmmapRemoveMarked s = Inr s'" "vm_inv s'" "vm_pages s' = pages es"
proof -
  obtain s' where s': "NaClVmmapRemoveMarked s = Inr s'" "vm_shape s'" "mset (ents s') = mset es"
    "\<not> is_sorted s'" using RemoveMarked_spec [OF assms(1,2)] assms(3) by metis
  then show ?thesis
    using that [OF s'(1)] ents_ok_mset [OF s'(3)] pages_mset [OF assms(4) s'(3) [symmetric]] assms(4)
    by (simp add: vm_inv_def vm_pages_def)
qed

text \<open>The part of \<open>NaClVmmapUpdate\<close> before the new entry is added.\<close>

lemma update_cut:
  assumes inv: "vm_inv self" and mal: "\<forall>n. mal n" and np: "0 < unat np"
    and b: "unat pn + unat np \<le> 2 ^ 31"
  obtains s1 s2 es where "NaClVmmapMakeSorted self = Inr s1"
    "update_loop mal pn (pn + np) s1 0 = Inr s2" "vm_shape s2" "nvalid s2 = 0 \<longrightarrow> nvalid self = 0"
    "mset (live (ents s2)) = mset es" "ents_ok es"
    "\<forall>f \<in> set es. e_end f \<le> unat pn \<or> unat pn + unat np \<le> e_start f"
    "\<forall>p. pages es p = (if pn \<le> p \<and> p < pn + np then None else vm_pages self p)"
proof -
  have ue: "unat (pn + np) = unat pn + unat np" using b by (simp add: unat_plus_nowrap)
  have lt: "unat pn < unat (pn + np)" using ue np by simp
  obtain s1 where s1: "NaClVmmapMakeSorted self = Inr s1" "vm_inv s1" "is_sorted s1"
      "mset (ents s1) = mset (ents self)" using MakeSorted_spec [OF inv] by metis
  have ok: "ents_ok (ents self)" "ents_ok (ents s1)" "vm_shape s1" "vm_shape self"
    using inv s1(2) by (simp_all add: vm_inv_def)
  have "sorted_wrt (\<lambda>e f. e_end e \<le> e_start f) (ents s1)"
    using sorted_order ok(2) s1(2,3) by (simp add: vm_inv_def)
  with update_loop_spec [OF ok(3) _ mal lt, of 0] ok(2) obtain s2 where s2:
    "update_loop mal pn (pn + np) s1 0 = Inr s2" "vm_shape s2" "nvalid s1 \<le> nvalid s2"
    "mset (live (ents s2)) = mset (concat (map (cut pn (pn + np)) (ents s1)))"
    by (auto simp: ents_ok_def)
  have "nvalid self = nvalid s1" using s1(4) ok(3,4) by (metis length_ents size_mset)
  then have nz: "nvalid s2 = 0 \<longrightarrow> nvalid self = 0" using s2(3) by simp
  have pg: "pages (ents s1) = vm_pages self" using pages_mset [OF ok(2) s1(4)] by (simp add: vm_pages_def)
  show ?thesis
    by (rule that [OF s1(1) s2(1,2) nz s2(4) cuts_ok [OF ok(2) lt]])
      (use cuts_away [OF ok(2) lt] pages_cuts [OF ok(2) lt] pg ue in \<open>simp_all\<close>)
qed

lemma Update_map:
  assumes "vm_inv self" "\<forall>n. mal n" "0 < unat np" "unat pn + unat np \<le> 2 ^ 31"
  shows "\<exists>self'. NaClVmmapUpdate mal self pn np pr nmo False = Inr self' \<and> vm_inv self' \<and>
    (\<forall>p. vm_pages self' p = (if pn \<le> p \<and> p < pn + np then Some (new_page pn pr nmo p) else vm_pages self p))"
proof -
  have np0: "0 < np" using assms(3) by (metis unat_0 word_less_nat_alt)
  obtain s1 s2 es where u: "NaClVmmapMakeSorted self = Inr s1"
    "update_loop mal pn (pn + np) s1 0 = Inr s2" "vm_shape s2" "nvalid s2 = 0 \<longrightarrow> nvalid self = 0"
    "mset (live (ents s2)) = mset es" "ents_ok es"
    "\<forall>f \<in> set es. e_end f \<le> unat pn \<or> unat pn + unat np \<le> e_start f"
    "\<forall>p. pages es p = (if pn \<le> p \<and> p < pn + np then None else vm_pages self p)"
    by (rule update_cut [OF assms])
  let ?e = "\<lparr>page_num = pn, npages = np, prot = pr, nmop = nmo, removed = False\<rparr>"
  obtain s3 where a: "NaClVmmapAdd mal s2 pn np pr nmo = Inr (True, s3)" "vm_shape s3"
    "ents s3 = ents s2 @ [?e]" by (rule Add_spec [OF u(3) assms(2), of pn np pr nmo])
  have se: "e_start ?e = unat pn" "e_end ?e = unat pn + unat np" by (simp_all add: e_start_def e_end_def)
  have "ent_ok ?e" using assms(3,4) se by (simp add: ent_ok_def)
  then have ok: "ents_ok (es @ [?e])"
    by (intro ents_ok_append u(6)) (use u(7) se in \<open>auto simp: ents_ok_def apart_def\<close>)
  obtain s4 where r: "NaClVmmapRemoveMarked s3 = Inr s4" "vm_inv s4" "vm_pages s4 = pages (es @ [?e])"
    by (rule RemoveMarked_inv [OF a(2) _ _ ok]) (use a(3) u(5) in auto)
  have "covers ?e p \<longleftrightarrow> pn \<le> p \<and> p < pn + np" for p
    using assms(4) se by (simp add: covers_def word_le_nat_alt word_less_nat_alt unat_plus_nowrap)
  then have pe: "pages [?e] p = (if pn \<le> p \<and> p < pn + np then Some (new_page pn pr nmo p) else None)" for p
    by (simp add: pages_def page_of_def new_page_def)
  have "vm_pages s4 p = (if pn \<le> p \<and> p < pn + np then Some (new_page pn pr nmo p) else vm_pages self p)" for p
    unfolding r(3) pages_append u(8) [rule_format] pe by (auto split: option.split)
  moreover have "NaClVmmapUpdate mal self pn np pr nmo False = Inr s4"
    using u(1,2) a(1) r(1) np0 by (simp add: NaClVmmapUpdate_def)
  ultimately show ?thesis using r(2) by blast
qed

lemma Update_unmap:
  assumes "vm_inv self" "\<forall>n. mal n" "0 < unat np" "unat pn + unat np \<le> 2 ^ 31"
  shows "(\<exists>p. \<not> (pn \<le> p \<and> p < pn + np) \<and> vm_pages self p \<noteq> None) \<Longrightarrow>
      \<exists>self'. NaClVmmapUpdate mal self pn np pr nmo True = Inr self' \<and> vm_inv self' \<and>
        (\<forall>p. vm_pages self' p = (if pn \<le> p \<and> p < pn + np then None else vm_pages self p))"
    and "\<forall>p. vm_pages self p \<noteq> None \<longrightarrow> pn \<le> p \<and> p < pn + np \<Longrightarrow> nvalid self \<noteq> 0 \<Longrightarrow>
      NaClVmmapUpdate mal self pn np pr nmo True = Inl NullDeref"
proof -
  have np0: "0 < np" using assms(3) by (metis unat_0 word_less_nat_alt)
  obtain s1 s2 es where u: "NaClVmmapMakeSorted self = Inr s1"
    "update_loop mal pn (pn + np) s1 0 = Inr s2" "vm_shape s2" "nvalid s2 = 0 \<longrightarrow> nvalid self = 0"
    "mset (live (ents s2)) = mset es" "ents_ok es"
    "\<forall>f \<in> set es. e_end f \<le> unat pn \<or> unat pn + unat np \<le> e_start f"
    "\<forall>p. pages es p = (if pn \<le> p \<and> p < pn + np then None else vm_pages self p)"
    by (rule update_cut [OF assms])
  have eq: "NaClVmmapUpdate mal self pn np pr nmo True = NaClVmmapRemoveMarked s2"
    using u(1,2) np0 by (simp add: NaClVmmapUpdate_def)
  show "\<exists>self'. NaClVmmapUpdate mal self pn np pr nmo True = Inr self' \<and> vm_inv self' \<and>
        (\<forall>p. vm_pages self' p = (if pn \<le> p \<and> p < pn + np then None else vm_pages self p))"
    if "\<exists>p. \<not> (pn \<le> p \<and> p < pn + np) \<and> vm_pages self p \<noteq> None"
  proof -
    have "es \<noteq> []" using that u(8) by (auto simp: pages_def split: if_splits)
    then have "live (ents s2) \<noteq> []" using u(5) by auto
    from RemoveMarked_inv [OF u(3) this u(5,6)] show ?thesis using u(8) eq by metis
  qed
  show "NaClVmmapUpdate mal self pn np pr nmo True = Inl NullDeref"
    if "\<forall>p. vm_pages self p \<noteq> None \<longrightarrow> pn \<le> p \<and> p < pn + np" "nvalid self \<noteq> 0"
  proof -
    have "pages es p = None" for p using that(1) u(8) [rule_format, of p] by (metis (full_types))
    then have "es = []" using u(6) pages_first by (cases es) blast+
    then have "live (ents s2) = []" using u(5) by simp
    from RemoveMarked_all [OF u(3) _ this] show ?thesis using eq u(4) that(2) by auto
  qed
qed

end
