(* ===== verification/VmmapFind.thy ===== *)
theory VmmapFind
  imports VmmapPages
begin

text \<open>
  Looking up a page and searching for free space in the memory map, and the interface
  under which the rest of the runtime uses the map.
\<close>

section \<open>Looking up a page\<close>

lemma ContainCmp_eq:
  assumes "ent_ok e"
  shows "NaClVmmapContainCmpEntries p e =
           (if unat p < e_start e then - 1 else if unat p < e_end e then 0 else 1)"
  using unat_ends(3) [OF assms, of p] by (simp add: NaClVmmapContainCmpEntries_def word_less_nat_alt e_start_def
      unat_ent_end [OF assms])

lemma vmentry_ents: "vm_shape self \<Longrightarrow> i < nvalid self \<Longrightarrow> vmentry self ! i = Some (ents self ! i)"
  by (auto simp: vm_shape_def full_iff ents_def)

lemma ents_ok_nth: "ents_ok es \<Longrightarrow> i < length es \<Longrightarrow> ent_ok (es ! i)"
  by (simp add: ents_ok_def)

lemma find_page_ix_spec:
  assumes inv: "vm_inv self" and "is_sorted self"
  shows "\<exists>r. find_page_ix self p = Inr r \<and>
    (case r of None \<Rightarrow> \<forall>e \<in> set (ents self). \<not> covers e p
     | Some k \<Rightarrow> k < nvalid self \<and> vmentry self ! k = Some (ents self ! k) \<and> covers (ents self ! k) p)"
proof -
  let ?es = "ents self"
  have sh: "vm_shape self" and ok: "ents_ok ?es" and so: "sorted (map e_start ?es)"
    using assms by (simp_all add: vm_inv_def)
  have ord: "e_end (?es ! i) \<le> e_start (?es ! j)" if "i < j" "j < nvalid self" for i j
    using sorted_order [OF ok so] that sh by (simp add: sorted_wrt_iff_nth_less)
  have ent: "ent_ok (?es ! i)" "vmentry self ! i = Some (?es ! i)" if "i < nvalid self" for i
    using that ok sh ents_ok_nth vmentry_ents by auto
  define c where "c i = NaClVmmapContainCmpEntries p (?es ! i)" for i
  have c0: "c i = 0 \<longleftrightarrow> covers (?es ! i) p" if "i < nvalid self" for i
    using ContainCmp_eq [OF ent(1) [OF that], of p] by (auto simp: c_def covers_def)
  have mono: "c j < 0" if "i < j" "j < nvalid self" "c i \<le> 0" for i j
    using that ord [of i j] ContainCmp_eq [OF ent(1)] ent(1) [of i]
    by (auto simp: c_def ent_ok_def split: if_splits)
  have "\<exists>r. find_page_ix self p = Inr r \<and>
      (case r of None \<Rightarrow> \<forall>i. 0 \<le> i \<and> i < nvalid self \<longrightarrow> c i \<noteq> 0
               | Some k \<Rightarrow> 0 \<le> k \<and> k < nvalid self \<and> c k = 0)"
    unfolding find_page_ix_def bsearch_def
    by (rule bsearch_loop_spec) (use ent mono in \<open>auto simp: c_def\<close>)
  then show ?thesis
    using c0 ent(2) sh by (fastforce simp: in_set_conv_nth split: option.splits)
qed

lemma FindPage_spec:
  assumes inv: "vm_inv self"
  shows "\<exists>r self'. NaClVmmapFindPage self p = Inr (r, self') \<and> vm_inv self' \<and>
    vm_pages self' = vm_pages self \<and>
    (case r of None \<Rightarrow> vm_pages self p = None
     | Some e \<Rightarrow> e \<in> set (ents self) \<and> covers e p \<and> vm_pages self p = Some (page_of e p))"
proof -
  obtain s where s: "NaClVmmapMakeSorted self = Inr s" "vm_inv s" "is_sorted s"
    "mset (ents s) = mset (ents self)" using MakeSorted_spec [OF inv] by metis
  have ok: "ents_ok (ents s)" "vm_shape s" using s(2) by (simp_all add: vm_inv_def)
  have pg: "vm_pages s = vm_pages self" using pages_mset [OF ok(1) s(4)] by (simp add: vm_pages_def)
  have set: "set (ents s) = set (ents self)" using s(4) mset_eq_setD by blast
  obtain r where r: "find_page_ix s p = Inr r"
    "case r of None \<Rightarrow> \<forall>e \<in> set (ents s). \<not> covers e p
     | Some k \<Rightarrow> k < nvalid s \<and> vmentry s ! k = Some (ents s ! k) \<and> covers (ents s ! k) p"
    using find_page_ix_spec [OF s(2,3)] by blast
  show ?thesis
  proof (cases r)
    case None
    with r(2) have "vm_pages s p = None" by (simp add: vm_pages_def pages_def find_None_iff)
    with None s(1,2) r(1) pg show ?thesis by (simp add: NaClVmmapFindPage_def)
  next
    case (Some k)
    with r(2) have k: "vmentry s ! k = Some (ents s ! k)" "covers (ents s ! k) p"
      "ents s ! k \<in> set (ents s)" using ok(2) by simp_all
    then have "vm_pages s p = Some (page_of (ents s ! k) p)"
      using pages_eq_Some [OF ok(1)] by (auto simp: vm_pages_def)
    with Some s(1,2) r(1) pg k set show ?thesis by (simp add: NaClVmmapFindPage_def)
  qed
qed

section \<open>Searching for free space\<close>

text \<open>
  \<open>gap\<close> are the pages between consecutive entries of a sorted map. The downward loop
  returns what its body says about the highest gap for which it says something.
\<close>

lemma down_loop_spec:
  assumes "vm_shape self" "k < nvalid self"
  shows "\<exists>r. down_loop chk (vmentry self) k = Inr r \<and>
    ((\<exists>j < k. chk (page_num (ents self ! j) + npages (ents self ! j)) (page_num (ents self ! Suc j)) = Some r) \<or>
     r = 0 \<and> (\<forall>j < k. chk (page_num (ents self ! j) + npages (ents self ! j)) (page_num (ents self ! Suc j)) = None))"
  using assms(2)
proof (induction k)
  case (Suc k)
  then obtain r where r: "down_loop chk (vmentry self) k = Inr r"
    "(\<exists>j < k. chk (page_num (ents self ! j) + npages (ents self ! j)) (page_num (ents self ! Suc j)) = Some r) \<or>
     r = 0 \<and> (\<forall>j < k. chk (page_num (ents self ! j) + npages (ents self ! j)) (page_num (ents self ! Suc j)) = None)"
    by auto
  have d: "deref (vmentry self) k = Inr (ents self ! k)" "deref (vmentry self) (Suc k) = Inr (ents self ! Suc k)"
    using deref_ents [OF assms(1)] Suc.prems by simp_all
  show ?case
  proof (cases "chk (page_num (ents self ! k) + npages (ents self ! k)) (page_num (ents self ! Suc k))")
    case None
    then show ?thesis using r d by (auto simp: less_Suc_eq)
  next
    case (Some x)
    then show ?thesis using d by auto
  qed
qed simp

lemma gap_free:
  assumes ok: "ents_ok es" and so: "sorted (map e_start es)" and j: "Suc j < length es"
    and p: "e_end (es ! j) \<le> unat p" "unat p < e_start (es ! Suc j)"
  shows "pages es p = None"
proof -
  note ord = sorted_order [OF ok so, unfolded sorted_wrt_iff_nth_less, rule_format]
  have ne: "e_start (es ! i) < e_end (es ! i)" if "i < length es" for i
    using ok that by (simp add: ents_ok_def ent_ok_def)
  have "\<not> covers (es ! i) p" if i: "i < length es" for i
  proof (cases "i \<le> j")
    case True
    then have "e_end (es ! i) \<le> e_end (es ! j)"
      using ord [of i j] ne [of j] j by (cases "i = j") auto
    then show ?thesis using p(1) by (simp add: covers_def)
  next
    case False
    then have "e_start (es ! Suc j) \<le> e_start (es ! i)"
      using ord [of "Suc j" i] ne [of "Suc j"] i j by (cases "i = Suc j") auto
    then show ?thesis using p(2) by (simp add: covers_def)
  qed
  then show ?thesis by (auto simp: pages_def find_None_iff in_set_conv_nth)
qed

text \<open>A run of free pages with an entry below it and one above lies in one of the gaps.\<close>

lemma free_run_gap:
  assumes ok: "ents_ok es" and so: "sorted (map e_start es)" and n: "0 < n"
    and e: "e \<in> set es" "e_end e \<le> q" and f: "f \<in> set es" "q + n \<le> e_start f"
    and free: "\<And>p. q \<le> unat p \<Longrightarrow> unat p < q + n \<Longrightarrow> pages es p = None"
  obtains j where "Suc j < length es" "e_end (es ! j) \<le> q" "q + n \<le> e_start (es ! Suc j)"
proof -
  note ord = sorted_order [OF ok so, unfolded sorted_wrt_iff_nth_less, rule_format]
  have ne: "e_start (es ! i) < e_end (es ! i)" "e_end (es ! i) \<le> 2 ^ 31" if "i < length es" for i
    using ents_ok_nth [OF ok that] by (simp_all add: ent_ok_def)
  obtain b where b: "b < length es" "q + n \<le> e_start (es ! b)" using f by (auto simp: in_set_conv_nth)
  have ex: "\<exists>i. i < length es \<and> e_end (es ! i) \<le> q" using e by (auto simp: in_set_conv_nth)
  define j where "j = (GREATEST i. i < length es \<and> e_end (es ! i) \<le> q)"
  have j: "j < length es" "e_end (es ! j) \<le> q"
    unfolding j_def using GreatestI_ex_nat [OF ex, of "length es"] by auto
  have max: "i \<le> j" if "i < length es" "e_end (es ! i) \<le> q" for i
    unfolding j_def by (rule Greatest_le_nat [of _ _ "length es"]) (use that in auto)
  have "j < b" using ord [of b j] ne [of b] ne [of j] b j by (cases b j rule: linorder_cases) auto
  then have sj: "Suc j < length es" using b by simp
  have q1: "q < e_end (es ! Suc j)" using max [OF sj] by force
  have "pages es p \<noteq> None" if "covers (es ! Suc j) p" for p
    using pages_eq_Some [OF ok] that nth_mem [OF sj] by blast
  then have nc: "\<not> covers (es ! Suc j) p" if "q \<le> unat p" "unat p < q + n" for p
    using free that by blast
  have "\<not> e_start (es ! Suc j) \<le> q"
    using nc [of "of_nat q"] q1 ne [OF sj] n by (auto simp: covers_def unat_of_nat)
  moreover have "\<not> (q < e_start (es ! Suc j) \<and> e_start (es ! Suc j) < q + n)"
    using nc [of "page_num (es ! Suc j)"] ne(1) [OF sj] by (auto simp: covers_def e_start_def)
  ultimately show ?thesis using that [OF sj j(2)] by linarith
qed

lemma unat_round_small:
  assumes "unat x \<le> 2 ^ 31"
  shows "unat (NaClRoundPageNumUpToMapMultiple x) = round_up 4 (unat x)"
  using mapm.unat_rnd [of x] assms by simp

text \<open>The body of the loop of \<open>NaClVmmapFindMapSpace\<close>, and what it computes on a gap.\<close>

definition map_chk :: "u64 \<Rightarrow> u64 \<Rightarrow> u64 \<Rightarrow> u64 option" where
  "map_chk num end0 start0 =
     (let end_page = NaClRoundPageNumUpToMapMultiple end0;
          start_page = NaClTruncPageNumDownToMapMultiple start0 in
      if start_page \<le> end_page then None
      else if num \<le> start_page - end_page then Some (start_page - num) else None)"

abbreviation map_chk_at :: "u64 \<Rightarrow> NaClVmmapEntry list \<Rightarrow> nat \<Rightarrow> u64 option" where
  "map_chk_at num es j \<equiv> map_chk num (page_num (es ! j) + npages (es ! j)) (page_num (es ! Suc j))"

lemma map_chk_eq:
  fixes end0 start0 num :: u64
  defines "E \<equiv> round_up 4 (unat end0)" and "S \<equiv> round_down 4 (unat start0)"
  assumes "unat end0 \<le> 2 ^ 31"
  shows "map_chk num end0 start0 =
         (if E < S \<and> E + unat num \<le> S
          then Some (NaClTruncPageNumDownToMapMultiple start0 - num) else None)"
proof -
  let ?e = "NaClRoundPageNumUpToMapMultiple end0" and ?s = "NaClTruncPageNumDownToMapMultiple start0"
  have u: "unat ?e = E" "unat ?s = S"
    using unat_round_small [OF assms(3)] mapm.unat_trunc by (simp_all add: E_def S_def)
  have "unat (?s - ?e) = S - E" if "E < S"
    using that u by (simp add: unat_sub word_le_nat_alt)
  then show ?thesis using u by (auto simp: map_chk_def Let_def word_le_nat_alt)
qed

lemma map_chk_at_eq:
  assumes "ents_ok es" "Suc j < length es"
  shows "map_chk_at num es j =
      (if round_up 4 (e_end (es ! j)) < round_down 4 (e_start (es ! Suc j)) \<and>
          round_up 4 (e_end (es ! j)) + unat num \<le> round_down 4 (e_start (es ! Suc j))
       then Some (NaClTruncPageNumDownToMapMultiple (page_num (es ! Suc j)) - num) else None)"
proof -
  have "ent_ok (es ! j)" "ent_ok (es ! Suc j)" using ents_ok_nth [OF assms(1)] assms(2) by simp_all
  then show ?thesis
    by (subst map_chk_eq) (simp_all add: unat_ent_end ent_ok_def e_start_def)
qed

lemma map_gap_found:
  fixes num :: u64
  assumes ok: "ents_ok es" and so: "sorted (map e_start es)" and j: "Suc j < length es"
    and n16: "16 dvd unat num" and some: "map_chk_at num es j = Some r"
  shows "r \<noteq> 0 \<and> 16 dvd unat r \<and> unat r + unat num \<le> 2 ^ 31 \<and>
    (\<forall>p. unat r \<le> unat p \<and> unat p < unat r + unat num \<longrightarrow> pages es p = None)"
proof -
  have n: "16 dvd unat num" "round_up 4 (e_end (es ! j)) + unat num \<le> round_down 4 (e_start (es ! Suc j))"
    and r: "r = NaClTruncPageNumDownToMapMultiple (page_num (es ! Suc j)) - num"
    using n16 some unfolding map_chk_at_eq [OF ok j] by (simp_all split: if_splits)
  let ?S = "round_down 4 (e_start (es ! Suc j))"
  have ne: "e_start (es ! j) < e_end (es ! j)" "e_start (es ! Suc j) \<le> 2 ^ 31"
    using ents_ok_nth [OF ok, of j] ents_ok_nth [OF ok j] j by (simp_all add: ent_ok_def)
  have t: "unat (NaClTruncPageNumDownToMapMultiple (page_num (es ! Suc j))) = ?S"
    by (simp add: mapm.unat_trunc e_start_def)
  then have ur: "unat r = ?S - unat num" using n(2) by (simp add: r unat_sub word_le_nat_alt)
  have lo: "e_end (es ! j) \<le> unat r" using ur n(2) round_up_ge [of "e_end (es ! j)" 4] by linarith
  have hi: "unat r + unat num \<le> e_start (es ! Suc j)"
    using ur n(2) round_down_le [of 4 "e_start (es ! Suc j)"] by linarith
  have "16 dvd unat r" using ur n(1) round_down_dvd [of 4 "e_start (es ! Suc j)"] by (simp add: dvd_diff_nat)
  moreover have "r \<noteq> 0" using lo ne(1) by auto
  moreover have "pages es p = None" if "unat r \<le> unat p" "unat p < unat r + unat num" for p
    using gap_free [OF ok so j, of p] that lo hi by simp
  ultimately show ?thesis using hi ne(2) by simp
qed

lemma map_gap_none:
  fixes num :: u64
  assumes ok: "ents_ok es" and so: "sorted (map e_start es)" and n: "16 dvd unat num" "0 < unat num"
    and none: "\<And>j. Suc j < length es \<Longrightarrow> map_chk_at num es j = None"
    and q: "16 dvd q" "e \<in> set es" "e_end e \<le> q" "f \<in> set es" "q + unat num \<le> e_start f"
  shows "\<exists>p. q \<le> unat p \<and> unat p < q + unat num \<and> pages es p \<noteq> None"
proof (rule ccontr)
  assume "\<not> ?thesis"
  then have free: "pages es p = None" if "q \<le> unat p" "unat p < q + unat num" for p
    using that by blast
  from free_run_gap [OF ok so n(2) q(2-5) free] obtain j where
    j: "Suc j < length es" "e_end (es ! j) \<le> q" "q + unat num \<le> e_start (es ! Suc j)" by blast
  have "round_up 4 (e_end (es ! j)) \<le> q" using round_up_least [of 4 q] q(1) j(2) by simp
  moreover have "q + unat num \<le> round_down 4 (e_start (es ! Suc j))"
    using round_down_greatest [of 4 "q + unat num"] q(1) n(1) j(3) by simp
  ultimately have "map_chk_at num es j \<noteq> None"
    using n(2) unfolding map_chk_at_eq [OF ok j(1)] by simp
  then show False using none [OF j(1)] by blast
qed

lemma FindMapSpace_spec:
  assumes inv: "vm_inv self" and np: "unat np \<le> 2 ^ 31"
  defines "n \<equiv> round_up 4 (unat np)"
  shows "\<exists>r self'. NaClVmmapFindMapSpace self np = Inr (r, self') \<and> vm_inv self' \<and>
    vm_pages self' = vm_pages self \<and>
    (r \<noteq> 0 \<longrightarrow> 16 dvd unat r \<and> unat r + n \<le> 2 ^ 31 \<and>
       (\<forall>p. unat r \<le> unat p \<and> unat p < unat r + n \<longrightarrow> vm_pages self p = None)) \<and>
    (r = 0 \<longrightarrow> 0 < n \<longrightarrow> (\<forall>q. \<forall>e \<in> set (ents self). \<forall>f \<in> set (ents self).
       16 dvd q \<and> e_end e \<le> q \<and> q + n \<le> e_start f \<longrightarrow>
       (\<exists>p. q \<le> unat p \<and> unat p < q + n \<and> vm_pages self p \<noteq> None)))"
proof (cases "nvalid self = 0")
  case True
  then have "ents self = []" by (simp add: ents_def)
  then show ?thesis using True inv by (simp add: NaClVmmapFindMapSpace_def)
next
  case False
  obtain s where s: "NaClVmmapMakeSorted self = Inr s" "vm_inv s" "is_sorted s"
    "mset (ents s) = mset (ents self)" using MakeSorted_spec [OF inv] by metis
  have ok: "ents_ok (ents s)" "sorted (map e_start (ents s))" "vm_shape s" "vm_shape self"
    using s(2,3) inv by (simp_all add: vm_inv_def)
  have pg: "vm_pages self = pages (ents s)" using pages_mset [OF ok(1) s(4)] by (simp add: vm_pages_def)
  have set: "set (ents self) = set (ents s)" using s(4) mset_eq_setD by metis
  have nv: "nvalid s = nvalid self" using s(4) ok(3,4) by (metis length_ents size_mset)
  let ?num = "NaClRoundPageNumUpToMapMultiple np"
  have un: "unat ?num = n" using unat_round_small [OF np] by (simp add: n_def)
  have n16: "16 dvd unat ?num" using round_up_dvd [of 4 "unat np"] un by (simp add: n_def)
  obtain r where d: "down_loop (map_chk ?num) (vmentry s) (nvalid s - 1) = Inr r"
    "(\<exists>j < nvalid s - 1. map_chk_at ?num (ents s) j = Some r) \<or>
     r = 0 \<and> (\<forall>j < nvalid s - 1. map_chk_at ?num (ents s) j = None)"
    using down_loop_spec [OF ok(3), of "nvalid s - 1" "map_chk ?num"] False nv by auto
  have eq: "NaClVmmapFindMapSpace self np = Inr (r, s)"
    using False s(1) d(1) by (simp add: NaClVmmapFindMapSpace_def map_chk_def [abs_def])
  have lt: "j < nvalid s - 1 \<longleftrightarrow> Suc j < length (ents s)" for j using ok(3) by auto
  consider (found) j where "Suc j < length (ents s)" "map_chk_at ?num (ents s) j = Some r"
    | (none) "r = 0" "\<And>j. Suc j < length (ents s) \<Longrightarrow> map_chk_at ?num (ents s) j = None"
    using d(2) unfolding lt by blast
  then show ?thesis
  proof cases
    case found
    then show ?thesis using map_gap_found [OF ok(1,2) found(1) n16 found(2)] eq s(2) pg un
      by (simp add: vm_pages_def)
  next
    case none
    then show ?thesis using map_gap_none [OF ok(1,2) n16 _ none(2)] eq s(2) pg un set
      by (simp add: vm_pages_def)
  qed
qed

text \<open>The upward search from a hint, with the page numbers it compares.\<close>

definition above_hit :: "u64 \<Rightarrow> u64 \<Rightarrow> NaClVmmapEntry list \<Rightarrow> nat \<Rightarrow> u64 \<Rightarrow> bool" where
  "above_hit usr num es j r \<longleftrightarrow>
     unat usr \<le> unat r \<and> round_up 4 (e_end (es ! j)) \<le> unat r \<and>
     unat r + unat num \<le> round_down 4 (e_start (es ! Suc j)) \<and>
     (r = usr \<or> unat r = round_up 4 (e_end (es ! j)))"

lemma above_loop_spec:
  assumes ok: "ents_ok (ents self)" and sh: "vm_shape self" and i: "0 < i"
  shows "\<exists>r. above_loop usr num self i = Inr r \<and>
    (r = 0 \<or> (\<exists>j. Suc j < nvalid self \<and> above_hit usr num (ents self) j r))"
  using i
proof (induction "nvalid self - i" arbitrary: i)
  case 0
  then show ?case by (subst above_loop.simps) simp
next
  case (Suc k)
  then obtain j where j: "i = Suc j" "Suc j < nvalid self" by (cases i) auto
  let ?e = "ents self ! j" and ?f = "ents self ! Suc j"
  let ?E = "NaClRoundPageNumUpToMapMultiple (page_num ?e + npages ?e)"
  let ?S = "NaClTruncPageNumDownToMapMultiple (page_num ?f)"
  have eo: "ent_ok ?e" "ent_ok ?f" using ents_ok_nth [OF ok] j(2) sh by simp_all
  then have u: "unat ?E = round_up 4 (e_end ?e)" "unat ?S = round_down 4 (e_start ?f)"
    using unat_round_small [of "page_num ?e + npages ?e"] mapm.unat_trunc
    by (simp_all add: unat_ent_end ent_ok_def e_start_def)
  have IH: "\<exists>r. above_loop usr num self (i + 1) = Inr r \<and>
      (r = 0 \<or> (\<exists>j. Suc j < nvalid self \<and> above_hit usr num (ents self) j r))"
    using Suc.hyps(1) [of "i + 1"] Suc.hyps(2) by simp
  define m where "m = (if ?E \<le> usr \<and> usr < ?S then usr else ?E)"
  have step: "above_loop usr num self i =
      (if \<not> ?S \<le> ?E \<and> usr \<le> m \<and> num \<le> ?S - m then Inr m else above_loop usr num self (i + 1))"
    using j deref_ents [OF sh] by (subst above_loop.simps) (auto simp: Let_def m_def)
  have "above_hit usr num (ents self) j m" if "\<not> ?S \<le> ?E" "usr \<le> m" "num \<le> ?S - m"
  proof -
    have "m \<le> ?S" "?E \<le> m" using that(1) by (auto simp: m_def)
    then have "unat m \<le> unat ?S" "unat ?E \<le> unat m" "unat (?S - m) = unat ?S - unat m"
      by (simp_all add: word_le_nat_alt unat_sub)
    then show ?thesis using that(2,3) u by (auto simp: above_hit_def word_le_nat_alt m_def)
  qed
  then show ?case using step IH j(2) by auto
qed

lemma FindMapSpaceAboveHint_spec:
  assumes inv: "vm_inv self" and np: "unat np \<le> 2 ^ 31"
  defines "n \<equiv> round_up 4 (unat np)"
  shows "\<exists>r self'. NaClVmmapFindMapSpaceAboveHint self uaddr np = Inr (r, self') \<and> vm_inv self' \<and>
    vm_pages self' = vm_pages self \<and>
    (r \<noteq> 0 \<longrightarrow> unat uaddr div 2 ^ 12 \<le> unat r \<and> (2 ^ 16 dvd unat uaddr \<longrightarrow> 16 dvd unat r) \<and>
       unat r + n \<le> 2 ^ 31 \<and>
       (\<forall>p. unat r \<le> unat p \<and> unat p < unat r + n \<longrightarrow> vm_pages self p = None))"
proof -
  obtain s where s: "NaClVmmapMakeSorted self = Inr s" "vm_inv s" "is_sorted s"
    "mset (ents s) = mset (ents self)" using MakeSorted_spec [OF inv] by metis
  have ok: "ents_ok (ents s)" "sorted (map e_start (ents s))" "vm_shape s"
    using s(2,3) by (simp_all add: vm_inv_def)
  have pg: "vm_pages self = pages (ents s)" using pages_mset [OF ok(1) s(4)] by (simp add: vm_pages_def)
  let ?num = "NaClRoundPageNumUpToMapMultiple np" and ?u = "drop_bit NACL_PAGESHIFT uaddr"
  have un: "unat ?num = n" "unat ?u = unat uaddr div 2 ^ 12"
    using unat_round_small [OF np] by (simp_all add: n_def NACL_PAGESHIFT_def)
  obtain r where r: "above_loop ?u ?num s 1 = Inr r"
    "r = 0 \<or> (\<exists>j. Suc j < nvalid s \<and> above_hit ?u ?num (ents s) j r)"
    using above_loop_spec [OF ok(1,3), of 1 ?u ?num] by auto
  have eq: "NaClVmmapFindMapSpaceAboveHint self uaddr np = Inr (r, s)"
    using s(1) r(1) by (simp add: NaClVmmapFindMapSpaceAboveHint_def)
  have hit: "unat uaddr div 2 ^ 12 \<le> unat r \<and> (2 ^ 16 dvd unat uaddr \<longrightarrow> 16 dvd unat r) \<and>
      unat r + n \<le> 2 ^ 31 \<and> (\<forall>p. unat r \<le> unat p \<and> unat p < unat r + n \<longrightarrow> vm_pages self p = None)"
    if j: "Suc j < nvalid s" and h: "above_hit ?u ?num (ents s) j r" for j
  proof -
    have h': "unat uaddr div 2 ^ 12 \<le> unat r" "e_end (ents s ! j) \<le> unat r"
      "unat r + n \<le> e_start (ents s ! Suc j)"
      "unat r = unat uaddr div 2 ^ 12 \<or> unat r = round_up 4 (e_end (ents s ! j))"
      using h un round_up_ge [of "e_end (ents s ! j)" 4] round_down_le [of 4 "e_start (ents s ! Suc j)"]
      by (auto simp: above_hit_def)
    have "ent_ok (ents s ! Suc j)" using ents_ok_nth [OF ok(1)] j ok(3) by simp
    then have "unat r + n \<le> 2 ^ 31" using h'(3) by (simp add: ent_ok_def)
    moreover have "2 ^ 16 dvd unat uaddr \<longrightarrow> 16 dvd unat r"
      using h'(4) round_up_dvd [of 4 "e_end (ents s ! j)"] by (auto elim!: dvdE)
    moreover have "\<forall>p. unat r \<le> unat p \<and> unat p < unat r + n \<longrightarrow> vm_pages self p = None"
      unfolding pg using gap_free [OF ok(1,2), of j] j ok(3) h'(2,3) by simp
    ultimately show ?thesis using h'(1) by blast
  qed
  then show ?thesis using eq r(2) s(2) pg by (auto simp: vm_pages_def)
qed

section \<open>The address-map interface\<close>

text \<open>
  What the system calls rely on: mapping and unmapping a range of pages changes exactly
  the pages of the range, and looking a page up finds what is mapped there.
\<close>

locale address_map =
  fixes invar :: "'m \<Rightarrow> bool"
    and content :: "'m \<Rightarrow> u64 \<Rightarrow> 'v option"
    and value_of :: "u64 \<Rightarrow> 'p \<Rightarrow> 'o \<Rightarrow> u64 \<Rightarrow> 'v"
    and update :: "'m \<Rightarrow> u64 \<Rightarrow> u64 \<Rightarrow> 'p \<Rightarrow> 'o \<Rightarrow> bool \<Rightarrow> 'm result"
    and look :: "'m \<Rightarrow> u64 \<Rightarrow> ('e option \<times> 'm) result"
    and value_at :: "'e \<Rightarrow> u64 \<Rightarrow> 'v"
  assumes map_law: "invar m \<Longrightarrow> 0 < unat np \<Longrightarrow> unat pn + unat np \<le> 2 ^ 31 \<Longrightarrow>
      \<exists>m'. update m pn np pr nmo False = Inr m' \<and> invar m' \<and>
        (\<forall>p. content m' p = (if pn \<le> p \<and> p < pn + np then Some (value_of pn pr nmo p) else content m p))"
    and unmap_law: "invar m \<Longrightarrow> 0 < unat np \<Longrightarrow> unat pn + unat np \<le> 2 ^ 31 \<Longrightarrow>
      \<exists>p. \<not> (pn \<le> p \<and> p < pn + np) \<and> content m p \<noteq> None \<Longrightarrow>
      \<exists>m'. update m pn np pr nmo True = Inr m' \<and> invar m' \<and>
        (\<forall>p. content m' p = (if pn \<le> p \<and> p < pn + np then None else content m p))"
    and look_law: "invar m \<Longrightarrow> \<exists>r m'. look m p = Inr (r, m') \<and> invar m' \<and> content m' = content m \<and>
        map_option (\<lambda>e. value_at e p) r = content m p"
begin

lemma look_after_map:
  assumes "invar m" "0 < unat np" "unat pn + unat np \<le> 2 ^ 31" "pn \<le> p" "p < pn + np"
  obtains m1 e m2 where "update m pn np pr nmo False = Inr m1" "look m1 p = Inr (Some e, m2)"
    "invar m2" "value_at e p = value_of pn pr nmo p"
proof -
  from map_law [OF assms(1-3)] obtain m1 where m1: "update m pn np pr nmo False = Inr m1" "invar m1"
    "\<forall>q. content m1 q = (if pn \<le> q \<and> q < pn + np then Some (value_of pn pr nmo q) else content m q)"
    by blast
  from look_law [OF m1(2), of p] obtain r m2 where
    "look m1 p = Inr (r, m2)" "invar m2" "map_option (\<lambda>e. value_at e p) r = content m1 p" by blast
  with m1 assms(4,5) show ?thesis by (cases r) (auto intro: that)
qed

text \<open>Unmapping takes back exactly what a mapping of unused pages added.\<close>

lemma unmap_after_map:
  assumes "invar m" "0 < unat np" "unat pn + unat np \<le> 2 ^ 31"
    and free: "\<forall>p. pn \<le> p \<and> p < pn + np \<longrightarrow> content m p = None" and other: "\<exists>p. content m p \<noteq> None"
  obtains m1 m2 where "update m pn np pr nmo False = Inr m1" "update m1 pn np pr' nmo' True = Inr m2"
    "invar m2" "content m2 = content m"
proof -
  from map_law [OF assms(1-3)] obtain m1 where m1: "update m pn np pr nmo False = Inr m1" "invar m1"
    "\<forall>q. content m1 q = (if pn \<le> q \<and> q < pn + np then Some (value_of pn pr nmo q) else content m q)"
    by blast
  have "\<exists>p. \<not> (pn \<le> p \<and> p < pn + np) \<and> content m1 p \<noteq> None" using m1(3) free other by metis
  from unmap_law [OF m1(2) assms(2,3) this] obtain m2 where m2: "update m1 pn np pr' nmo' True = Inr m2"
    "invar m2" "\<forall>p. content m2 p = (if pn \<le> p \<and> p < pn + np then None else content m1 p)" by blast
  have "content m2 = content m" using m1(3) m2(3) free by (auto simp: fun_eq_iff)
  then show ?thesis using that m1(1) m2(1,2) by blast
qed

end

lemma FindPage_look:
  assumes "vm_inv m"
  shows "\<exists>r m'. NaClVmmapFindPage m p = Inr (r, m') \<and> vm_inv m' \<and> vm_pages m' = vm_pages m \<and>
      map_option (\<lambda>e. page_of e p) r = vm_pages m p"
proof -
  obtain r m' where "NaClVmmapFindPage m p = Inr (r, m')" "vm_inv m'" "vm_pages m' = vm_pages m"
    "case r of None \<Rightarrow> vm_pages m p = None
     | Some e \<Rightarrow> e \<in> set (ents m) \<and> covers e p \<and> vm_pages m p = Some (page_of e p)"
    using FindPage_spec [OF assms, of p] by blast
  then show ?thesis by (cases r) auto
qed

interpretation vm: address_map vm_inv vm_pages new_page "NaClVmmapUpdate (\<lambda>_. True)" NaClVmmapFindPage page_of
  by unfold_locales (use Update_map Update_unmap(1) FindPage_look in \<open>simp_all\<close>)

section \<open>Properties of the memory map\<close>

text \<open>A map with two entries and a hole between them, for the witnesses.\<close>

definition vm_example :: NaClVmmap where
  "vm_example = \<lparr>vmentry =
     [Some \<lparr>page_num = 256, npages = 16, prot = 3, nmop = Some \<lparr>ndp = 7, nbytes = 65536, offset = 0\<rparr>, removed = False\<rparr>,
      Some \<lparr>page_num = 16, npages = 16, prot = 5, nmop = None, removed = False\<rparr>, None, None, None],
     nvalid = 2, vm_size = 5, is_sorted = False\<rparr>"

lemma vm_example_ents:
  "ents vm_example =
     [\<lparr>page_num = 256, npages = 16, prot = 3, nmop = Some \<lparr>ndp = 7, nbytes = 65536, offset = 0\<rparr>, removed = False\<rparr>,
      \<lparr>page_num = 16, npages = 16, prot = 5, nmop = None, removed = False\<rparr>]"
  by (simp add: ents_def vm_example_def slots_def)

lemma vm_example_inv: "vm_inv vm_example"
  using vm_example_ents
  by (simp add: vm_inv_def vm_shape_def ents_ok_def ent_ok_def apart_def e_start_def e_end_def full_def)
     (simp add: vm_example_def)

text \<open>
  C5. Mapping a range of pages: from a map that satisfies the invariant, \<open>NaClVmmapUpdate\<close>
  returns a map that satisfies it, in which every page of the range has the new
  protection and backing and every other page what it had, also when entries are
  split or trimmed and their file offsets move.
\<close>

theorem NaClVmmapUpdate_maps:
  assumes "vm_inv self" "\<forall>n. mal n" "0 < unat np" "unat pn + unat np \<le> 2 ^ 31"
  shows "\<exists>self'. NaClVmmapUpdate mal self pn np pr nmo False = Inr self' \<and> vm_inv self' \<and>
    (\<forall>p. vm_pages self' p = (if pn \<le> p \<and> p < pn + np then Some (new_page pn pr nmo p) else vm_pages self p))"
  using assms by (rule Update_map)

theorem NaClVmmapUpdate_maps_witness:
  "\<exists>self'. NaClVmmapUpdate (\<lambda>_. True) vm_example 260 2 1 None False = Inr self' \<and> vm_inv self' \<and>
    vm_pages self' 261 = Some (1, None) \<and> vm_pages self' 263 = Some (3, Some (7, 28672))"
proof -
  have "vm_pages vm_example 263 = Some (3, Some (7, 28672))"
    by (simp add: vm_pages_def vm_example_ents pages_def covers_def page_of_def e_start_def e_end_def NACL_PAGESHIFT_def)
  then show ?thesis
    using NaClVmmapUpdate_maps [of vm_example "\<lambda>_. True" 2 260 1 None] vm_example_inv
    by (auto simp: new_page_def)
qed

text \<open>
  C6. Unmapping a range: when some page outside the range is mapped, \<open>NaClVmmapUpdate\<close>
  with \<open>remove\<close> returns a map that satisfies the invariant, in which the pages of the
  range are unmapped and the others unchanged.
\<close>

theorem NaClVmmapUpdate_unmaps:
  assumes "vm_inv self" "\<forall>n. mal n" "0 < unat np" "unat pn + unat np \<le> 2 ^ 31"
    and "\<exists>p. \<not> (pn \<le> p \<and> p < pn + np) \<and> vm_pages self p \<noteq> None"
  shows "\<exists>self'. NaClVmmapUpdate mal self pn np pr nmo True = Inr self' \<and> vm_inv self' \<and>
    (\<forall>p. vm_pages self' p = (if pn \<le> p \<and> p < pn + np then None else vm_pages self p))"
  using assms by (rule Update_unmap(1))

theorem NaClVmmapUpdate_unmaps_witness:
  "\<exists>self'. NaClVmmapUpdate (\<lambda>_. True) vm_example 260 2 0 None True = Inr self' \<and> vm_inv self' \<and>
    vm_pages self' 260 = None \<and> vm_pages self' 20 = Some (5, None)"
proof -
  have "vm_pages vm_example 20 = Some (5, None)"
    by (simp add: vm_pages_def vm_example_ents pages_def covers_def page_of_def e_start_def e_end_def)
  then show ?thesis
    using NaClVmmapUpdate_unmaps [of vm_example "\<lambda>_. True" 2 260 0 None] vm_example_inv
    by (force intro: exI [of _ "20 :: u64"])
qed

text \<open>
  C11. Unmapping everything that is mapped does not reach the \<open>LOG_FATAL\<close> that
  \<open>NaClVmmapRemoveMarked\<close> has for an empty map: its first loop has already set slot 0 to
  NULL, which the test then dereferences.
\<close>

theorem NaClVmmapUpdate_last_unmap:
  assumes "vm_inv self" "\<forall>n. mal n" "0 < unat np" "unat pn + unat np \<le> 2 ^ 31" "nvalid self \<noteq> 0"
    and "\<forall>p. vm_pages self p \<noteq> None \<longrightarrow> pn \<le> p \<and> p < pn + np"
  shows "NaClVmmapUpdate mal self pn np pr nmo True = Inl NullDeref"
  using Update_unmap(2) [OF assms(1-4,6,5)] .

theorem NaClVmmapUpdate_last_unmap_witness:
  "NaClVmmapUpdate (\<lambda>_. True) vm_example 0 512 0 None True = Inl NullDeref"
proof (rule NaClVmmapUpdate_last_unmap [OF vm_example_inv])
  have "pages (ents vm_example) p \<noteq> None \<longrightarrow> unat p < 512" for p
    by (auto simp: vm_example_ents pages_def covers_def e_start_def e_end_def)
  then show "\<forall>p. vm_pages vm_example p \<noteq> None \<longrightarrow> 0 \<le> p \<and> p < 0 + 512"
    by (auto simp: vm_pages_def word_less_nat_alt)
qed (simp_all add: vm_example_def)

text \<open>
  C7. \<open>NaClVmmapFindPage\<close> (sorting if needed and searching by halves) returns the entry
  that contains the page, or NULL exactly when the page is not mapped, and changes
  nothing that is mapped.
\<close>

theorem NaClVmmapFindPage_correct:
  assumes "vm_inv self"
  shows "\<exists>r self'. NaClVmmapFindPage self p = Inr (r, self') \<and> vm_inv self' \<and>
    vm_pages self' = vm_pages self \<and>
    (case r of None \<Rightarrow> vm_pages self p = None
     | Some e \<Rightarrow> e \<in> set (ents self) \<and> covers e p \<and> vm_pages self p = Some (page_of e p))"
  using assms by (rule FindPage_spec)

theorem NaClVmmapFindPage_correct_witness:
  "\<exists>self'. NaClVmmapFindPage vm_example 100 = Inr (None, self') \<and> vm_inv self'"
proof -
  have "vm_pages vm_example 100 = None"
    by (simp add: vm_pages_def vm_example_ents pages_def covers_def e_start_def e_end_def)
  then show ?thesis
    using NaClVmmapFindPage_correct [OF vm_example_inv, of 100] by (auto split: option.splits)
qed

text \<open>
  C8. \<open>NaClVmmapFindMapSpace\<close> returns a start page that is a multiple of the 64K
  allocation unit and from which the rounded number of pages is unmapped; it returns 0
  only when no such run lies between two entries.
\<close>

theorem NaClVmmapFindMapSpace_correct:
  assumes "vm_inv self" and "unat np \<le> 2 ^ 31"
  defines "n \<equiv> round_up 4 (unat np)"
  shows "\<exists>r self'. NaClVmmapFindMapSpace self np = Inr (r, self') \<and> vm_inv self' \<and>
    vm_pages self' = vm_pages self \<and>
    (r \<noteq> 0 \<longrightarrow> 16 dvd unat r \<and> unat r + n \<le> 2 ^ 31 \<and>
       (\<forall>p. unat r \<le> unat p \<and> unat p < unat r + n \<longrightarrow> vm_pages self p = None)) \<and>
    (r = 0 \<longrightarrow> 0 < n \<longrightarrow> (\<forall>q. \<forall>e \<in> set (ents self). \<forall>f \<in> set (ents self).
       16 dvd q \<and> e_end e \<le> q \<and> q + n \<le> e_start f \<longrightarrow>
       (\<exists>p. q \<le> unat p \<and> unat p < q + n \<and> vm_pages self p \<noteq> None)))"
  unfolding n_def using assms(1,2) by (rule FindMapSpace_spec)

theorem NaClVmmapFindMapSpace_correct_witness:
  "\<exists>r self'. NaClVmmapFindMapSpace vm_example 3 = Inr (r, self') \<and> r \<noteq> 0 \<and> 16 dvd unat r \<and>
     vm_pages vm_example r = None"
proof -
  have sc: "NaClVmmapFindMapSpace vm_example 3 = Inr (240, the_sorted)"
    if "the_sorted = vm_example\<lparr>vmentry := [vmentry vm_example ! 1, vmentry vm_example ! 0, None, None, None],
          is_sorted := True\<rparr>" for the_sorted
    unfolding that by code_simp
  show ?thesis
    using NaClVmmapFindMapSpace_correct [OF vm_example_inv, of 3] sc
    by (auto simp: round_up_def round_down_def)
qed

text \<open>
  C9. \<open>NaClVmmapFindMapSpaceAboveHint\<close> returns 0 or the start of a run of unmapped pages
  of the rounded length, not below the hint, and a multiple of the allocation unit
  when the hint is one.
\<close>

theorem NaClVmmapFindMapSpaceAboveHint_correct:
  assumes "vm_inv self" and "unat np \<le> 2 ^ 31"
  defines "n \<equiv> round_up 4 (unat np)"
  shows "\<exists>r self'. NaClVmmapFindMapSpaceAboveHint self uaddr np = Inr (r, self') \<and> vm_inv self' \<and>
    vm_pages self' = vm_pages self \<and>
    (r \<noteq> 0 \<longrightarrow> unat uaddr div 2 ^ 12 \<le> unat r \<and> (2 ^ 16 dvd unat uaddr \<longrightarrow> 16 dvd unat r) \<and>
       unat r + n \<le> 2 ^ 31 \<and>
       (\<forall>p. unat r \<le> unat p \<and> unat p < unat r + n \<longrightarrow> vm_pages self p = None))"
  unfolding n_def using assms(1,2) by (rule FindMapSpaceAboveHint_spec)

lemma above_hint_example:
  "case NaClVmmapFindMapSpaceAboveHint vm_example 0x40000 3 of Inl _ \<Rightarrow> False | Inr (r, _) \<Rightarrow> r = 64"
  by code_simp

theorem NaClVmmapFindMapSpaceAboveHint_correct_witness:
  "\<exists>self'. NaClVmmapFindMapSpaceAboveHint vm_example 0x40000 3 = Inr (64, self') \<and> vm_inv self' \<and>
     vm_pages vm_example 79 = None"
proof -
  obtain self' where r: "NaClVmmapFindMapSpaceAboveHint vm_example 0x40000 3 = Inr (64, self')"
    using above_hint_example by (auto split: sum.splits)
  have "round_up 4 3 = 16" by (simp add: round_up_def round_down_def)
  with NaClVmmapFindMapSpaceAboveHint_correct [OF vm_example_inv, of 3 "0x40000"] r show ?thesis by auto
qed

text \<open>
  C10. Mapping unused pages and unmapping them again restores the page map.
\<close>

theorem NaClVmmapUpdate_map_unmap:
  assumes "vm_inv self" "0 < unat np" "unat pn + unat np \<le> 2 ^ 31"
    and "\<forall>p. pn \<le> p \<and> p < pn + np \<longrightarrow> vm_pages self p = None" "\<exists>p. vm_pages self p \<noteq> None"
  shows "\<exists>m1 m2. NaClVmmapUpdate (\<lambda>_. True) self pn np pr nmo False = Inr m1 \<and>
    NaClVmmapUpdate (\<lambda>_. True) m1 pn np pr' nmo' True = Inr m2 \<and> vm_inv m2 \<and> vm_pages m2 = vm_pages self"
  using vm.unmap_after_map [OF assms] by metis

theorem NaClVmmapUpdate_map_unmap_witness:
  "\<exists>m1 m2. NaClVmmapUpdate (\<lambda>_. True) vm_example 64 16 3 None False = Inr m1 \<and>
    NaClVmmapUpdate (\<lambda>_. True) m1 64 16 0 None True = Inr m2 \<and> vm_pages m2 = vm_pages vm_example"
proof -
  have "vm_pages vm_example p = None" if "64 \<le> p" "p < 64 + 16" for p
    using that by (auto simp: vm_pages_def vm_example_ents pages_def covers_def e_start_def e_end_def
        word_le_nat_alt word_less_nat_alt)
  moreover have "vm_pages vm_example 20 \<noteq> None"
    by (simp add: vm_pages_def vm_example_ents pages_def covers_def e_start_def e_end_def)
  ultimately show ?thesis
    using NaClVmmapUpdate_map_unmap [OF vm_example_inv, of 16 64 3 None 0 None] by auto
qed

end
