(* ===== verification/ErrorCode.thy ===== *)
theory ErrorCode
  imports Prelude
begin

text \<open>
  The load status codes of \<^verbatim>\<open>src/service_runtime/nacl_error_code.h\<close> and their messages,
  \<^verbatim>\<open>src/service_runtime/nacl_error_code.c\<close>.
\<close>

datatype NaClErrorCode =
    LOAD_OK
  | LOAD_STATUS_UNKNOWN
  | LOAD_UNSUPPORTED_OS_PLATFORM
  | LOAD_DEP_UNSUPPORTED
  | LOAD_INTERNAL
  | LOAD_DUP_LOAD_MODULE
  | LOAD_DUP_START_MODULE
  | LOAD_OPEN_ERROR
  | LOAD_READ_ERROR
  | LOAD_TOO_MANY_PROG_HDRS
  | LOAD_PROG_HDR_SIZE_TOO_SMALL
  | LOAD_BAD_ELF_MAGIC
  | LOAD_NOT_32_BIT
  | LOAD_NOT_64_BIT
  | LOAD_BAD_ABI
  | LOAD_NOT_EXEC
  | LOAD_BAD_MACHINE
  | LOAD_BAD_ELF_VERS
  | LOAD_TOO_MANY_SECT
  | LOAD_BAD_SECT
  | LOAD_NO_MEMORY
  | LOAD_SECT_HDR
  | LOAD_ADDR_SPACE_TOO_SMALL
  | LOAD_ADDR_SPACE_TOO_BIG
  | LOAD_DATA_OVERLAPS_STACK_SECTION
  | LOAD_RODATA_OVERLAPS_DATA
  | LOAD_DATA_NOT_LAST_SEGMENT
  | LOAD_NO_DATA_BUT_RODATA_NOT_LAST_SEGMENT
  | LOAD_TEXT_OVERLAPS_RODATA
  | LOAD_TEXT_OVERLAPS_DATA
  | LOAD_BAD_RODATA_ALIGNMENT
  | LOAD_BAD_DATA_ALIGNMENT
  | LOAD_UNLOADABLE
  | LOAD_BAD_ELF_TEXT
  | LOAD_TEXT_SEG_TOO_BIG
  | LOAD_DATA_SEG_TOO_BIG
  | LOAD_MPROTECT_FAIL
  | LOAD_MADVISE_FAIL
  | LOAD_TOO_MANY_SYMBOL_STR
  | LOAD_SYMTAB_ENTRY_TOO_SMALL
  | LOAD_NO_SYMTAB
  | LOAD_NO_SYMTAB_STRINGS
  | LOAD_SYMTAB_ENTRY
  | LOAD_UNKNOWN_SYMBOL_TYPE
  | LOAD_SYMTAB_DUP
  | LOAD_REL_ERROR
  | LOAD_REL_UNIMPL
  | LOAD_UNDEF_SYMBOL
  | LOAD_BAD_SYMBOL_DATA
  | LOAD_BAD_FILE
  | LOAD_BAD_ENTRY
  | LOAD_SEGMENT_OUTSIDE_ADDRSPACE
  | LOAD_DUP_SEGMENT
  | LOAD_SEGMENT_BAD_LOC
  | LOAD_BAD_SEGMENT
  | LOAD_REQUIRED_SEG_MISSING
  | LOAD_SEGMENT_BAD_PARAM
  | LOAD_VALIDATION_FAILED
  | LOAD_UNIMPLEMENTED
  | SRT_NO_SEG_SEL

primrec error_num :: "NaClErrorCode \<Rightarrow> nat" where
  "error_num LOAD_OK = 0"
| "error_num LOAD_STATUS_UNKNOWN = 1"
| "error_num LOAD_UNSUPPORTED_OS_PLATFORM = 2"
| "error_num LOAD_DEP_UNSUPPORTED = 3"
| "error_num LOAD_INTERNAL = 4"
| "error_num LOAD_DUP_LOAD_MODULE = 5"
| "error_num LOAD_DUP_START_MODULE = 6"
| "error_num LOAD_OPEN_ERROR = 7"
| "error_num LOAD_READ_ERROR = 8"
| "error_num LOAD_TOO_MANY_PROG_HDRS = 9"
| "error_num LOAD_PROG_HDR_SIZE_TOO_SMALL = 10"
| "error_num LOAD_BAD_ELF_MAGIC = 11"
| "error_num LOAD_NOT_32_BIT = 12"
| "error_num LOAD_NOT_64_BIT = 13"
| "error_num LOAD_BAD_ABI = 14"
| "error_num LOAD_NOT_EXEC = 15"
| "error_num LOAD_BAD_MACHINE = 16"
| "error_num LOAD_BAD_ELF_VERS = 17"
| "error_num LOAD_TOO_MANY_SECT = 18"
| "error_num LOAD_BAD_SECT = 19"
| "error_num LOAD_NO_MEMORY = 20"
| "error_num LOAD_SECT_HDR = 21"
| "error_num LOAD_ADDR_SPACE_TOO_SMALL = 22"
| "error_num LOAD_ADDR_SPACE_TOO_BIG = 23"
| "error_num LOAD_DATA_OVERLAPS_STACK_SECTION = 24"
| "error_num LOAD_RODATA_OVERLAPS_DATA = 25"
| "error_num LOAD_DATA_NOT_LAST_SEGMENT = 26"
| "error_num LOAD_NO_DATA_BUT_RODATA_NOT_LAST_SEGMENT = 27"
| "error_num LOAD_TEXT_OVERLAPS_RODATA = 28"
| "error_num LOAD_TEXT_OVERLAPS_DATA = 29"
| "error_num LOAD_BAD_RODATA_ALIGNMENT = 30"
| "error_num LOAD_BAD_DATA_ALIGNMENT = 31"
| "error_num LOAD_UNLOADABLE = 32"
| "error_num LOAD_BAD_ELF_TEXT = 33"
| "error_num LOAD_TEXT_SEG_TOO_BIG = 34"
| "error_num LOAD_DATA_SEG_TOO_BIG = 35"
| "error_num LOAD_MPROTECT_FAIL = 36"
| "error_num LOAD_MADVISE_FAIL = 37"
| "error_num LOAD_TOO_MANY_SYMBOL_STR = 38"
| "error_num LOAD_SYMTAB_ENTRY_TOO_SMALL = 39"
| "error_num LOAD_NO_SYMTAB = 40"
| "error_num LOAD_NO_SYMTAB_STRINGS = 41"
| "error_num LOAD_SYMTAB_ENTRY = 42"
| "error_num LOAD_UNKNOWN_SYMBOL_TYPE = 43"
| "error_num LOAD_SYMTAB_DUP = 44"
| "error_num LOAD_REL_ERROR = 45"
| "error_num LOAD_REL_UNIMPL = 46"
| "error_num LOAD_UNDEF_SYMBOL = 47"
| "error_num LOAD_BAD_SYMBOL_DATA = 48"
| "error_num LOAD_BAD_FILE = 49"
| "error_num LOAD_BAD_ENTRY = 50"
| "error_num LOAD_SEGMENT_OUTSIDE_ADDRSPACE = 51"
| "error_num LOAD_DUP_SEGMENT = 52"
| "error_num LOAD_SEGMENT_BAD_LOC = 53"
| "error_num LOAD_BAD_SEGMENT = 54"
| "error_num LOAD_REQUIRED_SEG_MISSING = 55"
| "error_num LOAD_SEGMENT_BAD_PARAM = 56"
| "error_num LOAD_VALIDATION_FAILED = 57"
| "error_num LOAD_UNIMPLEMENTED = 58"
| "error_num SRT_NO_SEG_SEL = 59"

primrec NaClErrorString :: "NaClErrorCode \<Rightarrow> string" where
  "NaClErrorString LOAD_OK =
     ''Ok''"
| "NaClErrorString LOAD_STATUS_UNKNOWN =
     ''Load status unknown (load incomplete)''"
| "NaClErrorString LOAD_UNSUPPORTED_OS_PLATFORM =
     ''Operating system platform is not supported''"
| "NaClErrorString LOAD_DEP_UNSUPPORTED =
     ''Data Execution Prevention is required but is not supported''"
| "NaClErrorString LOAD_INTERNAL =
     ''Internal error''"
| "NaClErrorString LOAD_DUP_LOAD_MODULE =
     ''Multiple LoadModule RPCs''"
| "NaClErrorString LOAD_DUP_START_MODULE =
     ''Multiple StartModule RPCs''"
| "NaClErrorString LOAD_OPEN_ERROR =
     ''Cannot open NaCl module file''"
| "NaClErrorString LOAD_READ_ERROR =
     ''Cannot read file''"
| "NaClErrorString LOAD_TOO_MANY_PROG_HDRS =
     ''Too many program header entries in ELF file''"
| "NaClErrorString LOAD_PROG_HDR_SIZE_TOO_SMALL =
     ''ELF program header size too small''"
| "NaClErrorString LOAD_BAD_ELF_MAGIC =
     ''Bad ELF header magic number''"
| "NaClErrorString LOAD_NOT_32_BIT =
     ''Not a 32-bit ELF file''"
| "NaClErrorString LOAD_NOT_64_BIT =
     ''Not a 64-bit ELF file''"
| "NaClErrorString LOAD_BAD_ABI =
     ''ELF file has unexpected OS ABI''"
| "NaClErrorString LOAD_NOT_EXEC =
     ''ELF file type not executable''"
| "NaClErrorString LOAD_BAD_MACHINE =
     ''ELF file for wrong architecture''"
| "NaClErrorString LOAD_BAD_ELF_VERS =
     ''ELF version mismatch''"
| "NaClErrorString LOAD_TOO_MANY_SECT =
     ''Too many section headers''"
| "NaClErrorString LOAD_BAD_SECT =
     ''ELF bad sections''"
| "NaClErrorString LOAD_NO_MEMORY =
     ''Insufficient memory to load file''"
| "NaClErrorString LOAD_SECT_HDR =
     ''ELF section header string table load error''"
| "NaClErrorString LOAD_ADDR_SPACE_TOO_SMALL =
     ''Address space too small''"
| "NaClErrorString LOAD_ADDR_SPACE_TOO_BIG =
     ''Address space too big''"
| "NaClErrorString LOAD_DATA_OVERLAPS_STACK_SECTION =
     ''Memory '' @ [CHR 0x22] @ ''hole'' @ [CHR 0x22] @ '' between end of BSS and start of stack is negative in size''"
| "NaClErrorString LOAD_RODATA_OVERLAPS_DATA =
     ''Read-only data segment overlaps data segment''"
| "NaClErrorString LOAD_DATA_NOT_LAST_SEGMENT =
     ''Data segment exists, but is not last segment''"
| "NaClErrorString LOAD_NO_DATA_BUT_RODATA_NOT_LAST_SEGMENT =
     ''No data segment, read-only data segment exists, but is not last segment''"
| "NaClErrorString LOAD_TEXT_OVERLAPS_RODATA =
     ''Text segment overlaps rodata segment''"
| "NaClErrorString LOAD_TEXT_OVERLAPS_DATA =
     ''No rodata segment, and text segment overlaps data segment''"
| "NaClErrorString LOAD_BAD_RODATA_ALIGNMENT =
     ''The rodata segment is not properly aligned''"
| "NaClErrorString LOAD_BAD_DATA_ALIGNMENT =
     ''The data segment is not properly aligned''"
| "NaClErrorString LOAD_UNLOADABLE =
     ''Error during loading''"
| "NaClErrorString LOAD_BAD_ELF_TEXT =
     ''ELF file contains no text segment''"
| "NaClErrorString LOAD_TEXT_SEG_TOO_BIG =
     ''ELF file text segment too large''"
| "NaClErrorString LOAD_DATA_SEG_TOO_BIG =
     ''ELF file data segment(s) too large''"
| "NaClErrorString LOAD_MPROTECT_FAIL =
     ''Cannot protect pages''"
| "NaClErrorString LOAD_MADVISE_FAIL =
     ''Cannot release unused data segment''"
| "NaClErrorString LOAD_TOO_MANY_SYMBOL_STR =
     ''Malformed ELF file: too many string tables''"
| "NaClErrorString LOAD_SYMTAB_ENTRY_TOO_SMALL =
     ''Symbol table entry too small''"
| "NaClErrorString LOAD_NO_SYMTAB =
     ''No symbol table''"
| "NaClErrorString LOAD_NO_SYMTAB_STRINGS =
     ''No string table for symbols''"
| "NaClErrorString LOAD_SYMTAB_ENTRY =
     ''Error entering new symbol into symbol table''"
| "NaClErrorString LOAD_UNKNOWN_SYMBOL_TYPE =
     ''Unknown symbol type''"
| "NaClErrorString LOAD_SYMTAB_DUP =
     ''Duplicate entry in symbol table''"
| "NaClErrorString LOAD_REL_ERROR =
     ''Bad relocation read error''"
| "NaClErrorString LOAD_REL_UNIMPL =
     ''Relocation type unimplemented''"
| "NaClErrorString LOAD_UNDEF_SYMBOL =
     ''Undefined external symbol''"
| "NaClErrorString LOAD_BAD_SYMBOL_DATA =
     ''Bad symbol table data''"
| "NaClErrorString LOAD_BAD_FILE =
     ''ELF file not accessible''"
| "NaClErrorString LOAD_BAD_ENTRY =
     ''Bad program entry point address''"
| "NaClErrorString LOAD_SEGMENT_OUTSIDE_ADDRSPACE =
     ''ELF executable contains a segment which lies outside the assigned address space''"
| "NaClErrorString LOAD_DUP_SEGMENT =
     ''ELF executable contains a duplicate segment (please run objdump to see which)''"
| "NaClErrorString LOAD_SEGMENT_BAD_LOC =
     ''ELF executable text/rodata segment has wrong starting address''"
| "NaClErrorString LOAD_BAD_SEGMENT =
     ''ELF executable contains an unexpected/unallowed segment/flags''"
| "NaClErrorString LOAD_REQUIRED_SEG_MISSING =
     ''ELF executable missing a required segment (text)''"
| "NaClErrorString LOAD_SEGMENT_BAD_PARAM =
     ''ELF executable segment header parameter error''"
| "NaClErrorString LOAD_VALIDATION_FAILED =
     ''Validation failure. File violates Native Client safety rules.''"
| "NaClErrorString LOAD_UNIMPLEMENTED =
     ''Not implemented for this architecture.''"
| "NaClErrorString SRT_NO_SEG_SEL =
     ''Service Runtime: cannot allocate segment selector''"

definition all_error_codes :: "NaClErrorCode list" where
  "all_error_codes =
     [LOAD_OK, LOAD_STATUS_UNKNOWN, LOAD_UNSUPPORTED_OS_PLATFORM, LOAD_DEP_UNSUPPORTED,
      LOAD_INTERNAL, LOAD_DUP_LOAD_MODULE, LOAD_DUP_START_MODULE, LOAD_OPEN_ERROR,
      LOAD_READ_ERROR, LOAD_TOO_MANY_PROG_HDRS, LOAD_PROG_HDR_SIZE_TOO_SMALL,
      LOAD_BAD_ELF_MAGIC, LOAD_NOT_32_BIT, LOAD_NOT_64_BIT, LOAD_BAD_ABI, LOAD_NOT_EXEC,
      LOAD_BAD_MACHINE, LOAD_BAD_ELF_VERS, LOAD_TOO_MANY_SECT, LOAD_BAD_SECT,
      LOAD_NO_MEMORY, LOAD_SECT_HDR, LOAD_ADDR_SPACE_TOO_SMALL, LOAD_ADDR_SPACE_TOO_BIG,
      LOAD_DATA_OVERLAPS_STACK_SECTION, LOAD_RODATA_OVERLAPS_DATA,
      LOAD_DATA_NOT_LAST_SEGMENT, LOAD_NO_DATA_BUT_RODATA_NOT_LAST_SEGMENT,
      LOAD_TEXT_OVERLAPS_RODATA, LOAD_TEXT_OVERLAPS_DATA, LOAD_BAD_RODATA_ALIGNMENT,
      LOAD_BAD_DATA_ALIGNMENT, LOAD_UNLOADABLE, LOAD_BAD_ELF_TEXT, LOAD_TEXT_SEG_TOO_BIG,
      LOAD_DATA_SEG_TOO_BIG, LOAD_MPROTECT_FAIL, LOAD_MADVISE_FAIL,
      LOAD_TOO_MANY_SYMBOL_STR, LOAD_SYMTAB_ENTRY_TOO_SMALL, LOAD_NO_SYMTAB,
      LOAD_NO_SYMTAB_STRINGS, LOAD_SYMTAB_ENTRY, LOAD_UNKNOWN_SYMBOL_TYPE, LOAD_SYMTAB_DUP,
      LOAD_REL_ERROR, LOAD_REL_UNIMPL, LOAD_UNDEF_SYMBOL, LOAD_BAD_SYMBOL_DATA,
      LOAD_BAD_FILE, LOAD_BAD_ENTRY, LOAD_SEGMENT_OUTSIDE_ADDRSPACE, LOAD_DUP_SEGMENT,
      LOAD_SEGMENT_BAD_LOC, LOAD_BAD_SEGMENT, LOAD_REQUIRED_SEG_MISSING,
      LOAD_SEGMENT_BAD_PARAM, LOAD_VALIDATION_FAILED, LOAD_UNIMPLEMENTED, SRT_NO_SEG_SEL]"

lemma all_error_codes: "e \<in> set all_error_codes"
  by (cases e) (simp_all add: all_error_codes_def)

text \<open>The codes are numbered in order from 0, and no two codes share a message.\<close>

lemma error_num_enum: "map error_num all_error_codes = [0..<60]"
  by code_simp

lemma NaClErrorString_inj: "NaClErrorString e = NaClErrorString f \<longleftrightarrow> e = f"
proof -
  have "distinct (map NaClErrorString all_error_codes)" by code_simp
  then have "inj_on NaClErrorString (set all_error_codes)" by (simp add: distinct_map)
  then show ?thesis using all_error_codes by (metis inj_on_eq_iff)
qed

end
