(* ===== verification/SelMemory.thy ===== *)
theory SelMemory
  imports SelUtil
begin

text \<open>
  Memory from the operating system (\<^verbatim>\<open>src/service_runtime/linux/sel_memory.c\<close>). The
  record \<open>host\<close> holds what the operating system answers: the address of a new mapping
  (\<open>None\<close> is \<open>MAP_FAILED\<close>), also of a file or shared memory object, a new shared memory
  object, whether a mapping can be removed, the error number of a
  protection change or of advice (0 is success), and the random numbers.
\<close>

record host =
  os_mmap :: "u64 \<Rightarrow> u64 \<Rightarrow> int \<Rightarrow> u64 option"
  os_munmap_ok :: "u64 \<Rightarrow> u64 \<Rightarrow> bool"
  os_mprotect :: "u64 \<Rightarrow> u64 \<Rightarrow> int \<Rightarrow> nat"
  os_mmap_fd :: "u64 \<Rightarrow> u64 \<Rightarrow> int \<Rightarrow> int \<Rightarrow> nat \<Rightarrow> u64 \<Rightarrow> u64 option"
  os_shm_create :: "u64 \<Rightarrow> bool \<Rightarrow> nat option"
  os_madvise :: "u64 \<Rightarrow> u64 \<Rightarrow> int \<Rightarrow> nat"
  secure_rng :: "nat \<Rightarrow> u32"

definition PROT_NONE :: int where "PROT_NONE = 0"
definition PROT_READ :: int where "PROT_READ = 1"
definition PROT_WRITE :: int where "PROT_WRITE = 2"
definition PROT_EXEC :: int where "PROT_EXEC = 4"
definition MAP_PRIVATE :: int where "MAP_PRIVATE = 0x02"
definition MAP_FIXED :: int where "MAP_FIXED = 0x10"
definition MAP_ANONYMOUS :: int where "MAP_ANONYMOUS = 0x20"
definition MAP_NORESERVE :: int where "MAP_NORESERVE = 0x4000"
definition ENOMEM :: int where "ENOMEM = 12"

definition NaCl_page_free :: "host \<Rightarrow> u64 \<Rightarrow> u64 \<Rightarrow> unit result" where
  "NaCl_page_free h p n =
     (if p = 0 \<or> n = 0 then Inr ()
      else if \<not> os_munmap_ok h p n then Inl LogFatal else Inr ())"

text \<open>The allocators return the status and the value left in \<open>*p\<close>.\<close>

definition NaCl_page_alloc_intern_flags :: "host \<Rightarrow> u64 \<Rightarrow> u64 \<Rightarrow> int \<Rightarrow> int \<times> u64" where
  "NaCl_page_alloc_intern_flags h p n map_flags =
    (let map_flags = map_flags OR (MAP_PRIVATE OR MAP_ANONYMOUS);
         addr = (case os_mmap h p n map_flags of None \<Rightarrow> 0 | Some a \<Rightarrow> a);
         p = (if addr \<noteq> 0 then addr else p) in
     (if addr = 0 then - ENOMEM else 0, p))"

definition NaCl_page_alloc_intern :: "host \<Rightarrow> u64 \<Rightarrow> u64 \<Rightarrow> int \<times> u64" where
  "NaCl_page_alloc_intern h p n =
     NaCl_page_alloc_intern_flags h p n ((if p \<noteq> 0 then MAP_FIXED else 0) OR MAP_NORESERVE)"

definition random_hint :: "u32 \<Rightarrow> u64" where
  "random_hint addr = push_bit NACL_MAP_PAGESHIFT (ucast addr) AND (push_bit 47 1 - 1)"

text \<open>\<open>randomized_tries h n tries r\<close> is the loop at \<open>tries\<close> with \<open>r\<close> rounds left.\<close>

primrec randomized_tries :: "host \<Rightarrow> u64 \<Rightarrow> nat \<Rightarrow> nat \<Rightarrow> int \<times> u64 \<Rightarrow> int \<times> u64" where
  "randomized_tries h n tries 0 ep = ep"
| "randomized_tries h n tries (Suc r) ep =
    (let (neg_errno, p) = NaCl_page_alloc_intern_flags h (random_hint (secure_rng h tries)) n 0 in
     if neg_errno = 0 then (neg_errno, p) else randomized_tries h n (Suc tries) r (neg_errno, p))"

definition NaCl_page_alloc_randomized :: "host \<Rightarrow> u64 \<Rightarrow> int \<times> u64" where
  "NaCl_page_alloc_randomized h n =
    (let (neg_errno, p) = randomized_tries h n 0 4 (- ENOMEM, 0) in
     if neg_errno \<noteq> 0 then NaCl_page_alloc_intern_flags h 0 n 0 else (neg_errno, p))"

definition NaCl_page_alloc :: "host \<Rightarrow> u64 \<Rightarrow> u64 \<Rightarrow> int \<times> u64" where
  "NaCl_page_alloc h p n =
    (let (rv, addr) = NaCl_page_alloc_intern h 0 n in (rv, if rv = 0 then addr else p))"

definition NaCl_mprotect :: "host \<Rightarrow> u64 \<Rightarrow> u64 \<Rightarrow> int \<Rightarrow> int" where
  "NaCl_mprotect h addr len prt = - int (os_mprotect h addr len prt)"

definition NaCl_madvise :: "host \<Rightarrow> u64 \<Rightarrow> u64 \<Rightarrow> int \<Rightarrow> int" where
  "NaCl_madvise h start len advice = - int (os_madvise h start len advice)"

section \<open>What the allocators return\<close>

lemma random_hint_bounds: "unat (random_hint a) < 2 ^ 47" "unat (random_hint a) mod 2 ^ 16 = 0"
proof -
  have m: "push_bit 47 1 - 1 = (mask 47 :: u64)" by (simp add: mask_eq_exp_minus_1)
  show "unat (random_hint a) < 2 ^ 47" by (simp add: random_hint_def m del: push_bit_of_1)
  have "random_hint a AND mask 16 = 0"
    by (rule bit_eqI) (auto simp: random_hint_def bit_simps NACL_MAP_PAGESHIFT_def)
  then show "unat (random_hint a) mod 2 ^ 16 = 0"
    by (metis unat_and_mask unat_0)
qed

text \<open>What the system answers to a request: an address, or a refusal, as which address 0 counts too.\<close>

definition gives :: "host \<Rightarrow> u64 \<Rightarrow> u64 \<Rightarrow> u64 option" where
  "gives h n hint = (case os_mmap h hint n (MAP_PRIVATE OR MAP_ANONYMOUS) of
     None \<Rightarrow> None | Some a \<Rightarrow> if a = 0 then None else Some a)"

lemma intern_flags_gives:
  "NaCl_page_alloc_intern_flags h p n 0 = (case gives h n p of None \<Rightarrow> (- ENOMEM, p) | Some a \<Rightarrow> (0, a))"
  by (simp add: NaCl_page_alloc_intern_flags_def gives_def split: option.split)

definition hint_at :: "host \<Rightarrow> nat \<Rightarrow> u64" where "hint_at h i = random_hint (secure_rng h i)"

text \<open>
  C31. \<open>NaCl_page_alloc_randomized\<close> asks for the four random hints in turn and takes the first address
  it is given; only when all four are refused does it ask without a hint, and only when that is
  refused too does it fail, with \<open>-ENOMEM\<close>. The hints are 64K aligned and below \<open>2 ^ 47\<close>.
\<close>

theorem page_alloc_randomized_spec:
  "NaCl_page_alloc_randomized h n =
      (case find (\<lambda>i. gives h n (hint_at h i) \<noteq> None) [0, 1, 2, 3] of
         Some i \<Rightarrow> (0, the (gives h n (hint_at h i)))
       | None \<Rightarrow> (case gives h n 0 of Some a \<Rightarrow> (0, a) | None \<Rightarrow> (- ENOMEM, 0))) \<and>
    unat (hint_at h i) < 2 ^ 47 \<and> 2 ^ 16 dvd unat (hint_at h i)"
proof -
  have tries: "randomized_tries h n t (Suc r) ep = (case gives h n (hint_at h t) of
      None \<Rightarrow> randomized_tries h n (Suc t) r (- ENOMEM, hint_at h t) | Some a \<Rightarrow> (0, a))" for t r ep
    by (simp add: intern_flags_gives hint_at_def ENOMEM_def split: option.split)
  have four: "(4 :: nat) = Suc (Suc (Suc (Suc 0)))" "1 = Suc 0" "2 = Suc (Suc 0)" "3 = Suc (Suc (Suc 0))" by simp_all
  have "NaCl_page_alloc_randomized h n =
      (case find (\<lambda>i. gives h n (hint_at h i) \<noteq> None) [0, 1, 2, 3] of
         Some i \<Rightarrow> (0, the (gives h n (hint_at h i)))
       | None \<Rightarrow> (case gives h n 0 of Some a \<Rightarrow> (0, a) | None \<Rightarrow> (- ENOMEM, 0)))"
    unfolding NaCl_page_alloc_randomized_def four tries
    by (simp add: intern_flags_gives ENOMEM_def split: option.split)
  then show ?thesis using random_hint_bounds [of "secure_rng h i"] by (simp add: hint_at_def dvd_eq_mod_eq_0)
qed

definition host_example :: host where
  "host_example = \<lparr>os_mmap = \<lambda>hint n f. if hint = 0 then Some 0x200000 else None,
     os_munmap_ok = \<lambda>_ _. True, os_mprotect = \<lambda>_ _ _. 0,
     os_mmap_fd = \<lambda>addr n p f d off. Some addr, os_shm_create = \<lambda>n x. Some 3, os_madvise = \<lambda>_ _ _. 0,
     secure_rng = \<lambda>i. of_nat (i + 7)\<rparr>"

lemma host_example_alloc: "NaCl_page_alloc_randomized host_example n = (0, 0x200000)"
proof -
  have z: "random_hint (of_nat (i + 7)) \<noteq> 0" if "i < 4" for i
  proof -
    have "i \<in> {0, 1, 2, 3}" using that by auto
    then show ?thesis by (auto simp: random_hint_def NACL_MAP_PAGESHIFT_def push_bit_eq_mult)
  qed
  have f: "NaCl_page_alloc_intern_flags host_example (random_hint (of_nat (i + 7))) n 0 =
      (- ENOMEM, random_hint (of_nat (i + 7)))" if "i < 4" for i
    using z [OF that] by (simp add: NaCl_page_alloc_intern_flags_def host_example_def)
  have rng: "secure_rng host_example i = of_nat (i + 7)" for i by (simp add: host_example_def)
  have "randomized_tries host_example n 0 4 (- ENOMEM, 0) = (- ENOMEM, random_hint (of_nat (3 + 7)))"
    using f [of 0] f [of 1] f [of 2] f [of 3]
    by (simp only: rng numeral_eq_Suc pred_numeral_simps randomized_tries.simps Let_def
          One_nat_def BitM.simps) (simp add: ENOMEM_def)
  then show ?thesis
    by (simp add: NaCl_page_alloc_randomized_def NaCl_page_alloc_intern_flags_def ENOMEM_def)
       (simp add: host_example_def)
qed

end
