(* ===== verification/SelLdr.thy ===== *)
theory SelLdr
  imports DynArray VmmapFind ErrorCode SelMemory
begin

text \<open>
  The application object of the runtime: \<^verbatim>\<open>struct NaClApp\<close> of
  \<^verbatim>\<open>src/service_runtime/sel_ldr.h\<close>, address translation between the sandbox and the
  process (\<^verbatim>\<open>sel_ldr-inl.h\<close>), construction, memory patching, trampolines and the
  descriptor table (\<^verbatim>\<open>sel_ldr.c\<close> and \<^verbatim>\<open>arch/x86_64/sel_ldr_x86_64.c\<close>).

  The memory of the process is a function from addresses to bytes. Locks are not
  modelled: the model is of one thread. Descriptors are numbers.
\<close>

section \<open>The application object\<close>

record NaClDynamicRegion =
  dr_start :: u64
  dr_size :: u64
  delete_generation :: int

text \<open>\<open>dynamic_regions\<close> holds the \<open>num_dynamic_regions\<close> regions in use of the buffer.\<close>

record NaClApp =
  addr_bits :: nat
  stack_size :: u64
  mem_start :: u64
  dispatch_thunk :: u64
  static_text_end :: u64
  dynamic_text_start :: u64
  dynamic_text_end :: u64
  rodata_start :: u64
  data_start :: u64
  data_end :: u64
  initial_entry_pt :: u64
  user_entry_pt :: u64
  bundle_size :: u64
  module_load_status :: NaClErrorCode
  module_may_start :: bool
  mem_map :: NaClVmmap
  use_shm_for_dynamic_text :: bool
  text_shm :: "nat option"
  dynamic_page_bitmap :: "u8 list option"
  dynamic_regions :: "NaClDynamicRegion list"
  dynamic_regions_allocated :: nat
  dynamic_delete_generation :: int
  dynamic_mapcache_offset :: u32
  dynamic_mapcache_size :: u32
  dynamic_mapcache_ret :: u64
  exit_status :: int
  ignore_validator_result :: bool
  skip_validator :: bool
  validator_stub_out_mode :: bool
  break_addr :: u64
  threads :: "nat DynArray"
  desc_tbl :: "nat DynArray"
  enable_debug_stub :: bool
  skip_qualification :: bool
  handle_signals :: bool
  user_side_flag :: bool
  enable_dfa_validator :: bool
  fixed_feature_cpu_mode :: bool
  cpu_features :: nat
  sys_tls :: u64

definition NACL_MAX_ADDR_BITS :: nat where "NACL_MAX_ADDR_BITS = 32"
definition NACL_DEFAULT_STACK_MAX :: u64 where "NACL_DEFAULT_STACK_MAX = push_bit 20 16"
definition kNaClBadAddress :: u64 where "kNaClBadAddress = - 1"

section \<open>Address translation\<close>

definition NaClUserToSysAddrNullOkay :: "NaClApp \<Rightarrow> u64 \<Rightarrow> u64" where
  "NaClUserToSysAddrNullOkay nap uaddr =
     (if push_bit (addr_bits nap) 1 \<le> uaddr then kNaClBadAddress else uaddr + mem_start nap)"

definition NaClUserToSysAddr :: "NaClApp \<Rightarrow> u64 \<Rightarrow> u64" where
  "NaClUserToSysAddr nap uaddr =
     (if uaddr = 0 \<or> push_bit (addr_bits nap) 1 \<le> uaddr then kNaClBadAddress
      else uaddr + mem_start nap)"

definition NaClIsUserAddr :: "NaClApp \<Rightarrow> u64 \<Rightarrow> bool" where
  "NaClIsUserAddr nap sysaddr \<longleftrightarrow>
     mem_start nap \<le> sysaddr \<and> sysaddr < mem_start nap + push_bit (addr_bits nap) 1"

definition NaClUserToSysAddrRange :: "NaClApp \<Rightarrow> u64 \<Rightarrow> u64 \<Rightarrow> u64" where
  "NaClUserToSysAddrRange nap uaddr cnt =
    (if uaddr = 0 then kNaClBadAddress
     else let end_addr = uaddr + cnt in
       if end_addr < uaddr then kNaClBadAddress
       else if push_bit (addr_bits nap) 1 \<le> end_addr then kNaClBadAddress
       else uaddr + mem_start nap)"

definition NaClUserToSys :: "NaClApp \<Rightarrow> u64 \<Rightarrow> u64 result" where
  "NaClUserToSys nap uaddr =
     (if uaddr = 0 \<or> push_bit (addr_bits nap) 1 \<le> uaddr then Inl LogFatal
      else Inr (uaddr + mem_start nap))"

definition NaClSysToUser :: "NaClApp \<Rightarrow> u64 \<Rightarrow> u64 result" where
  "NaClSysToUser nap sysaddr =
     (if sysaddr < mem_start nap \<or> mem_start nap + push_bit (addr_bits nap) 1 \<le> sysaddr
      then Inl LogFatal else Inr (sysaddr - mem_start nap))"

definition NaClUserToSysStackAddr :: "NaClApp \<Rightarrow> u64 \<Rightarrow> u64" where
  "NaClUserToSysStackAddr nap stackaddr = stackaddr"

definition NaClSysToUserStackAddr :: "NaClApp \<Rightarrow> u64 \<Rightarrow> u64" where
  "NaClSysToUserStackAddr nap stackaddr = stackaddr"

definition NaClEndOfStaticText :: "NaClApp \<Rightarrow> u64" where
  "NaClEndOfStaticText nap = static_text_end nap"

definition NaClSandboxCodeAddr :: "NaClApp \<Rightarrow> u64 \<Rightarrow> u64" where
  "NaClSandboxCodeAddr nap addr =
     ((addr AND NOT (bundle_size nap - 1)) AND (push_bit 32 1 - 1)) + mem_start nap"

section \<open>Construction\<close>

text \<open>
  \<open>init_ok k\<close> says whether the \<open>k\<close>-th of the mutexes and condition variables can be
  initialised, \<open>no_dyn\<close> whether the environment variable that disables dynamic loading
  is set, \<open>cpu\<close> is what the CPU feature query returns. The size of the effector object
  is 16 bytes.
\<close>

definition app_cleanup :: "NaClApp \<Rightarrow> (bool \<times> NaClApp) result" where
  "app_cleanup nap =
     rbind (NaClVmmapDtor (mem_map nap)) (\<lambda>vm.
       Inr (False, nap\<lparr>mem_map := vm, desc_tbl := DynArrayDtor (desc_tbl nap),
                       threads := DynArrayDtor (threads nap)\<rparr>))"

definition NaClAppWithSyscallTableCtor ::
  "(nat \<Rightarrow> bool) \<Rightarrow> (nat \<Rightarrow> bool) \<Rightarrow> bool \<Rightarrow> nat \<Rightarrow> NaClApp \<Rightarrow> (bool \<times> NaClApp) result" where
  "NaClAppWithSyscallTableCtor mal init_ok no_dyn cpu nap0 =
    (let nap = nap0\<lparr>addr_bits := NACL_MAX_ADDR_BITS, stack_size := NACL_DEFAULT_STACK_MAX,
                    mem_start := 0, dispatch_thunk := 0, cpu_features := cpu,
                    enable_dfa_validator := False, fixed_feature_cpu_mode := False,
                    static_text_end := 0, dynamic_text_start := 0, dynamic_text_end := 0,
                    rodata_start := 0, data_start := 0, data_end := 0,
                    initial_entry_pt := 0, user_entry_pt := 0\<rparr>;
         (ok, t) = DynArrayCtor mal (threads nap) 2; nap = nap\<lparr>threads := t\<rparr> in
     if \<not> ok then Inr (False, nap)
     else let (ok, t) = DynArrayCtor mal (desc_tbl nap) 2; nap = nap\<lparr>desc_tbl := t\<rparr> in
     if \<not> ok then Inr (False, nap\<lparr>threads := DynArrayDtor (threads nap)\<rparr>)
     else let (ok, vm) = NaClVmmapCtor mal (mem_map nap); nap = nap\<lparr>mem_map := vm\<rparr> in
     if \<not> ok then Inr (False, nap\<lparr>desc_tbl := DynArrayDtor (desc_tbl nap),
                                  threads := DynArrayDtor (threads nap)\<rparr>)
     else if \<not> mal 16 then app_cleanup nap
     else let nap = nap\<lparr>use_shm_for_dynamic_text := \<not> no_dyn, text_shm := None\<rparr> in
     if \<not> init_ok 0 then app_cleanup nap
     else let nap = nap\<lparr>dynamic_page_bitmap := None, dynamic_regions := [],
                        dynamic_regions_allocated := 0, dynamic_delete_generation := 0,
                        dynamic_mapcache_offset := 0, dynamic_mapcache_size := 0,
                        dynamic_mapcache_ret := 0\<rparr> in
     if \<not> init_ok 1 \<or> \<not> init_ok 2 then app_cleanup nap
     else let nap = nap\<lparr>module_load_status := LOAD_STATUS_UNKNOWN, module_may_start := False,
                        ignore_validator_result := False, skip_validator := False,
                        validator_stub_out_mode := False\<rparr> in
     if \<not> init_ok 3 \<or> \<not> init_ok 4 \<or> \<not> init_ok 5 then app_cleanup nap
     else Inr (True, nap\<lparr>exit_status := - 1, enable_debug_stub := False\<rparr>))"

definition NaClAppCtor ::
  "(nat \<Rightarrow> bool) \<Rightarrow> (nat \<Rightarrow> bool) \<Rightarrow> bool \<Rightarrow> nat \<Rightarrow> NaClApp \<Rightarrow> (bool \<times> NaClApp) result" where
  "NaClAppCtor = NaClAppWithSyscallTableCtor"

section \<open>Memory\<close>

type_synonym memory = "u64 \<Rightarrow> u8"

text \<open>\<open>memcpy\<close> and \<open>memset\<close> of \<open>n\<close> bytes.\<close>

definition mem_copy :: "u64 \<Rightarrow> u64 \<Rightarrow> u64 \<Rightarrow> memory \<Rightarrow> memory" where
  "mem_copy dst src n m = (\<lambda>a. if a - dst < n then m (src + (a - dst)) else m a)"

definition mem_set :: "u64 \<Rightarrow> u8 \<Rightarrow> u64 \<Rightarrow> memory \<Rightarrow> memory" where
  "mem_set dst b n m = (\<lambda>a. if a - dst < n then b else m a)"

text \<open>The loop of \<open>NaClLoadMem\<close>, from the last byte to the first.\<close>

primrec load_loop :: "memory \<Rightarrow> u64 \<Rightarrow> nat \<Rightarrow> u64 \<Rightarrow> u64" where
  "load_loop m addr 0 val = val"
| "load_loop m addr (Suc k) val =
     load_loop m addr k (push_bit 8 val OR ucast (m (addr + of_nat k)))"

definition NaClLoadMem :: "memory \<Rightarrow> u64 \<Rightarrow> nat \<Rightarrow> u64 result" where
  "NaClLoadMem m addr user_nbytes =
     (if \<not> (user_nbytes \<noteq> 0 \<and> user_nbytes \<le> 8) then Inl CheckFailed
      else Inr (load_loop m addr user_nbytes 0))"

definition NaClLoad64 :: "memory \<Rightarrow> u64 \<Rightarrow> u64 result" where
  "NaClLoad64 m addr = NaClLoadMem m addr 8"

fun store_loop :: "memory \<Rightarrow> u64 \<Rightarrow> nat \<Rightarrow> nat \<Rightarrow> u64 \<Rightarrow> memory" where
  "store_loop m addr i 0 val = m"
| "store_loop m addr i (Suc r) val =
     store_loop (m(addr + of_nat i := ucast val)) addr (Suc i) r (drop_bit 8 val)"

definition NaClStoreMem :: "memory \<Rightarrow> u64 \<Rightarrow> nat \<Rightarrow> u64 \<Rightarrow> memory result" where
  "NaClStoreMem m addr nb val =
     (if \<not> nb \<le> 8 then Inl CheckFailed else Inr (store_loop m addr 0 nb val))"

definition NaClStore16 :: "memory \<Rightarrow> u64 \<Rightarrow> u16 \<Rightarrow> memory result" where
  "NaClStore16 m addr v = NaClStoreMem m addr 2 (ucast v)"

definition NaClStore32 :: "memory \<Rightarrow> u64 \<Rightarrow> u32 \<Rightarrow> memory result" where
  "NaClStore32 m addr v = NaClStoreMem m addr 4 (ucast v)"

definition NaClStore64 :: "memory \<Rightarrow> u64 \<Rightarrow> u64 \<Rightarrow> memory result" where
  "NaClStore64 m addr v = NaClStoreMem m addr 8 v"

section \<open>Patching and trampolines\<close>

record NaClPatch =
  target :: u64
  patch_value :: u64

record NaClPatchInfo =
  dst :: u64
  src :: u64
  patch_nbytes :: u64
  abs16 :: "NaClPatch list"
  abs32 :: "NaClPatch list"
  abs64 :: "NaClPatch list"
  rel64 :: "u64 list"

definition NaClPatchInfoCtor :: NaClPatchInfo where
  "NaClPatchInfoCtor =
     \<lparr>dst = 0, src = 0, patch_nbytes = 0, abs16 = [], abs32 = [], abs64 = [], rel64 = []\<rparr>"

text \<open>A loop over patches that may stop.\<close>

fun patch_loop :: "('p \<Rightarrow> memory \<Rightarrow> memory result) \<Rightarrow> 'p list \<Rightarrow> memory \<Rightarrow> memory result" where
  "patch_loop f [] m = Inr m"
| "patch_loop f (p # ps) m = rbind (f p m) (patch_loop f ps)"

definition NaClApplyPatchToMemory :: "NaClPatchInfo \<Rightarrow> memory \<Rightarrow> memory result" where
  "NaClApplyPatchToMemory patch m0 =
    (let m = mem_copy (dst patch) (src patch) (patch_nbytes patch) m0;
         reloc = dst patch - src patch;
         at = (\<lambda>t. dst patch + (t - src patch)) in
     rbind (patch_loop (\<lambda>p m. NaClStore64 m (at (target p)) (patch_value p)) (abs64 patch) m) (\<lambda>m.
     rbind (patch_loop (\<lambda>p m. NaClStore32 m (at (target p)) (ucast (patch_value p))) (abs32 patch) m) (\<lambda>m.
     rbind (patch_loop (\<lambda>p m. NaClStore16 m (at (target p)) (ucast (patch_value p))) (abs16 patch) m) (\<lambda>m.
     patch_loop (\<lambda>t m. rbind (NaClLoad64 m (at t)) (\<lambda>v. NaClStore64 m (at t) (v - reloc)))
       (rel64 patch) m))))"

definition NACL_HALT_OPCODE :: u8 where "NACL_HALT_OPCODE = 0xf4"

text \<open>\<open>NACL_HALT_LEN\<close> is 1.\<close>

definition NaClFillMemoryRegionWithHalt :: "u64 \<Rightarrow> u64 \<Rightarrow> memory \<Rightarrow> memory result" where
  "NaClFillMemoryRegionWithHalt start n m =
     (if n mod 1 \<noteq> 0 then Inl CheckFailed else Inr (mem_set start NACL_HALT_OPCODE n m))"

definition NaClFillTrampolineRegion :: "NaClApp \<Rightarrow> memory \<Rightarrow> memory result" where
  "NaClFillTrampolineRegion nap m =
     NaClFillMemoryRegionWithHalt (mem_start nap + NACL_TRAMPOLINE_START) NACL_TRAMPOLINE_SIZE m"

text \<open>
  The code templates are in the memory of the process; \<open>templates\<close> gives the addresses
  of their labels (assembly symbols).
\<close>

record templates =
  NaCl_trampoline_code :: u64
  NaCl_trampoline_code_end :: u64
  NaCl_trampoline_call_target :: u64
  NaClDispatchThunk :: u64
  NaClDispatchThunkEnd :: u64
  NaClDispatchThunk_jmp_target :: u64
  NaClSyscallSeg :: u64

definition NaClMakeDispatchThunk ::
  "host \<Rightarrow> templates \<Rightarrow> NaClApp \<Rightarrow> memory \<Rightarrow> (bool \<times> NaClApp \<times> memory) result" where
  "NaClMakeDispatchThunk h tm nap m =
    (if dispatch_thunk nap \<noteq> 0 then Inr (True, nap, m)
     else let (err, thunk_addr) = NaCl_page_alloc_randomized h NACL_MAP_PAGESIZE;
         failed = (\<lambda>m. rbind (NaCl_page_free h thunk_addr NACL_MAP_PAGESIZE) (\<lambda>_. Inr (False, nap, m))) in
       if err \<noteq> 0 then failed m
       else if NaCl_mprotect h thunk_addr NACL_MAP_PAGESIZE (PROT_READ OR PROT_WRITE) \<noteq> 0
         then failed m
         else rbind (NaClFillMemoryRegionWithHalt thunk_addr NACL_MAP_PAGESIZE m) (\<lambda>m.
           let jmp_target = \<lparr>target = NaClDispatchThunk_jmp_target tm - 8,
                             patch_value = NaClSyscallSeg tm\<rparr>;
               patch_info = NaClPatchInfoCtor\<lparr>abs64 := [jmp_target], dst := thunk_addr,
                 src := NaClDispatchThunk tm,
                 patch_nbytes := NaClDispatchThunkEnd tm - NaClDispatchThunk tm\<rparr> in
           rbind (NaClApplyPatchToMemory patch_info m) (\<lambda>m.
             if NaCl_mprotect h thunk_addr NACL_MAP_PAGESIZE (PROT_EXEC OR PROT_READ) \<noteq> 0
             then failed m
             else Inr (True, nap\<lparr>dispatch_thunk := thunk_addr\<rparr>, m))))"

definition NaClPatchOneTrampoline :: "templates \<Rightarrow> NaClApp \<Rightarrow> u64 \<Rightarrow> memory \<Rightarrow> memory result" where
  "NaClPatchOneTrampoline tm nap target_addr m =
    (if dispatch_thunk nap = 0 then Inl CheckFailed
     else NaClApplyPatchToMemory
       (NaClPatchInfoCtor\<lparr>
          abs64 := [\<lparr>target = NaCl_trampoline_call_target tm - 8, patch_value = dispatch_thunk nap\<rparr>],
          dst := target_addr, src := NaCl_trampoline_code tm,
          patch_nbytes := NaCl_trampoline_code_end tm - NaCl_trampoline_code tm\<rparr>) m)"

definition num_syscalls :: nat where
  "num_syscalls =
     unat ((NACL_TRAMPOLINE_END - NACL_SYSCALL_START_ADDR) div NACL_SYSCALL_BLOCK_SIZE - 1)"

fun trampoline_loop :: "templates \<Rightarrow> NaClApp \<Rightarrow> nat \<Rightarrow> u64 \<Rightarrow> memory \<Rightarrow> memory result" where
  "trampoline_loop tm nap 0 addr m = Inr m"
| "trampoline_loop tm nap (Suc k) addr m =
     rbind (NaClPatchOneTrampoline tm nap addr m)
       (trampoline_loop tm nap k (addr + NACL_SYSCALL_BLOCK_SIZE))"

definition NaClLoadTrampoline ::
  "host \<Rightarrow> templates \<Rightarrow> NaClApp \<Rightarrow> memory \<Rightarrow> (NaClApp \<times> memory) result" where
  "NaClLoadTrampoline h tm nap m =
     rbind (NaClMakeDispatchThunk h tm nap m) (\<lambda>(ok, nap, m).
       if \<not> ok then Inl LogFatal
       else rbind (NaClFillTrampolineRegion nap m) (\<lambda>m.
         rbind (trampoline_loop tm nap num_syscalls (mem_start nap + NACL_SYSCALL_START_ADDR) m) (\<lambda>m.
           Inr (nap, m))))"

section \<open>The descriptor table\<close>

text \<open>
  The index is an \<open>int\<close>, converted to \<open>size_t\<close>. \<open>None\<close> is a store that never returns.
\<close>

definition NaClGetDescMu :: "NaClApp \<Rightarrow> int \<Rightarrow> nat option" where
  "NaClGetDescMu nap d = DynArrayGet (desc_tbl nap) (word_of_int d)"

definition NaClSetDescMu ::
  "(nat \<Rightarrow> bool) \<Rightarrow> NaClApp \<Rightarrow> int \<Rightarrow> nat option \<Rightarrow> NaClApp result option" where
  "NaClSetDescMu mal nap d nd =
    (case DynArraySet mal (desc_tbl nap) (word_of_int d) nd of
       None \<Rightarrow> None
     | Some r \<Rightarrow> Some (rbind r (\<lambda>(ok, t).
         if \<not> ok then Inl LogFatal else Inr (nap\<lparr>desc_tbl := t\<rparr>))))"

definition NaClSetAvailMu ::
  "(nat \<Rightarrow> bool) \<Rightarrow> NaClApp \<Rightarrow> nat option \<Rightarrow> (int \<times> NaClApp) result option" where
  "NaClSetAvailMu mal nap nd =
    (case DynArrayFirstAvail (desc_tbl nap) of
       Inl e \<Rightarrow> Some (Inl e)
     | Inr (pos, t) \<Rightarrow>
         let nap = nap\<lparr>desc_tbl := t\<rparr> in
         if 2 ^ 31 - 1 < uint pos then Some (Inl LogFatal)
         else case NaClSetDescMu mal nap (uint pos) nd of
                None \<Rightarrow> None
              | Some r \<Rightarrow> Some (rbind r (\<lambda>nap. Inr (uint pos, nap))))"

definition NaClGetDesc :: "NaClApp \<Rightarrow> int \<Rightarrow> nat option" where
  "NaClGetDesc = NaClGetDescMu"

definition NaClSetAvail ::
  "(nat \<Rightarrow> bool) \<Rightarrow> NaClApp \<Rightarrow> nat option \<Rightarrow> (int \<times> NaClApp) result option" where
  "NaClSetAvail = NaClSetAvailMu"

end
