(* ===== verification/Sandbox.thy ===== *)
theory Sandbox
  imports SelLdr
begin

text \<open>
  What the application object guarantees: addresses the system calls accept lie in the
  sandbox, construction establishes the invariants of the tables, patches write only
  where they should, the trampoline region holds what it should, and a new descriptor
  never replaces another.
\<close>

section \<open>Address translation\<close>

definition app_ok :: "NaClApp \<Rightarrow> bool" where
  "app_ok nap \<longleftrightarrow> addr_bits nap < 64 \<and> unat (mem_start nap) + 2 ^ addr_bits nap < 2 ^ 64"

lemma unat_exp64 [simp]: "k < 64 \<Longrightarrow> unat (2 ^ k :: u64) = 2 ^ k"
proof -
  assume "k < 64"
  then have "(2::nat) ^ k < 2 ^ 64" by (intro power_strict_increasing) simp_all
  moreover have "unat (of_nat (2 ^ k) :: u64) = 2 ^ k mod 2 ^ 64" by (subst unat_of_nat) simp
  ultimately show ?thesis by simp
qed

locale translation =
  fixes ok :: "'a \<Rightarrow> bool" and base :: "'a \<Rightarrow> nat" and span :: "'a \<Rightarrow> nat"
    and range_of :: "'a \<Rightarrow> u64 \<Rightarrow> u64 \<Rightarrow> u64" and bad :: u64
  assumes fits: "ok a \<Longrightarrow> base a + span a < 2 ^ 64"
    and accepts: "ok a \<Longrightarrow> range_of a u n \<noteq> bad \<longleftrightarrow> 0 < unat u \<and> unat u + unat n < span a"
    and result: "ok a \<Longrightarrow> range_of a u n \<noteq> bad \<Longrightarrow> unat (range_of a u n) = base a + unat u"
begin

lemma inside:
  assumes "ok a" "range_of a u n \<noteq> bad" "i \<le> unat n"
  shows "base a < unat (range_of a u n) + i" "unat (range_of a u n) + i < base a + span a"
  using result [OF assms(1,2)] accepts [OF assms(1)] assms(2,3) by auto

lemma disjoint:
  assumes "ok a" "range_of a u n \<noteq> bad" "range_of a v m \<noteq> bad"
    and "unat u + unat n \<le> unat v"
  shows "unat (range_of a u n) + unat n \<le> unat (range_of a v m)"
  using result [OF assms(1,2)] result [OF assms(1,3)] assms(4) by simp

end

lemma Range_accepts:
  assumes "app_ok nap"
  shows "NaClUserToSysAddrRange nap u n \<noteq> kNaClBadAddress \<longleftrightarrow>
           0 < unat u \<and> unat u + unat n < 2 ^ addr_bits nap"
    and "NaClUserToSysAddrRange nap u n \<noteq> kNaClBadAddress \<Longrightarrow>
           unat (NaClUserToSysAddrRange nap u n) = unat (mem_start nap) + unat u"
proof -
  have k: "addr_bits nap < 64" and ms: "unat (mem_start nap) + 2 ^ addr_bits nap < 2 ^ 64"
    using assms by (simp_all add: app_ok_def)
  have bad: "unat kNaClBadAddress = 2 ^ 64 - 1" 
    by (simp add: kNaClBadAddress_def unsigned_minus_1_eq_mask mask_eq_exp_minus_1)
  have val: "unat (u + mem_start nap) = unat (mem_start nap) + unat u"
    "u + mem_start nap \<noteq> kNaClBadAddress" if "unat u < 2 ^ addr_bits nap"
  proof -
    show eq: "unat (u + mem_start nap) = unat (mem_start nap) + unat u"
      using that ms by (subst unat_plus_nowrap) simp_all
    have "unat (u + mem_start nap) \<noteq> unat kNaClBadAddress" using eq bad that ms by linarith
    then show "u + mem_start nap \<noteq> kNaClBadAddress" by auto
  qed
  have r: "NaClUserToSysAddrRange nap u n =
      (if 0 < unat u \<and> unat u + unat n < 2 ^ addr_bits nap then u + mem_start nap else kNaClBadAddress)"
  proof (cases "unat u + unat n < 2 ^ 64")
    case True
    then have "unat (u + n) = unat u + unat n" by (simp add: unat_plus_nowrap)
    then show ?thesis
      by (auto simp: NaClUserToSysAddrRange_def Let_def word_less_nat_alt word_le_nat_alt k unat_eq_0)
  next
    case False
    then have "unat (u + n) = unat u + unat n - 2 ^ 64" by (simp add: unat_plus_if')
    moreover have "\<not> unat u + unat n < 2 ^ addr_bits nap" using False ms by linarith
    ultimately show ?thesis using False unat_lt64 [of n]
      by (auto simp: NaClUserToSysAddrRange_def Let_def word_less_nat_alt)
  qed
  show "NaClUserToSysAddrRange nap u n \<noteq> kNaClBadAddress \<longleftrightarrow>
           0 < unat u \<and> unat u + unat n < 2 ^ addr_bits nap"
    using val r by auto
  show "unat (NaClUserToSysAddrRange nap u n) = unat (mem_start nap) + unat u"
    if "NaClUserToSysAddrRange nap u n \<noteq> kNaClBadAddress"
    using that val r by (auto split: if_splits)
qed

interpretation nap: translation app_ok "\<lambda>nap. unat (mem_start nap)" "\<lambda>nap. 2 ^ addr_bits nap"
  NaClUserToSysAddrRange kNaClBadAddress
  by unfold_locales (use Range_accepts in \<open>auto simp: app_ok_def\<close>)

lemma IsUserAddr_iff:
  assumes "app_ok nap"
  shows "NaClIsUserAddr nap a \<longleftrightarrow>
           unat (mem_start nap) \<le> unat a \<and> unat a < unat (mem_start nap) + 2 ^ addr_bits nap"
proof -
  have "unat (mem_start nap + push_bit (addr_bits nap) 1) = unat (mem_start nap) + 2 ^ addr_bits nap"
    using assms by (subst unat_plus_nowrap) (simp_all add: app_ok_def)
  then show ?thesis by (simp add: NaClIsUserAddr_def word_le_nat_alt word_less_nat_alt)
qed

lemma user_sys_user:
  assumes "app_ok nap"
  shows "NaClUserToSys nap u = Inr s \<longleftrightarrow> 0 < unat u \<and> unat u < 2 ^ addr_bits nap \<and> s = u + mem_start nap"
    and "NaClUserToSys nap u = Inr s \<Longrightarrow> NaClSysToUser nap s = Inr u"
    and "NaClSysToUser nap s = Inr u \<Longrightarrow> unat u < 2 ^ addr_bits nap \<and> s = u + mem_start nap"
proof -
  have k: "addr_bits nap < 64" and ms: "unat (mem_start nap) + 2 ^ addr_bits nap < 2 ^ 64"
    using assms by (simp_all add: app_ok_def)
  have e: "unat (mem_start nap + push_bit (addr_bits nap) 1) = unat (mem_start nap) + 2 ^ addr_bits nap"
    using k ms by (subst unat_plus_nowrap) simp_all
  show 1: "NaClUserToSys nap u = Inr s \<longleftrightarrow> 0 < unat u \<and> unat u < 2 ^ addr_bits nap \<and> s = u + mem_start nap" for s
    using k by (auto simp: NaClUserToSys_def word_le_nat_alt unat_gt_0)
  show "NaClSysToUser nap s = Inr u" if "NaClUserToSys nap u = Inr s"
  proof -
    have "unat s = unat (mem_start nap) + unat u" "s = u + mem_start nap" "unat u < 2 ^ addr_bits nap"
      using that ms unfolding 1 by (auto simp: unat_plus_nowrap)
    then show ?thesis using e by (simp add: NaClSysToUser_def word_le_nat_alt word_less_nat_alt)
  qed
  show "unat u < 2 ^ addr_bits nap \<and> s = u + mem_start nap" if "NaClSysToUser nap s = Inr u"
  proof -
    have "mem_start nap \<le> s" "s < mem_start nap + push_bit (addr_bits nap) 1" "u = s - mem_start nap"
      using that by (auto simp: NaClSysToUser_def split: if_splits)
    then show ?thesis using e by (auto simp: word_le_nat_alt word_less_nat_alt unat_sub)
  qed
qed

section \<open>Construction\<close>

lemma VmmapCtor_inv: "NaClVmmapCtor mal vm = (True, vm') \<Longrightarrow> vm_inv vm' \<and> nvalid vm' = 0"
  by (auto simp: NaClVmmapCtor_def Let_def vm_inv_def vm_shape_def ents_def ents_ok_def START_ENTRIES_def
      split: if_splits)

lemma AppCtor_spec:
  assumes "NaClAppCtor mal init_ok no_dyn cpu nap = Inr (True, nap')"
  shows "vm_inv (mem_map nap') \<and> dyn_wf (desc_tbl nap') \<and> dyn_wf (threads nap') \<and>
    app_ok nap' \<and> addr_bits nap' = 32 \<and> dynamic_regions nap' = [] \<and>
    \<not> skip_validator nap' \<and> \<not> ignore_validator_result nap' \<and> \<not> validator_stub_out_mode nap' \<and>
    \<not> fixed_feature_cpu_mode nap' \<and> \<not> enable_debug_stub nap'"
  using assms
  by (auto simp: NaClAppCtor_def NaClAppWithSyscallTableCtor_def app_cleanup_def Let_def rbind_eq_Inr
      app_ok_def NACL_MAX_ADDR_BITS_def
      dest: dyn_ctor VmmapCtor_inv split: prod.splits if_splits)

section \<open>Loads and stores\<close>

text \<open>The little-endian value of \<open>n\<close> bytes.\<close>

primrec le_value :: "memory \<Rightarrow> u64 \<Rightarrow> nat \<Rightarrow> u64" where
  "le_value m addr 0 = 0"
| "le_value m addr (Suc k) = le_value m addr k OR push_bit (8 * k) (ucast (m (addr + of_nat k)))"

lemma load_loop_eq: "load_loop m addr n val = push_bit (8 * n) val OR le_value m addr n"
  by (induction n arbitrary: val) (simp_all add: push_bit_or or.assoc or.commute or.left_commute add.commute)

lemma NaClLoadMem_eq:
  "NaClLoadMem m addr n = (if n = 0 \<or> 8 < n then Inl CheckFailed else Inr (le_value m addr n))"
  by (auto simp: NaClLoadMem_def load_loop_eq)

lemma offset_eq_iff: "i < 2 ^ 64 \<Longrightarrow> a = addr + of_nat i \<longleftrightarrow> unat (a - addr) = i" for a addr :: u64
proof -
  assume "i < 2 ^ 64"
  then have i: "unat (of_nat i :: u64) = i" by (simp add: unat_of_nat)
  have "a = addr + of_nat i \<longleftrightarrow> a - addr = of_nat i" by (auto simp: algebra_simps)
  also have "\<dots> \<longleftrightarrow> unat (a - addr) = i" using i by (auto simp: word_unat_eq_iff)
  finally show ?thesis .
qed

text \<open>A store of \<open>n\<close> bytes writes exactly the \<open>n\<close> bytes from its address on.\<close>

lemma store_loop_at:
  "i + r \<le> 2 ^ 64 \<Longrightarrow> store_loop m addr i r val a =
     (if i \<le> unat (a - addr) \<and> unat (a - addr) < i + r
      then ucast (drop_bit (8 * (unat (a - addr) - i)) val) else m a)"
proof (induction r arbitrary: i m val)
  case (Suc r)
  have IH: "store_loop m' addr (Suc i) r v a =
      (if Suc i \<le> unat (a - addr) \<and> unat (a - addr) < Suc i + r
       then ucast (drop_bit (8 * (unat (a - addr) - Suc i)) v) else m' a)" for m' v
    using Suc by simp
  show ?case
  proof (cases "unat (a - addr) = i")
    case True
    then have "a = addr + of_nat i" using offset_eq_iff [of i a addr] Suc.prems by simp
    then show ?thesis using True IH by simp
  next
    case False
    then have "a \<noteq> addr + of_nat i" using offset_eq_iff [of i a addr] Suc.prems by simp
    moreover have "8 + 8 * (d - Suc i) = 8 * (d - i)" if "Suc i \<le> d" for d using that by simp
    ultimately show ?thesis using False IH by (auto simp: drop_bit_drop_bit add.commute)
  qed
qed auto

lemma NaClStoreMem_eq:
  assumes "n \<le> 8"
  shows "NaClStoreMem m addr n val =
    Inr (\<lambda>a. if unat (a - addr) < n then ucast (drop_bit (8 * unat (a - addr)) val) else m a)"
  using assms by (auto simp: NaClStoreMem_def store_loop_at fun_eq_iff)

lemma le_value_bytes:
  assumes "\<And>k. k < n \<Longrightarrow> m (addr + of_nat k) = ucast (drop_bit (8 * k) val)"
  shows "le_value m addr n = take_bit (8 * n) val"
  using assms
proof (induction n)
  case (Suc n)
  have "le_value m addr (Suc n) = take_bit (8 * n) val OR push_bit (8 * n) (ucast (ucast (drop_bit (8 * n) val) :: u8))"
    using Suc by simp
  also have "\<dots> = take_bit (8 * Suc n) val"
    by (rule bit_eqI) (auto simp: bit_simps)
  finally show ?case .
qed simp

lemma load_store:
  assumes "0 < n" "n \<le> 8"
  shows "rbind (NaClStoreMem m addr n val) (\<lambda>m'. NaClLoadMem m' addr n) = Inr (take_bit (8 * n) val)"
proof -
  have off: "unat (addr + of_nat k - addr) = k" if "k < n" for k :: nat
    using that assms by (simp add: unat_of_nat)
  show ?thesis
    using assms off by (simp add: NaClStoreMem_eq NaClLoadMem_eq) (intro le_value_bytes, simp)
qed

section \<open>Patches and trampolines\<close>

text \<open>One absolute 64-bit patch inside the copied block, as both callers make it.\<close>

definition patched :: "NaClPatchInfo \<Rightarrow> NaClPatch \<Rightarrow> memory \<Rightarrow> memory" where
  "patched pi p m = (\<lambda>a.
     if unat (a - (dst pi + (target p - src pi))) < 8
     then ucast (drop_bit (8 * unat (a - (dst pi + (target p - src pi)))) (patch_value p))
     else if a - dst pi < patch_nbytes pi then m (src pi + (a - dst pi)) else m a)"

lemma ApplyPatch_one:
  assumes "abs64 pi = [p]" "abs32 pi = []" "abs16 pi = []" "rel64 pi = []"
  shows "NaClApplyPatchToMemory pi m = Inr (patched pi p m)"
  using assms by (simp add: NaClApplyPatchToMemory_def Let_def NaClStore64_def NaClStoreMem_eq
      mem_copy_def patched_def)

text \<open>What a patch writes, in general: nothing outside the copied block.\<close>

definition patch_inside :: "NaClPatchInfo \<Rightarrow> bool" where
  "patch_inside pi \<longleftrightarrow>
     (\<forall>p \<in> set (abs64 pi). unat (target p - src pi) + 8 \<le> unat (patch_nbytes pi)) \<and>
     (\<forall>p \<in> set (abs32 pi). unat (target p - src pi) + 4 \<le> unat (patch_nbytes pi)) \<and>
     (\<forall>p \<in> set (abs16 pi). unat (target p - src pi) + 2 \<le> unat (patch_nbytes pi)) \<and>
     (\<forall>t \<in> set (rel64 pi). unat (t - src pi) + 8 \<le> unat (patch_nbytes pi))"

lemma patch_loop_keeps:
  assumes "\<And>p m. p \<in> set ps \<Longrightarrow> \<exists>m'. f p m = Inr m' \<and> (\<forall>a. P a \<longrightarrow> m' a = m a)"
  shows "\<exists>m'. patch_loop f ps m = Inr m' \<and> (\<forall>a. P a \<longrightarrow> m' a = m a)"
  using assms
proof (induction ps arbitrary: m)
  case (Cons p ps)
  obtain m1 where m1: "f p m = Inr m1" "\<forall>a. P a \<longrightarrow> m1 a = m a" using Cons.prems [of p m] by auto
  obtain m2 where "patch_loop f ps m1 = Inr m2" "\<forall>a. P a \<longrightarrow> m2 a = m1 a"
    using Cons.IH [of m1] Cons.prems by auto
  then show ?case using m1 by auto
qed simp

lemma inside_offset:
  fixes a d t s n :: u64
  assumes "unat (t - s) + w \<le> unat n" "\<not> a - d < n"
  shows "\<not> unat (a - (d + (t - s))) < w"
proof
  define x where "x = a - (d + (t - s))"
  assume "unat (a - (d + (t - s))) < w"
  then have lt: "unat x + unat (t - s) < unat n" using assms(1) by (simp add: x_def)
  have "a - d = x + (t - s)" by (simp add: x_def algebra_simps)
  moreover have "unat (x + (t - s)) = unat x + unat (t - s)"
    using lt unat_lt64 [of n] by (intro unat_plus_nowrap) simp
  ultimately show False using assms(2) lt by (simp add: word_less_nat_alt)
qed

text \<open>The bytes that the patches themselves overwrite, wherever their targets are.\<close>

definition patch_writes :: "NaClPatchInfo \<Rightarrow> u64 \<Rightarrow> bool" where
  "patch_writes pi a \<longleftrightarrow>
     (\<exists>p \<in> set (abs64 pi). unat (a - (dst pi + (target p - src pi))) < 8) \<or>
     (\<exists>p \<in> set (abs32 pi). unat (a - (dst pi + (target p - src pi))) < 4) \<or>
     (\<exists>p \<in> set (abs16 pi). unat (a - (dst pi + (target p - src pi))) < 2) \<or>
     (\<exists>t \<in> set (rel64 pi). unat (a - (dst pi + (t - src pi))) < 8)"

lemma ApplyPatch_footprint:
  "\<exists>m'. NaClApplyPatchToMemory pi m = Inr m' \<and> (\<forall>a. \<not> patch_writes pi a \<longrightarrow>
     m' a = (if a - dst pi < patch_nbytes pi then m (src pi + (a - dst pi)) else m a))"
proof -
  let ?P = "\<lambda>a. \<not> patch_writes pi a" and ?at = "\<lambda>t. dst pi + (t - src pi)"
  let ?m0 = "mem_copy (dst pi) (src pi) (patch_nbytes pi) m"
  have st: "\<exists>m'. NaClStoreMem m x w v = Inr m' \<and> (\<forall>a. ?P a \<longrightarrow> m' a = m a)"
    if "w \<le> 8" "\<And>a. unat (a - x) < w \<Longrightarrow> patch_writes pi a" for m x w v
    using that by (auto simp: NaClStoreMem_eq)
  have win: "p \<in> set (abs64 pi) \<Longrightarrow> unat (a - ?at (target p)) < 8 \<Longrightarrow> patch_writes pi a"
    "p \<in> set (abs32 pi) \<Longrightarrow> unat (a - ?at (target p)) < 4 \<Longrightarrow> patch_writes pi a"
    "p \<in> set (abs16 pi) \<Longrightarrow> unat (a - ?at (target p)) < 2 \<Longrightarrow> patch_writes pi a"
    "t \<in> set (rel64 pi) \<Longrightarrow> unat (a - ?at t) < 8 \<Longrightarrow> patch_writes pi a" for p t a
    by (auto simp: patch_writes_def)
  obtain m1 where 1: "patch_loop (\<lambda>p m. NaClStore64 m (?at (target p)) (patch_value p)) (abs64 pi) ?m0 = Inr m1"
    "\<forall>a. ?P a \<longrightarrow> m1 a = ?m0 a"
    by (atomize_elim, rule patch_loop_keeps) (simp add: NaClStore64_def, rule st, simp, erule (1) win(1))
  obtain m2 where 2: "patch_loop (\<lambda>p m. NaClStore32 m (?at (target p)) (ucast (patch_value p))) (abs32 pi) m1 = Inr m2"
    "\<forall>a. ?P a \<longrightarrow> m2 a = m1 a"
    by (atomize_elim, rule patch_loop_keeps) (simp add: NaClStore32_def, rule st, simp, erule (1) win(2))
  obtain m3 where 3: "patch_loop (\<lambda>p m. NaClStore16 m (?at (target p)) (ucast (patch_value p))) (abs16 pi) m2 = Inr m3"
    "\<forall>a. ?P a \<longrightarrow> m3 a = m2 a"
    by (atomize_elim, rule patch_loop_keeps) (simp add: NaClStore16_def, rule st, simp, erule (1) win(3))
  have ld: "\<exists>v. NaClLoad64 m x = Inr v" for m x by (simp add: NaClLoad64_def NaClLoadMem_eq)
  obtain m4 where 4: "patch_loop (\<lambda>t m. rbind (NaClLoad64 m (?at t))
      (\<lambda>v. NaClStore64 m (?at t) (v - (dst pi - src pi)))) (rel64 pi) m3 = Inr m4"
    "\<forall>a. ?P a \<longrightarrow> m4 a = m3 a"
  proof (atomize_elim, rule patch_loop_keeps)
    fix t m
    assume t: "t \<in> set (rel64 pi)"
    obtain v where "NaClLoad64 m (?at t) = Inr v" using ld by blast
    then show "\<exists>m'. rbind (NaClLoad64 m (?at t)) (\<lambda>v. NaClStore64 m (?at t) (v - (dst pi - src pi))) = Inr m' \<and>
        (\<forall>a. ?P a \<longrightarrow> m' a = m a)"
      using st [of 8 "?at t"] win(4) [OF t] by (simp add: NaClStore64_def)
  qed
  show ?thesis using 1 2 3 4 by (auto simp: NaClApplyPatchToMemory_def Let_def mem_copy_def)
qed

lemma ApplyPatch_frame:
  assumes "patch_inside pi"
  shows "\<exists>m'. NaClApplyPatchToMemory pi m = Inr m' \<and>
    (\<forall>a. \<not> a - dst pi < patch_nbytes pi \<longrightarrow> m' a = m a)"
proof -
  have "\<not> patch_writes pi a" if "\<not> a - dst pi < patch_nbytes pi" for a
    using assms that inside_offset unfolding patch_inside_def patch_writes_def by blast
  then show ?thesis using ApplyPatch_footprint [of pi m] by auto
qed

text \<open>
  The bytes of a trampoline: the template, with the address of the dispatch thunk in
  the eight bytes before the label of the call target.
\<close>

definition tramp_len :: "templates \<Rightarrow> u64" where
  "tramp_len tm = NaCl_trampoline_code_end tm - NaCl_trampoline_code tm"

definition tramp_hole :: "templates \<Rightarrow> u64" where
  "tramp_hole tm = NaCl_trampoline_call_target tm - 8 - NaCl_trampoline_code tm"

definition tramp_byte :: "templates \<Rightarrow> u64 \<Rightarrow> memory \<Rightarrow> u64 \<Rightarrow> u8" where
  "tramp_byte tm thunk m off =
     (if unat (off - tramp_hole tm) < 8
      then ucast (drop_bit (8 * unat (off - tramp_hole tm)) thunk)
      else m (NaCl_trampoline_code tm + off))"

definition templates_ok :: "templates \<Rightarrow> bool" where
  "templates_ok tm \<longleftrightarrow> unat (tramp_hole tm) + 8 \<le> unat (tramp_len tm) \<and> unat (tramp_len tm) \<le> 32"

lemma PatchOne_eq:
  assumes tm: "templates_ok tm" and thunk: "dispatch_thunk nap \<noteq> 0"
  shows "NaClPatchOneTrampoline tm nap A m =
    Inr (\<lambda>a. if a - A < tramp_len tm then tramp_byte tm (dispatch_thunk nap) m (a - A) else m a)"
proof -
  have hole: "\<not> unat (a - A - tramp_hole tm) < 8" if "\<not> a - A < tramp_len tm" for a
    using inside_offset [of "tramp_hole tm" 0 8 "tramp_len tm" a A] that tm
    by (simp add: templates_ok_def diff_diff_add)
  have eq: "a - (A + (NaCl_trampoline_call_target tm - 8 - NaCl_trampoline_code tm)) = a - A - tramp_hole tm" for a
    by (simp add: tramp_hole_def)
  show ?thesis
    using thunk hole unfolding NaClPatchOneTrampoline_def
    by (subst ApplyPatch_one [where p = "\<lparr>target = NaCl_trampoline_call_target tm - 8,
            patch_value = dispatch_thunk nap\<rparr>"])
      (simp_all add: NaClPatchInfoCtor_def patched_def tramp_byte_def tramp_len_def fun_eq_iff eq)
qed

text \<open>The loop fills slot after slot of 32 bytes, leaving the rest of each as it is.\<close>

definition tramp_slots :: "templates \<Rightarrow> u64 \<Rightarrow> u64 \<Rightarrow> nat \<Rightarrow> memory \<Rightarrow> memory" where
  "tramp_slots tm thunk A k m = (\<lambda>a.
     if unat (a - A) < 32 * k \<and> unat (a - A) mod 32 < unat (tramp_len tm)
     then tramp_byte tm thunk m (of_nat (unat (a - A) mod 32)) else m a)"

lemma tramp_slots_Suc:
  assumes tm: "templates_ok tm" and k: "32 * Suc k < 2 ^ 64"
    and away: "\<And>x. unat x < unat (tramp_len tm) \<Longrightarrow> 32 * Suc k \<le> unat (NaCl_trampoline_code tm + x - A)"
  shows "tramp_slots tm thunk (A + 32) k
      (\<lambda>a. if a - A < tramp_len tm then tramp_byte tm thunk m (a - A) else m a) =
    tramp_slots tm thunk A (Suc k) m"
proof
  fix a
  define d where "d = unat (a - A)"
  have len: "unat (tramp_len tm) \<le> 32" using tm by (simp add: templates_ok_def)
  let ?m1 = "\<lambda>a. if a - A < tramp_len tm then tramp_byte tm thunk m (a - A) else m a"
  have tb: "tramp_byte tm thunk ?m1 x = tramp_byte tm thunk m x" if "unat x < unat (tramp_len tm)" for x
  proof -
    have "\<not> NaCl_trampoline_code tm + x - A < tramp_len tm"
      using away [OF that] len by (simp add: word_less_nat_alt)
    then show ?thesis by (simp add: tramp_byte_def)
  qed
  show "tramp_slots tm thunk (A + 32) k ?m1 a = tramp_slots tm thunk A (Suc k) m a"
  proof (cases "d < 32")
    case True
    have "unat (a - (A + 32)) = 2 ^ 64 + d - 32"
      using True by (simp add: d_def diff_diff_add [symmetric] unat_sub_if')
    then have big: "\<not> unat (a - (A + 32)) < 32 * k" using k by simp
    have "of_nat (d mod 32) = a - A" using True by (simp add: d_def)
    then show ?thesis using big True by (auto simp: tramp_slots_def d_def [symmetric] word_less_nat_alt)
  next
    case False
    then have u: "unat (a - (A + 32)) = d - 32"
      by (simp add: d_def diff_diff_add [symmetric] unat_sub word_le_nat_alt)
    have md: "(d - 32) mod 32 = d mod 32" using False by (simp add: le_mod_geq)
    have s: "unat (of_nat (d mod 32) :: u64) = d mod 32" by (simp add: unat_of_nat)
    have "\<not> a - A < tramp_len tm" using False len by (simp add: d_def word_less_nat_alt)
    then show ?thesis
      using False u md s tb by (auto simp: tramp_slots_def d_def [symmetric])
  qed
qed

lemma trampoline_loop_eq:
  assumes tm: "templates_ok tm" and thunk: "dispatch_thunk nap \<noteq> 0"
  shows "32 * k < 2 ^ 64 \<Longrightarrow>
    (\<And>x. unat x < unat (tramp_len tm) \<Longrightarrow> 32 * k \<le> unat (NaCl_trampoline_code tm + x - A)) \<Longrightarrow>
    trampoline_loop tm nap k A m = Inr (tramp_slots tm (dispatch_thunk nap) A k m)"
proof (induction k arbitrary: A m)
  case 0
  then show ?case by (simp add: tramp_slots_def)
next
  case (Suc k)
  have "32 * k \<le> unat (NaCl_trampoline_code tm + x - (A + 32))" if "unat x < unat (tramp_len tm)" for x
  proof -
    have "32 \<le> unat (NaCl_trampoline_code tm + x - A)" using Suc.prems(2) [OF that] by simp
    then have "unat (NaCl_trampoline_code tm + x - (A + 32)) = unat (NaCl_trampoline_code tm + x - A) - 32"
      by (simp add: diff_diff_add [symmetric] unat_sub word_le_nat_alt)
    then show ?thesis using Suc.prems(2) [OF that] by simp
  qed
  then show ?case
    using Suc tramp_slots_Suc [OF tm Suc.prems(1,2)]
    by (simp add: PatchOne_eq [OF tm thunk] NACL_SYSCALL_BLOCK_SIZE_def)
qed

text \<open>The thunk page and the trampoline region do not hold the trampoline template.\<close>

definition thunk_ok :: "templates \<Rightarrow> bool" where
  "thunk_ok tm \<longleftrightarrow>
     unat (NaClDispatchThunk_jmp_target tm - 8 - NaClDispatchThunk tm) + 8 \<le>
       unat (NaClDispatchThunkEnd tm - NaClDispatchThunk tm) \<and>
     unat (NaClDispatchThunkEnd tm - NaClDispatchThunk tm) \<le> 65536"

definition template_away :: "templates \<Rightarrow> u64 \<Rightarrow> bool" where
  "template_away tm A \<longleftrightarrow>
     (\<forall>x. unat x < unat (tramp_len tm) \<longrightarrow> 65536 \<le> unat (NaCl_trampoline_code tm + x - A))"

lemma num_syscalls_eq: "num_syscalls = 2047"
  by code_simp

lemma MakeDispatchThunk_spec:
  assumes "dispatch_thunk nap = 0" "NaCl_page_alloc_randomized h NACL_MAP_PAGESIZE = (0, t)"
    and "NaCl_mprotect h t NACL_MAP_PAGESIZE (PROT_READ OR PROT_WRITE) = 0"
      "NaCl_mprotect h t NACL_MAP_PAGESIZE (PROT_EXEC OR PROT_READ) = 0"
    and ok: "thunk_ok tm"
  shows "\<exists>m'. NaClMakeDispatchThunk h tm nap m = Inr (True, nap\<lparr>dispatch_thunk := t\<rparr>, m') \<and>
    (\<forall>a. 65536 \<le> unat (a - t) \<longrightarrow> m' a = m a)"
proof -
  let ?pi = "NaClPatchInfoCtor\<lparr>abs64 := [\<lparr>target = NaClDispatchThunk_jmp_target tm - 8,
      patch_value = NaClSyscallSeg tm\<rparr>], dst := t, src := NaClDispatchThunk tm,
      patch_nbytes := NaClDispatchThunkEnd tm - NaClDispatchThunk tm\<rparr>"
  let ?m1 = "mem_set t NACL_HALT_OPCODE NACL_MAP_PAGESIZE m"
  have "patch_inside ?pi" using ok by (simp add: patch_inside_def NaClPatchInfoCtor_def thunk_ok_def)
  from ApplyPatch_frame [OF this, of ?m1] obtain m' where
    m': "NaClApplyPatchToMemory ?pi ?m1 = Inr m'" "\<forall>a. \<not> a - t < patch_nbytes ?pi \<longrightarrow> m' a = ?m1 a"
    by auto
  have fr: "m' a = m a" if "65536 \<le> unat (a - t)" for a
    using m'(2) that ok by (simp add: mem_set_def word_less_nat_alt thunk_ok_def NACL_MAP_PAGESIZE_def)
  have "NaClMakeDispatchThunk h tm nap m = Inr (True, nap\<lparr>dispatch_thunk := t\<rparr>, m')"
    using assms(1-4) m'(1) by (simp add: NaClMakeDispatchThunk_def NaClFillMemoryRegionWithHalt_def Let_def)
  then show ?thesis using fr by blast
qed

lemma tramp_byte_cong:
  "(\<And>x. unat x < unat (tramp_len tm) \<Longrightarrow> m' (NaCl_trampoline_code tm + x) = m (NaCl_trampoline_code tm + x)) \<Longrightarrow>
   unat x < unat (tramp_len tm) \<Longrightarrow> tramp_byte tm thunk m' x = tramp_byte tm thunk m x"
  by (simp add: tramp_byte_def)

lemma LoadTrampoline_spec:
  assumes h: "dispatch_thunk nap = 0" "NaCl_page_alloc_randomized h NACL_MAP_PAGESIZE = (0, t)" "t \<noteq> 0"
      "NaCl_mprotect h t NACL_MAP_PAGESIZE (PROT_READ OR PROT_WRITE) = 0"
      "NaCl_mprotect h t NACL_MAP_PAGESIZE (PROT_EXEC OR PROT_READ) = 0"
    and tm: "templates_ok tm" "thunk_ok tm" "template_away tm t"
      "template_away tm (mem_start nap + NACL_TRAMPOLINE_START)"
  defines "A \<equiv> mem_start nap + NACL_TRAMPOLINE_START"
  shows "\<exists>m'. NaClLoadTrampoline h tm nap m = Inr (nap\<lparr>dispatch_thunk := t\<rparr>, m') \<and>
    (\<forall>a. unat (a - A) < 65536 \<longrightarrow>
       m' a = (if unat (a - A) < 32 * 2047 \<and> unat (a - A) mod 32 < unat (tramp_len tm)
               then tramp_byte tm t m (of_nat (unat (a - A) mod 32)) else NACL_HALT_OPCODE)) \<and>
    (\<forall>a. 65536 \<le> unat (a - A) \<and> 65536 \<le> unat (a - t) \<longrightarrow> m' a = m a)"
proof -
  let ?nap = "nap\<lparr>dispatch_thunk := t\<rparr>"
  obtain m1 where m1: "NaClMakeDispatchThunk h tm nap m = Inr (True, ?nap, m1)"
    "\<forall>a. 65536 \<le> unat (a - t) \<longrightarrow> m1 a = m a"
    using MakeDispatchThunk_spec [OF h(1,2,4,5) tm(2)] by blast
  let ?m2 = "mem_set A NACL_HALT_OPCODE NACL_TRAMPOLINE_SIZE m1"
  have A2: "mem_start nap + NACL_SYSCALL_START_ADDR = A"
    by (simp add: A_def NACL_SYSCALL_START_ADDR_def NACL_TRAMPOLINE_START_def)
  have m2: "NaClFillTrampolineRegion ?nap m1 = Inr ?m2"
    by (simp add: NaClFillTrampolineRegion_def NaClFillMemoryRegionWithHalt_def A_def)
  have "trampoline_loop tm ?nap 2047 A ?m2 = Inr (tramp_slots tm (dispatch_thunk ?nap) A 2047 ?m2)"
  proof (rule trampoline_loop_eq [OF tm(1)])
    show "32 * 2047 \<le> unat (NaCl_trampoline_code tm + x - A)" if "unat x < unat (tramp_len tm)" for x
      using tm(4) [unfolded template_away_def, rule_format, OF that] by (simp add: A_def)
  qed (use h(3) in simp_all)
  then have lt: "NaClLoadTrampoline h tm nap m = Inr (?nap, tramp_slots tm t A 2047 ?m2)"
    using m1(1) m2 A2 by (simp add: NaClLoadTrampoline_def num_syscalls_eq)
  have halt: "?m2 a = (if unat (a - A) < 65536 then NACL_HALT_OPCODE else m1 a)" for a
    by (simp add: mem_set_def word_less_nat_alt NACL_TRAMPOLINE_SIZE_def)
  have code: "?m2 (NaCl_trampoline_code tm + x) = m (NaCl_trampoline_code tm + x)"
    if "unat x < unat (tramp_len tm)" for x
    using tm(3,4) m1(2) that halt by (auto simp: template_away_def A_def)
  have tb: "tramp_byte tm t ?m2 (of_nat (k mod 32)) = tramp_byte tm t m (of_nat (k mod 32))"
    if "k mod 32 < unat (tramp_len tm)" for k
    by (rule tramp_byte_cong) (use code that in \<open>simp_all add: unat_of_nat\<close>)
  show ?thesis using lt halt tb m1(2) by (auto simp: tramp_slots_def)
qed

section \<open>Descriptors\<close>

lemma word_of_int_slot: "0 \<le> d \<Longrightarrow> d < 2 ^ 31 \<Longrightarrow> unat (word_of_int d :: u64) = nat d"
  by (simp add: unat_eq_nat_uint uint_word_of_int)

lemma uint_slot: "0 \<le> d \<Longrightarrow> d < 2 ^ 31 \<Longrightarrow> uint (word_of_int d :: u64) = d"
  by (simp add: uint_word_of_int)

lemma SetAvail_spec:
  assumes wf: "dyn_wf (desc_tbl nap)" and mal: "\<forall>n. mal n"
    and room: "\<exists>j. 0 \<le> j \<and> j < 2 ^ 31 \<and> NaClGetDesc nap j = None"
  shows "\<exists>pos nap'. NaClSetAvail mal nap (Some d) = Some (Inr (pos, nap')) \<and> 0 \<le> pos \<and> pos < 2 ^ 31 \<and>
    dyn_wf (desc_tbl nap') \<and> NaClGetDesc nap pos = None \<and>
    (\<forall>j. 0 \<le> j \<and> j < pos \<longrightarrow> NaClGetDesc nap j \<noteq> None) \<and>
    (\<forall>j. 0 \<le> j \<and> j < 2 ^ 31 \<longrightarrow> NaClGetDesc nap' j = (if j = pos then Some d else NaClGetDesc nap j))"
proof -
  obtain r t where f: "DynArrayFirstAvail (desc_tbl nap) = Inr (r, t)" "dyn_wf t"
    "DynArrayGet (desc_tbl nap) r = None" "\<forall>i. DynArrayGet t i = DynArrayGet (desc_tbl nap) i"
    "\<forall>i < r. DynArrayGet (desc_tbl nap) i \<noteq> None"
    by (rule dyn.fresh_slot [OF wf])
  obtain j where j: "0 \<le> j" "j < 2 ^ 31" "DynArrayGet (desc_tbl nap) (word_of_int j) = None"
    using room by (auto simp: NaClGetDesc_def NaClGetDescMu_def)
  have "\<not> word_of_int j < r" using f(5) j(3) by blast
  then have r: "unat r < 2 ^ 31" using word_of_int_slot [OF j(1,2)] j(1,2) by (simp add: word_less_nat_alt)
  have ui: "uint r = int (unat r)" by (rule uint_nat)
  have ur: "uint r < 2 ^ 31" 
    unfolding ui using r of_nat_less_iff [of "unat r" "2 ^ 31", where 'a = int]
    by (simp only: of_nat_power of_nat_numeral)
  obtain t' where s: "DynArraySet mal t r (Some d) = Some (Inr (True, t'))" "dyn_wf t'"
    "dyn_map t' = (dyn_map t)(unat r := Some d)"
    using dyn_set_total [OF f(2), of r mal "Some d"] r mal by auto
  let ?nap = "nap\<lparr>desc_tbl := t'\<rparr>"
  have get: "DynArrayGet t' i = (if i = r then Some d else DynArrayGet (desc_tbl nap) i)" for i
    using s(2,3) f(2) dyn.get_content [OF s(2)] dyn.get_content [OF f(2)] f(4)
    by (auto simp: word_unat_eq_iff)
  have eq: "NaClSetAvail mal nap (Some d) = Some (Inr (uint r, ?nap))"
    using f(1) s(1) ur by (simp add: NaClSetAvail_def NaClSetAvailMu_def NaClSetDescMu_def Let_def)
  have idx: "word_of_int k = r \<longleftrightarrow> k = uint r" if "0 \<le> k" "k < 2 ^ 31" for k
    using uint_slot [OF that] by auto
  have low: "word_of_int k < r" if "0 \<le> k" "k < uint r" for k
    unfolding word_less_def using uint_slot [of k] that ur by simp
  have gd: "NaClGetDesc nap k = DynArrayGet (desc_tbl nap) (word_of_int k)"
    "NaClGetDesc ?nap k = DynArrayGet t' (word_of_int k)" for k
    by (simp_all add: NaClGetDesc_def NaClGetDescMu_def)
  have "NaClGetDesc nap (uint r) = None" using f(3) by (simp add: gd)
  moreover have "\<forall>k. 0 \<le> k \<and> k < uint r \<longrightarrow> NaClGetDesc nap k \<noteq> None"
    unfolding gd by (intro allI impI f(5) [rule_format] low) auto
  moreover have "\<forall>k. 0 \<le> k \<and> k < 2 ^ 31 \<longrightarrow>
      NaClGetDesc ?nap k = (if k = uint r then Some d else NaClGetDesc nap k)"
    unfolding gd get using idx by (intro allI impI if_cong) auto
  moreover have "dyn_wf (desc_tbl ?nap)" "0 \<le> uint r" using s(2) by simp_all
  ultimately show ?thesis using eq ur by blast
qed

section \<open>Properties of the sandbox\<close>

text \<open>An application of 32 address bits at 4G, for the witnesses.\<close>

definition nap_example :: NaClApp where
  "nap_example = \<lparr>addr_bits = 32, stack_size = 0x1000000, mem_start = 0x100000000, dispatch_thunk = 0,
     static_text_end = 0x30000, dynamic_text_start = 0x30000, dynamic_text_end = 0x50000,
     rodata_start = 0x50000, data_start = 0x60000, data_end = 0x70000,
     initial_entry_pt = 0x20000, user_entry_pt = 0, bundle_size = 32,
     module_load_status = LOAD_OK, module_may_start = True, mem_map = vm_example,
     use_shm_for_dynamic_text = True, text_shm = None, dynamic_page_bitmap = None,
     dynamic_regions = [], dynamic_regions_allocated = 0, dynamic_delete_generation = 0,
     dynamic_mapcache_offset = 0, dynamic_mapcache_size = 0, dynamic_mapcache_ret = 0,
     exit_status = 0, ignore_validator_result = False, skip_validator = False,
     validator_stub_out_mode = False, break_addr = 0x70000,
     threads = \<lparr>num_entries = 0, ptr_array = [None, None], ptr_array_space = 2, available = [0], avail_ix = 0\<rparr>,
     desc_tbl = \<lparr>num_entries = 0, ptr_array = [None, None], ptr_array_space = 2, available = [0], avail_ix = 0\<rparr>,
     enable_debug_stub = False, skip_qualification = False, handle_signals = True, user_side_flag = True,
     enable_dfa_validator = False, fixed_feature_cpu_mode = False, cpu_features = 0, sys_tls = 0\<rparr>"

lemma nap_example_ok: "app_ok nap_example"
  by (simp add: app_ok_def nap_example_def)

text \<open>
  C15. A range of user addresses that \<open>NaClUserToSysAddrRange\<close> accepts starts above 0 and ends
  below the top of the sandbox, and every byte of its translation, as well as the one
  after, is an address of the sandbox.
\<close>

theorem UserToSysAddrRange_in_sandbox:
  assumes "app_ok nap" "NaClUserToSysAddrRange nap uaddr cnt \<noteq> kNaClBadAddress"
  shows "0 < unat uaddr \<and> unat uaddr + unat cnt < 2 ^ addr_bits nap \<and>
    (\<forall>i \<le> cnt. NaClIsUserAddr nap (NaClUserToSysAddrRange nap uaddr cnt + i))"
proof (intro conjI allI impI)
  show "0 < unat uaddr" "unat uaddr + unat cnt < 2 ^ addr_bits nap"
    using nap.accepts [OF assms(1)] assms(2) by auto
  fix i assume "i \<le> cnt"
  then have i: "unat i \<le> unat cnt" by (simp add: word_le_nat_alt)
  note ins = nap.inside [OF assms i]
  have "unat (NaClUserToSysAddrRange nap uaddr cnt + i) = unat (NaClUserToSysAddrRange nap uaddr cnt) + unat i"
    using ins(2) nap.fits [OF assms(1)] by (intro unat_plus_nowrap) simp
  then show "NaClIsUserAddr nap (NaClUserToSysAddrRange nap uaddr cnt + i)"
    using ins by (simp add: IsUserAddr_iff [OF assms(1)])
qed

theorem UserToSysAddrRange_in_sandbox_witness:
  "NaClIsUserAddr nap_example (NaClUserToSysAddrRange nap_example 0x20000 16 + 15)"
proof -
  have "NaClUserToSysAddrRange nap_example 0x20000 16 \<noteq> kNaClBadAddress" by code_simp
  then show ?thesis using UserToSysAddrRange_in_sandbox [OF nap_example_ok, of "0x20000" 16] by auto
qed

text \<open>
  C16. Where \<open>NaClUserToSys\<close> does not stop the process, \<open>NaClSysToUser\<close> takes its result back
  to the user address, and that result is an address of the sandbox.
\<close>

theorem UserToSys_roundtrip:
  assumes "app_ok nap" "NaClUserToSys nap u = Inr s"
  shows "NaClSysToUser nap s = Inr u \<and> NaClIsUserAddr nap s"
proof -
  have "unat u < 2 ^ addr_bits nap" "s = u + mem_start nap" using user_sys_user(1) [OF assms(1)] assms(2) by auto
  moreover from this have "unat s = unat (mem_start nap) + unat u"
    using assms(1) by (simp add: app_ok_def unat_plus_nowrap)
  ultimately show ?thesis using user_sys_user(2) [OF assms] by (simp add: IsUserAddr_iff [OF assms(1)])
qed

theorem UserToSys_roundtrip_witness:
  "NaClUserToSys nap_example 0x20000 = Inr 0x100020000 \<and> NaClSysToUser nap_example 0x100020000 = Inr 0x20000"
proof -
  have "NaClUserToSys nap_example 0x20000 = Inr 0x100020000" by code_simp
  then show ?thesis using UserToSys_roundtrip [OF nap_example_ok] by blast
qed

lemma SandboxCodeAddr_in:
  assumes "app_ok nap" "addr_bits nap = 32" "bundle_size nap = 2 ^ k" "k < 64" "2 ^ k dvd unat (mem_start nap)"
  shows "NaClIsUserAddr nap (NaClSandboxCodeAddr nap addr) \<and> 2 ^ k dvd unat (NaClSandboxCodeAddr nap addr)"
proof -
  let ?x = "(addr AND NOT (mask k)) AND mask 32 :: u64"
  have "unat ?x = (unat addr - unat addr mod 2 ^ k) mod 2 ^ 32" by (simp add: unat_and_not_mask)
  then have lt: "unat ?x < 2 ^ 32" by simp
  have m: "bundle_size nap - 1 = mask k" "push_bit 32 1 - 1 = (mask 32 :: u64)"
    using assms(3) by (simp_all add: mask_eq_exp_minus_1)
  have s: "NaClSandboxCodeAddr nap addr = ?x + mem_start nap" by (simp only: NaClSandboxCodeAddr_def m)
  have u: "unat (?x + mem_start nap) = unat ?x + unat (mem_start nap)"
    using lt assms(1,2) by (intro unat_plus_nowrap) (simp add: app_ok_def)
  have "?x AND mask k = 0" by (rule bit_eqI) (auto simp: bit_simps)
  then have "2 ^ k dvd unat ?x" by (metis dvd_eq_mod_eq_0 unat_0 unat_and_mask)
  then show ?thesis using s u lt assms by (simp add: IsUserAddr_iff [OF assms(1)])
qed

text \<open>
  C17. \<open>NaClSandboxCodeAddr\<close> turns any value into a bundle-aligned address of the sandbox.
\<close>

theorem SandboxCodeAddr_safe:
  assumes "app_ok nap" "addr_bits nap = 32" "bundle_size nap = 2 ^ k" "k < 64" "2 ^ k dvd unat (mem_start nap)"
  shows "NaClIsUserAddr nap (NaClSandboxCodeAddr nap addr) \<and> 2 ^ k dvd unat (NaClSandboxCodeAddr nap addr)"
  using assms by (rule SandboxCodeAddr_in)

theorem SandboxCodeAddr_safe_witness:
  "NaClIsUserAddr nap_example (NaClSandboxCodeAddr nap_example 0xdeadbeefcafe1234)"
  using SandboxCodeAddr_safe [OF nap_example_ok, of 5 "0xdeadbeefcafe1234"] by (simp add: nap_example_def)

text \<open>
  C18. A successful \<open>NaClAppCtor\<close> establishes the invariants of the memory map and of the
  descriptor table, and switches every validator option off, whatever it was before.
\<close>

theorem NaClAppCtor_establishes:
  assumes "NaClAppCtor mal init_ok no_dyn cpu nap = Inr (True, nap')"
  shows "vm_inv (mem_map nap') \<and> dyn_wf (desc_tbl nap') \<and> dyn_wf (threads nap') \<and>
    app_ok nap' \<and> addr_bits nap' = 32 \<and> dynamic_regions nap' = [] \<and>
    \<not> skip_validator nap' \<and> \<not> ignore_validator_result nap' \<and> \<not> validator_stub_out_mode nap' \<and>
    \<not> fixed_feature_cpu_mode nap' \<and> \<not> enable_debug_stub nap'"
  using assms by (rule AppCtor_spec)

theorem NaClAppCtor_establishes_witness:
  "\<exists>nap'. NaClAppCtor (\<lambda>_. True) (\<lambda>_. True) False 0 (nap_example\<lparr>skip_validator := True\<rparr>) = Inr (True, nap') \<and>
     vm_inv (mem_map nap') \<and> \<not> skip_validator nap'"
proof -
  have "\<exists>nap'. NaClAppCtor (\<lambda>_. True) (\<lambda>_. True) False 0 (nap_example\<lparr>skip_validator := True\<rparr>) = Inr (True, nap')"
    by (simp add: NaClAppCtor_def NaClAppWithSyscallTableCtor_def DynArrayCtor_def NaClVmmapCtor_def
        START_ENTRIES_def BitsToAllocWords_def SIZE_T_MAX_def Let_def)
  then show ?thesis using NaClAppCtor_establishes by blast
qed

text \<open>
  C19. \<open>NaClApplyPatchToMemory\<close> always returns, and it writes the block it copies to and the two, four or
  eight bytes at the place of each patch, and nothing else: a byte that no patch covers is the
  copied byte inside the block and unchanged outside. It does not test that the patches lie in the
  block; that its callers see to it is part of the property on the trampolines.
\<close>

theorem ApplyPatchToMemory_frame:
  "\<exists>m'. NaClApplyPatchToMemory pi m = Inr m' \<and> (\<forall>a. \<not> patch_writes pi a \<longrightarrow>
     m' a = (if a - dst pi < patch_nbytes pi then m (src pi + (a - dst pi)) else m a))"
  by (rule ApplyPatch_footprint)

theorem ApplyPatchToMemory_frame_witness:
  "\<exists>m'. NaClApplyPatchToMemory \<lparr>dst = 100, src = 200, patch_nbytes = 16, abs16 = [], abs32 = [],
      abs64 = [\<lparr>target = 204, patch_value = 1\<rparr>], rel64 = [200]\<rparr> (\<lambda>a. if a = 213 then 7 else 0) = Inr m' \<and>
    m' 113 = 7 \<and> m' 116 = 0"
proof -
  let ?pi = "\<lparr>dst = 100, src = 200, patch_nbytes = 16, abs16 = [], abs32 = [],
      abs64 = [\<lparr>target = 204, patch_value = 1\<rparr>], rel64 = [200]\<rparr>"
  have "\<not> patch_writes ?pi 113" "\<not> patch_writes ?pi 116" by (simp_all add: patch_writes_def)
  with ApplyPatchToMemory_frame [of ?pi "\<lambda>a. if a = 213 then 7 else 0"] show ?thesis by auto
qed

text \<open>
  C20. \<open>NaClLoadTrampoline\<close>: with the host's calls succeeding it returns, and in the trampoline
  region each of the first 2047 slots of 32 bytes holds the trampoline code with the
  address of the dispatch thunk in its call, every other byte is a halt instruction
  (the rest of each slot and the whole last slot), and no memory outside the region
  and the thunk page changes.
\<close>

theorem NaClLoadTrampoline_correct:
  assumes "dispatch_thunk nap = 0" "NaCl_page_alloc_randomized h NACL_MAP_PAGESIZE = (0, t)" "t \<noteq> 0"
      "NaCl_mprotect h t NACL_MAP_PAGESIZE (PROT_READ OR PROT_WRITE) = 0"
      "NaCl_mprotect h t NACL_MAP_PAGESIZE (PROT_EXEC OR PROT_READ) = 0"
    and "templates_ok tm" "thunk_ok tm" "template_away tm t"
      "template_away tm (mem_start nap + NACL_TRAMPOLINE_START)"
  defines "A \<equiv> mem_start nap + NACL_TRAMPOLINE_START"
  shows "\<exists>m'. NaClLoadTrampoline h tm nap m = Inr (nap\<lparr>dispatch_thunk := t\<rparr>, m') \<and>
    (\<forall>a. unat (a - A) < 65536 \<longrightarrow>
       m' a = (if unat (a - A) < 32 * 2047 \<and> unat (a - A) mod 32 < unat (tramp_len tm)
               then tramp_byte tm t m (of_nat (unat (a - A) mod 32)) else NACL_HALT_OPCODE)) \<and>
    (\<forall>a. 65536 \<le> unat (a - A) \<and> 65536 \<le> unat (a - t) \<longrightarrow> m' a = m a)"
  unfolding A_def using assms(1-9) by (rule LoadTrampoline_spec)

definition tm_example :: templates where
  "tm_example = \<lparr>NaCl_trampoline_code = 0x1000, NaCl_trampoline_code_end = 0x100d,
     NaCl_trampoline_call_target = 0x100a, NaClDispatchThunk = 0x2000, NaClDispatchThunkEnd = 0x2010,
     NaClDispatchThunk_jmp_target = 0x200a, NaClSyscallSeg = 0x5000\<rparr>"

lemma tm_example_away:
  assumes "unat A \<ge> 0x200000" "unat A < 2 ^ 40"
  shows "template_away tm_example A"
  unfolding template_away_def
proof (intro allI impI)
  fix x :: u64 assume "unat x < unat (tramp_len tm_example)"
  then have "unat x < 13" by (simp add: tramp_len_def tm_example_def)
  then have "unat (0x1000 + x) = 0x1000 + unat x" by (subst unat_plus_nowrap) simp_all
  then show "65536 \<le> unat (NaCl_trampoline_code tm_example + x - A)"
    using assms \<open>unat x < 13\<close> by (simp add: tm_example_def unat_sub_if')
qed

theorem NaClLoadTrampoline_correct_witness:
  "\<exists>m'. NaClLoadTrampoline host_example tm_example nap_example (\<lambda>_. 0) =
      Inr (nap_example\<lparr>dispatch_thunk := 0x200000\<rparr>, m') \<and> m' 0x10001FFFF = 0xf4"
proof -
  have A: "mem_start nap_example + NACL_TRAMPOLINE_START = 0x100010000"
    by (simp add: nap_example_def NACL_TRAMPOLINE_START_def)
  have t: "template_away tm_example 0x200000" "template_away tm_example 0x100010000"
    by (rule tm_example_away; simp)+
  have k: "templates_ok tm_example" "thunk_ok tm_example"
    by (simp_all add: templates_ok_def thunk_ok_def tramp_hole_def tramp_len_def tm_example_def)
  have d: "dispatch_thunk nap_example = 0" by (simp add: nap_example_def)
  have h: "NaCl_page_alloc_randomized host_example n = (0, 0x200000)" "NaCl_mprotect host_example a n pr = 0" for a n pr
    by (rule host_example_alloc) (simp add: NaCl_mprotect_def host_example_def)
  have nz: "(0x200000 :: u64) \<noteq> 0" by simp
  note T = NaClLoadTrampoline_correct [OF d h(1) nz h(2,2) k t(1), unfolded A, OF t(2), of "\<lambda>_. 0"]
  from T obtain m' where m': "NaClLoadTrampoline host_example tm_example nap_example (\<lambda>_. 0) =
      Inr (nap_example\<lparr>dispatch_thunk := 0x200000\<rparr>, m')"
    "\<forall>a. unat (a - 0x100010000) < 65536 \<longrightarrow>
       m' a = (if unat (a - 0x100010000) < 32 * 2047 \<and> unat (a - 0x100010000) mod 32 < unat (tramp_len tm_example)
               then tramp_byte tm_example 0x200000 (\<lambda>_. 0) (of_nat (unat (a - 0x100010000) mod 32))
               else NACL_HALT_OPCODE)"
    by (elim exE conjE)
  have "unat (0x10001FFFF - 0x100010000 :: u64) = 65535" by simp
  then have "m' 0x10001FFFF = 0xf4" using m'(2) [rule_format, of "0x10001FFFF"] by (simp add: NACL_HALT_OPCODE_def)
  then show ?thesis using m'(1) by blast
qed

text \<open>
  C21. \<open>NaClSetAvail\<close> puts a descriptor into the least free slot of the table and returns its
  index, leaving every other slot as it was, when some slot an \<open>int\<close> can name is free.
\<close>

theorem NaClSetAvail_fresh:
  assumes "dyn_wf (desc_tbl nap)" "\<forall>n. mal n" "\<exists>j. 0 \<le> j \<and> j < 2 ^ 31 \<and> NaClGetDesc nap j = None"
  shows "\<exists>pos nap'. NaClSetAvail mal nap (Some d) = Some (Inr (pos, nap')) \<and> 0 \<le> pos \<and> pos < 2 ^ 31 \<and>
    dyn_wf (desc_tbl nap') \<and> NaClGetDesc nap pos = None \<and>
    (\<forall>j. 0 \<le> j \<and> j < pos \<longrightarrow> NaClGetDesc nap j \<noteq> None) \<and>
    (\<forall>j. 0 \<le> j \<and> j < 2 ^ 31 \<longrightarrow> NaClGetDesc nap' j = (if j = pos then Some d else NaClGetDesc nap j))"
  using assms by (rule SetAvail_spec)

theorem NaClSetAvail_fresh_witness:
  "\<exists>pos nap'. NaClSetAvail (\<lambda>_. True) nap_example (Some 7) = Some (Inr (pos, nap')) \<and>
     NaClGetDesc nap' pos = Some 7"
proof -
  have two: "replicate 2 None = [None, None :: nat option]" by (simp add: numeral_2_eq_2)
  have "DynArrayCtor (\<lambda>_. True) (desc_tbl nap_example) 2 = (True, desc_tbl nap_example)"
    by (simp add: DynArrayCtor_def nap_example_def BitsToAllocWords_def SIZE_T_MAX_def Let_def two)
  from dyn_ctor [OF this] have "dyn_wf (desc_tbl nap_example)" by blast
  moreover have "NaClGetDesc nap_example 0 = None" by code_simp
  ultimately show ?thesis using NaClSetAvail_fresh [of nap_example "\<lambda>_. True" 7] by force
qed

end
