(* ===== verification/Shm.thy ===== *)
theory Shm
  imports Sandbox
begin

text \<open>
  The address space of the process with shared memory objects in it, and the shared memory
  descriptor (\<^verbatim>\<open>src/desc/nacl_desc_imc_shm.c\<close>) with what it calls:
  \<^verbatim>\<open>src/platform/linux/nacl_find_addrsp.c\<close> and \<^verbatim>\<open>src/imc/nacl_imc_unistd.cc\<close>.

  An address is either backed by a byte of a shared memory object or by private memory, so
  that two addresses may name the same byte. The dynamic code area depends on that: the
  program executes one mapping of the object, the runtime writes through another.
\<close>

section \<open>Address space\<close>

record aspace =
  anon :: memory
  shm_bytes :: "nat \<Rightarrow> memory"
  backing :: "u64 \<Rightarrow> (nat \<times> u64) option"
  page_prot :: "u64 \<Rightarrow> int"

definition rd :: "aspace \<Rightarrow> u64 \<Rightarrow> u8" where
  "rd s a = (case backing s a of None \<Rightarrow> anon s a | Some (d, off) \<Rightarrow> shm_bytes s d off)"

definition wr :: "u64 \<Rightarrow> u8 \<Rightarrow> aspace \<Rightarrow> aspace" where
  "wr a b s =
    (case backing s a of
       None \<Rightarrow> s\<lparr>anon := (anon s)(a := b)\<rparr>
     | Some (d, off) \<Rightarrow> s\<lparr>shm_bytes := (shm_bytes s)(d := (shm_bytes s d)(off := b))\<rparr>)"

primrec wr_bytes :: "u64 \<Rightarrow> u8 list \<Rightarrow> aspace \<Rightarrow> aspace" where
  "wr_bytes a [] s = s"
| "wr_bytes a (b # bs) s = wr_bytes (a + 1) bs (wr a b s)"

text \<open>What the system does to the address space when it maps, unmaps and protects.\<close>

definition map_shared :: "u64 \<Rightarrow> u64 \<Rightarrow> int \<Rightarrow> nat \<Rightarrow> u64 \<Rightarrow> aspace \<Rightarrow> aspace" where
  "map_shared a n prt d off s =
     s\<lparr>backing := \<lambda>x. if x - a < n then Some (d, off + (x - a)) else backing s x,
       page_prot := \<lambda>x. if x - a < n then prt else page_prot s x\<rparr>"

definition map_anon :: "u64 \<Rightarrow> u64 \<Rightarrow> int \<Rightarrow> aspace \<Rightarrow> aspace" where
  "map_anon a n prt s =
     s\<lparr>anon := mem_set a 0 n (anon s),
       backing := \<lambda>x. if x - a < n then None else backing s x,
       page_prot := \<lambda>x. if x - a < n then prt else page_prot s x\<rparr>"

definition unmap_range :: "u64 \<Rightarrow> u64 \<Rightarrow> aspace \<Rightarrow> aspace" where
  "unmap_range a n s = map_anon a n PROT_NONE s"

definition protect_range :: "u64 \<Rightarrow> u64 \<Rightarrow> int \<Rightarrow> aspace \<Rightarrow> aspace" where
  "protect_range a n prt s = s\<lparr>page_prot := \<lambda>x. if x - a < n then prt else page_prot s x\<rparr>"

definition NaClFindAddressSpace :: "host \<Rightarrow> u64 \<Rightarrow> aspace \<Rightarrow> u64 option \<times> aspace" where
  "NaClFindAddressSpace h n s =
    (case os_mmap h 0 n (MAP_ANONYMOUS OR MAP_NORESERVE OR MAP_PRIVATE) of
       None \<Rightarrow> (None, s)
     | Some a \<Rightarrow> (Some a, map_anon a n (PROT_READ OR PROT_WRITE) s))"

definition NACL_PROT_READ :: int where "NACL_PROT_READ = 0x1"
definition NACL_PROT_WRITE :: int where "NACL_PROT_WRITE = 0x2"
definition NACL_PROT_EXEC :: int where "NACL_PROT_EXEC = 0x4"
definition NACL_MAP_SHARED :: int where "NACL_MAP_SHARED = 0x1"
definition NACL_MAP_PRIVATE :: int where "NACL_MAP_PRIVATE = 0x2"
definition NACL_MAP_FIXED :: int where "NACL_MAP_FIXED = 0x4"
definition MAP_SHARED :: int where "MAP_SHARED = 0x1"

definition kPosixProt :: "int list" where
  "kPosixProt = [PROT_NONE, PROT_READ, PROT_WRITE, PROT_READ OR PROT_WRITE, PROT_EXEC,
     PROT_READ OR PROT_EXEC, PROT_WRITE OR PROT_EXEC, PROT_READ OR PROT_WRITE OR PROT_EXEC]"

definition NaClMap ::
  "host \<Rightarrow> u64 \<Rightarrow> u64 \<Rightarrow> int \<Rightarrow> int \<Rightarrow> nat \<Rightarrow> u64 \<Rightarrow> aspace \<Rightarrow> u64 option \<times> aspace" where
  "NaClMap h start n prt flags d off s =
    (let adjusted = (if flags AND NACL_MAP_SHARED \<noteq> 0 then MAP_SHARED else 0)
           OR (if flags AND NACL_MAP_PRIVATE \<noteq> 0 then MAP_PRIVATE else 0)
           OR (if flags AND NACL_MAP_FIXED \<noteq> 0 then MAP_FIXED else 0);
         host_prot = kPosixProt ! nat (prt AND 7) in
     case os_mmap_fd h start n host_prot adjusted d off of
       None \<Rightarrow> (None, s)
     | Some a \<Rightarrow> (Some a, map_shared a n host_prot d off s))"

definition NaClUnmap :: "host \<Rightarrow> u64 \<Rightarrow> u64 \<Rightarrow> aspace \<Rightarrow> int \<times> aspace" where
  "NaClUnmap h start n s = (if os_munmap_ok h start n then (0, unmap_range start n s) else (- 1, s))"

section \<open>Shared memory descriptor\<close>

definition NACL_ABI_EPERM :: int where "NACL_ABI_EPERM = 1"
definition NACL_ABI_ENOENT :: int where "NACL_ABI_ENOENT = 2"
definition NACL_ABI_EBADF :: int where "NACL_ABI_EBADF = 9"
definition NACL_ABI_ENOMEM :: int where "NACL_ABI_ENOMEM = 12"
definition NACL_ABI_EACCES :: int where "NACL_ABI_EACCES = 13"
definition NACL_ABI_EFAULT :: int where "NACL_ABI_EFAULT = 14"
definition NACL_ABI_EINVAL :: int where "NACL_ABI_EINVAL = 22"
definition NACL_ABI_ENOSYS :: int where "NACL_ABI_ENOSYS = 38"
definition NACL_ABI_EOVERFLOW :: int where "NACL_ABI_EOVERFLOW = 75"

definition NACL_ABI_E_MOVE_ADDRESS_SPACE :: int where
  "NACL_ABI_E_MOVE_ADDRESS_SPACE = - sint (0xc0000000 :: u32)"

definition NACL_ABI_PROT_NONE :: int where "NACL_ABI_PROT_NONE = 0x0"
definition NACL_ABI_PROT_READ :: int where "NACL_ABI_PROT_READ = 0x1"
definition NACL_ABI_PROT_WRITE :: int where "NACL_ABI_PROT_WRITE = 0x2"
definition NACL_ABI_PROT_EXEC :: int where "NACL_ABI_PROT_EXEC = 0x4"
definition NACL_ABI_PROT_MASK :: int where "NACL_ABI_PROT_MASK = 0x7"
definition NACL_ABI_MAP_SHARED :: int where "NACL_ABI_MAP_SHARED = 0x01"
definition NACL_ABI_MAP_PRIVATE :: int where "NACL_ABI_MAP_PRIVATE = 0x02"
definition NACL_ABI_MAP_SHARING_MASK :: int where "NACL_ABI_MAP_SHARING_MASK = 0x03"
definition NACL_ABI_MAP_FIXED :: int where "NACL_ABI_MAP_FIXED = 0x10"
definition NACL_ABI_MAP_ANONYMOUS :: int where "NACL_ABI_MAP_ANONYMOUS = 0x20"

lemmas abi_defs =
  NACL_ABI_EPERM_def NACL_ABI_ENOENT_def NACL_ABI_EBADF_def NACL_ABI_ENOMEM_def
  NACL_ABI_EACCES_def NACL_ABI_EFAULT_def NACL_ABI_EINVAL_def NACL_ABI_ENOSYS_def
  NACL_ABI_EOVERFLOW_def NACL_ABI_E_MOVE_ADDRESS_SPACE_def NACL_ABI_PROT_NONE_def
  NACL_ABI_PROT_READ_def NACL_ABI_PROT_WRITE_def NACL_ABI_PROT_EXEC_def NACL_ABI_PROT_MASK_def
  NACL_ABI_MAP_SHARED_def NACL_ABI_MAP_PRIVATE_def NACL_ABI_MAP_SHARING_MASK_def
  NACL_ABI_MAP_FIXED_def NACL_ABI_MAP_ANONYMOUS_def

definition NaClPtrIsNegErrno :: "u64 \<Rightarrow> bool" where
  "NaClPtrIsNegErrno val \<longleftrightarrow> val AND NOT 0xffff = NOT 0xffff"

text \<open>An effector: what a descriptor may ask of the runtime that maps it.\<close>

record NaClDescEffector =
  UnmapMemory :: "u64 \<Rightarrow> u64 \<Rightarrow> int"
  MapAnonymousMemory :: "u64 \<Rightarrow> u64 \<Rightarrow> int \<Rightarrow> u64 result"

record NaClDescImcShm =
  shm_h :: nat
  shm_size :: int

definition NaClDescImcShmCtor :: "nat \<Rightarrow> int \<Rightarrow> NaClDescImcShm option" where
  "NaClDescImcShmCtor fd n =
     (if n < 0 \<or> 2 ^ 64 - 1 < n then None else Some \<lparr>shm_h = fd, shm_size = n\<rparr>)"

definition NaClDescImcShmAllocCtor :: "host \<Rightarrow> int \<Rightarrow> bool \<Rightarrow> NaClDescImcShm option" where
  "NaClDescImcShmAllocCtor h n executable =
    (if n < 0 \<or> 2 ^ 64 - 1 < n then None
     else case os_shm_create h (word_of_int n) executable of
       None \<Rightarrow> None
     | Some fd \<Rightarrow> NaClDescImcShmCtor fd n)"

text \<open>One round of the mapping loop; \<open>tmp_off\<close> advances with the address.\<close>

definition shm_map_page ::
  "host \<Rightarrow> NaClDescEffector \<Rightarrow> NaClDescImcShm \<Rightarrow> int \<Rightarrow> int \<Rightarrow> int \<Rightarrow> u64 \<Rightarrow> u64 \<times> aspace \<Rightarrow>
     (u64 \<times> aspace + u64 \<times> aspace) result" where
  "shm_map_page h effp self flags nacl_imc_prot nacl_imc_flags addr = (\<lambda>(tmp_off, s).
     if UnmapMemory effp addr NACL_MAP_PAGESIZE \<noteq> 0 then Inl LogFatal
     else case NaClMap h addr NACL_MAP_PAGESIZE nacl_imc_prot nacl_imc_flags (shm_h self) tmp_off s of
       (None, s) \<Rightarrow> Inr (Inl (word_of_int (- NACL_ABI_E_MOVE_ADDRESS_SPACE), s))
     | (Some r, s) \<Rightarrow>
         if NACL_ABI_MAP_FIXED AND flags \<noteq> 0 \<and> r \<noteq> addr then Inl LogFatal
         else Inr (Inr (tmp_off + NACL_MAP_PAGESIZE, s)))"

definition NaClDescImcShmMap ::
  "host \<Rightarrow> NaClDescEffector \<Rightarrow> NaClDescImcShm \<Rightarrow> u64 \<Rightarrow> u64 \<Rightarrow> int \<Rightarrow> int \<Rightarrow> u64 \<Rightarrow> aspace \<Rightarrow>
     (u64 \<times> aspace) result" where
  "NaClDescImcShmMap h effp self start_addr n prt flags off s =
    (if NACL_ABI_MAP_SHARED \<noteq> flags AND NACL_ABI_MAP_SHARING_MASK
     then Inr (word_of_int (- NACL_ABI_EINVAL), s)
     else if NOT (NACL_ABI_PROT_READ OR NACL_ABI_PROT_WRITE OR NACL_ABI_PROT_EXEC) AND prt \<noteq> 0
     then Inr (word_of_int (- NACL_ABI_EINVAL), s)
     else
       let nacl_imc_prot = (if NACL_ABI_PROT_READ AND prt \<noteq> 0 then NACL_PROT_READ else 0)
             OR (if NACL_ABI_PROT_WRITE AND prt \<noteq> 0 then NACL_PROT_WRITE else 0)
             OR (if NACL_ABI_PROT_EXEC AND prt \<noteq> 0 then NACL_PROT_EXEC else 0);
           (found, s) = (if NACL_ABI_MAP_FIXED AND flags = 0 then NaClFindAddressSpace h n s
                         else (Some start_addr, s)) in
       case found of
         None \<Rightarrow> Inr (word_of_int (- NACL_ABI_ENOMEM), s)
       | Some start_addr \<Rightarrow>
           let nacl_imc_flags = NACL_MAP_SHARED OR NACL_MAP_FIXED;
               tmp_off64 = (off + n + NACL_MAP_PAGESIZE - 1) AND NOT (NACL_MAP_PAGESIZE - 1) in
           if 2 ^ 31 - 1 < sint tmp_off64 then Inr (word_of_int (- NACL_ABI_EOVERFLOW), s)
           else rbind (ptr_loop loop_rounds NACL_MAP_PAGESIZE
                        (shm_map_page h effp self flags nacl_imc_prot nacl_imc_flags)
                        start_addr (start_addr + n) (off, s))
                  (\<lambda>r. case r of Inl (v, s) \<Rightarrow> Inr (v, s) | Inr (_, s) \<Rightarrow> Inr (start_addr, s)))"

definition shm_unmap_page ::
  "host \<Rightarrow> NaClDescEffector \<Rightarrow> bool \<Rightarrow> u64 \<Rightarrow> aspace \<Rightarrow> (int \<times> aspace + aspace) result" where
  "shm_unmap_page h effp safe_mode addr s =
    (if \<not> safe_mode
     then case NaClUnmap h addr NACL_MAP_PAGESIZE s of (status, s) \<Rightarrow>
            if status \<noteq> 0 then Inl LogFatal else Inr (Inr s)
     else rbind (MapAnonymousMemory effp addr NACL_MAP_PAGESIZE PROT_NONE) (\<lambda>r.
            if NaClPtrIsNegErrno r then Inr (Inl (- NACL_ABI_E_MOVE_ADDRESS_SPACE, s))
            else Inr (Inr (map_anon r NACL_MAP_PAGESIZE PROT_NONE s))))"

definition NaClDescImcShmUnmapCommon ::
  "host \<Rightarrow> NaClDescEffector \<Rightarrow> u64 \<Rightarrow> u64 \<Rightarrow> bool \<Rightarrow> aspace \<Rightarrow> (int \<times> aspace) result" where
  "NaClDescImcShmUnmapCommon h effp start_addr n safe_mode s =
     rbind (ptr_loop loop_rounds NACL_MAP_PAGESIZE (shm_unmap_page h effp safe_mode)
              start_addr (start_addr + n) s)
       (\<lambda>r. case r of Inl x \<Rightarrow> Inr x | Inr s \<Rightarrow> Inr (0, s))"

definition NaClDescImcShmUnmapUnsafe ::
  "host \<Rightarrow> NaClDescEffector \<Rightarrow> u64 \<Rightarrow> u64 \<Rightarrow> aspace \<Rightarrow> (int \<times> aspace) result" where
  "NaClDescImcShmUnmapUnsafe h effp start_addr n s = NaClDescImcShmUnmapCommon h effp start_addr n False s"

definition NaClDescImcShmUnmap ::
  "host \<Rightarrow> NaClDescEffector \<Rightarrow> u64 \<Rightarrow> u64 \<Rightarrow> aspace \<Rightarrow> (int \<times> aspace) result" where
  "NaClDescImcShmUnmap h effp start_addr n s = NaClDescImcShmUnmapCommon h effp start_addr n True s"

end
