(* ===== verification/ValidateImage.thy ===== *)
theory ValidateImage
  imports Shm
begin

text \<open>
  Running the code validator over a piece of code (\<^verbatim>\<open>src/service_runtime/sel_validate_image.c\<close>).
  The validator itself is an argument: it is given the guest address, the code bytes, whether
  to stub out, whether the text is read-only and the CPU features, and returns a status and
  the bytes it leaves. The code replacement and copy validators are arguments of the same kind.
\<close>

datatype NaClValidationStatus =
    NaClValidationSucceeded
  | NaClValidationFailed
  | NaClValidationFailedOutOfMemory
  | NaClValidationFailedNotImplemented
  | NaClValidationFailedCpuNotSupported
  | NaClValidationFailedSegmentationIssue

type_synonym validator =
  "u64 \<Rightarrow> u8 list \<Rightarrow> bool \<Rightarrow> bool \<Rightarrow> nat \<Rightarrow> NaClValidationStatus \<times> u8 list"

definition NaClValidateStatus :: "NaClValidationStatus \<Rightarrow> NaClErrorCode" where
  "NaClValidateStatus status =
    (case status of
       NaClValidationSucceeded \<Rightarrow> LOAD_OK
     | NaClValidationFailedOutOfMemory \<Rightarrow> LOAD_BAD_FILE
     | _ \<Rightarrow> LOAD_VALIDATION_FAILED)"

definition NaClValidateCode ::
  "validator \<Rightarrow> NaClApp \<Rightarrow> u64 \<Rightarrow> u8 list \<Rightarrow> NaClErrorCode \<times> u8 list" where
  "NaClValidateCode validate_func nap guest_addr dat =
    (let (status, dat) =
           (if validator_stub_out_mode nap
            then validate_func guest_addr dat True False (cpu_features nap)
            else (NaClValidationSucceeded, dat));
         (status, dat) =
           (if status = NaClValidationSucceeded
            then validate_func guest_addr dat False (fixed_feature_cpu_mode nap) (cpu_features nap)
            else (status, dat)) in
     (NaClValidateStatus status, dat))"

definition NaClValidateCodeReplacement ::
  "(u64 \<Rightarrow> u8 list \<Rightarrow> u8 list \<Rightarrow> nat \<Rightarrow> NaClValidationStatus) \<Rightarrow> NaClApp \<Rightarrow> u64 \<Rightarrow> u8 list \<Rightarrow>
     u8 list \<Rightarrow> u64 \<Rightarrow> NaClErrorCode" where
  "NaClValidateCodeReplacement replacement nap guest_addr data_old data_new n =
    (if validator_stub_out_mode nap then LOAD_BAD_FILE
     else if fixed_feature_cpu_mode nap then LOAD_BAD_FILE
     else if guest_addr mod bundle_size nap \<noteq> 0 \<or> n mod bundle_size nap \<noteq> 0 then LOAD_BAD_FILE
     else NaClValidateStatus (replacement guest_addr data_old data_new (cpu_features nap)))"

definition NaClCopyCode ::
  "(u64 \<Rightarrow> u8 list \<Rightarrow> u8 list \<Rightarrow> nat \<Rightarrow> NaClValidationStatus \<times> u8 list) \<Rightarrow> NaClApp \<Rightarrow> u64 \<Rightarrow>
     u8 list \<Rightarrow> u8 list \<Rightarrow> NaClErrorCode \<times> u8 list" where
  "NaClCopyCode copier nap guest_addr data_old data_new =
    (if fixed_feature_cpu_mode nap then (LOAD_BAD_FILE, data_old)
     else let (status, dat) = copier guest_addr data_old data_new (cpu_features nap) in
       (NaClValidateStatus status, dat))"

definition mem_bytes :: "memory \<Rightarrow> u64 \<Rightarrow> u64 \<Rightarrow> u8 list" where
  "mem_bytes m a n = map (\<lambda>i. m (a + of_nat i)) [0..<unat n]"

definition mem_store :: "u64 \<Rightarrow> u8 list \<Rightarrow> memory \<Rightarrow> memory" where
  "mem_store a bs m = (\<lambda>x. if unat (x - a) < length bs then bs ! unat (x - a) else m x)"

definition NaClValidateImage ::
  "validator \<Rightarrow> NaClApp \<Rightarrow> memory \<Rightarrow> NaClErrorCode \<times> memory" where
  "NaClValidateImage v nap m =
    (let memp = mem_start nap + NACL_TRAMPOLINE_END;
         endp = mem_start nap + static_text_end nap;
         regionsize = endp - memp in
     if endp < memp then (LOAD_NO_MEMORY, m)
     else if skip_validator nap then (LOAD_OK, m)
     else let (rcode, dat) = NaClValidateCode v nap NACL_TRAMPOLINE_END (mem_bytes m memp regionsize);
              m = mem_store memp dat m in
       if rcode \<noteq> LOAD_OK
       then (if ignore_validator_result nap then (LOAD_OK, m) else (LOAD_VALIDATION_FAILED, m))
       else (rcode, m))"

lemma ValidateStatus_ok: "NaClValidateStatus st = LOAD_OK \<longleftrightarrow> st = NaClValidationSucceeded"
  by (cases st) (simp_all add: NaClValidateStatus_def)

lemma length_mem_bytes [simp]: "length (mem_bytes m a n) = unat n"
  by (simp add: mem_bytes_def)

lemma mem_store_id: "mem_store a (mem_bytes m a n) m = m"
  by (rule ext) (simp add: mem_store_def mem_bytes_def)

text \<open>
  C30. \<open>NaClValidateImage\<close>: when the switches that the debugging options set are off and stub-out
  mode is off, an image is accepted exactly when its text ends past the trampolines and the
  validator accepts the bytes between them; a validator that leaves the bytes alone leaves memory alone.
\<close>

theorem NaClValidateImage_sound:
  assumes sw: "\<not> skip_validator nap" "\<not> ignore_validator_result nap" "\<not> validator_stub_out_mode nap"
    and ok: "app_ok nap" "unat (static_text_end nap) < 2 ^ addr_bits nap" "17 \<le> addr_bits nap"
    and bytes: "bytes = mem_bytes m (mem_start nap + NACL_TRAMPOLINE_END)
                          (static_text_end nap - NACL_TRAMPOLINE_END)"
    and verdict: "v NACL_TRAMPOLINE_END bytes False (fixed_feature_cpu_mode nap) (cpu_features nap) = (st, bytes)"
  shows "snd (NaClValidateImage v nap m) = m \<and>
         (fst (NaClValidateImage v nap m) = LOAD_OK \<longleftrightarrow>
            NACL_TRAMPOLINE_END \<le> static_text_end nap \<and> st = NaClValidationSucceeded)"
proof -
  have ms: "unat (mem_start nap) + 2 ^ addr_bits nap < 2 ^ 64" using ok(1) by (simp add: app_ok_def)
  have te: "unat NACL_TRAMPOLINE_END = 2 ^ 17" by (simp add: config_defs)
  have b: "(2::nat) ^ 17 \<le> 2 ^ addr_bits nap" by (rule power_increasing) (use ok(3) in simp_all)
  have "unat (mem_start nap + NACL_TRAMPOLINE_END) = unat (mem_start nap) + 2 ^ 17"
    by (subst unat_plus_nowrap) (use ms b te in simp_all)
  moreover have "unat (mem_start nap + static_text_end nap) = unat (mem_start nap) + unat (static_text_end nap)"
    by (rule unat_plus_nowrap) (use ms ok(2) in simp)
  ultimately have lt: "mem_start nap + static_text_end nap < mem_start nap + NACL_TRAMPOLINE_END \<longleftrightarrow>
      \<not> NACL_TRAMPOLINE_END \<le> static_text_end nap"
    by (simp add: word_less_nat_alt word_le_nat_alt te not_le)
  have len: "mem_start nap + static_text_end nap - (mem_start nap + NACL_TRAMPOLINE_END) =
      static_text_end nap - NACL_TRAMPOLINE_END" by simp
  have vc: "NaClValidateCode v nap NACL_TRAMPOLINE_END bytes = (NaClValidateStatus st, bytes)"
    using sw(3) verdict by (simp add: NaClValidateCode_def)
  have wb: "mem_store (mem_start nap + NACL_TRAMPOLINE_END) bytes m = m"
    by (simp add: bytes mem_store_id)
  show ?thesis
    using sw lt vc wb
    by (simp add: NaClValidateImage_def Let_def len flip: bytes) (simp add: ValidateStatus_ok)
qed

definition nap_image :: NaClApp where
  "nap_image = nap_example\<lparr>static_text_end := 0x20004, skip_validator := False,
     ignore_validator_result := False, validator_stub_out_mode := False\<rparr>"

text \<open>A validator that accepts code of halts only.\<close>

definition halts_only :: validator where
  "halts_only a bs stub ro cpu =
     (if \<forall>b \<in> set bs. b = NACL_HALT_OPCODE then NaClValidationSucceeded else NaClValidationFailed, bs)"

theorem NaClValidateImage_sound_witness:
  "snd (NaClValidateImage halts_only nap_image (\<lambda>_. 0xf4)) = (\<lambda>_. 0xf4) \<and>
   fst (NaClValidateImage halts_only nap_image (\<lambda>_. 0xf4)) = LOAD_OK"
proof -
  have a: "app_ok nap_image" "addr_bits nap_image = 32"
    by (simp_all add: app_ok_def nap_image_def nap_example_def)
  have t: "static_text_end nap_image = 0x20004" by (simp add: nap_image_def)
  have v: "halts_only g (mem_bytes (\<lambda>_. 0xf4) x n) f ro cpu =
      (NaClValidationSucceeded, mem_bytes (\<lambda>_. 0xf4) x n)" for g x n f ro cpu
    by (simp add: halts_only_def mem_bytes_def NACL_HALT_OPCODE_def)
  show ?thesis
    using NaClValidateImage_sound [of nap_image "mem_bytes (\<lambda>_. 0xf4) (mem_start nap_image + NACL_TRAMPOLINE_END)
        (static_text_end nap_image - NACL_TRAMPOLINE_END)" "\<lambda>_. 0xf4" halts_only NaClValidationSucceeded]
    by (simp add: a t v) (simp add: nap_image_def config_defs)
qed

end
