(* ===== verification/DynText.thy ===== *)
theory DynText
  imports ValidateImage
begin

text \<open>
  The dynamic code area (\<^verbatim>\<open>src/service_runtime/nacl_text.c\<close>): the shared memory behind it,
  the table of loaded regions, and loading code into it. A pointer into the table is an
  index; the code to load is in a private buffer of the caller and is a list of bytes.
\<close>

definition kMinDynamicRegionsAllocated :: nat where "kMinDynamicRegionsAllocated = 32"
definition kBitsPerByte :: u32 where "kBitsPerByte = 8"

section \<open>Page bitmap\<close>

definition BitmapAllocate :: "(nat \<Rightarrow> bool) \<Rightarrow> u32 \<Rightarrow> u8 list option" where
  "BitmapAllocate mal indexes =
    (let byte_count = (indexes + kBitsPerByte - 1) div kBitsPerByte in
     if mal (unat byte_count) then Some (replicate (unat byte_count) 0) else None)"

definition BitmapIsBitSet :: "u8 list \<Rightarrow> u32 \<Rightarrow> bool result" where
  "BitmapIsBitSet bitmap index =
    (let i = unat (index div kBitsPerByte) in
     if i < length bitmap then Inr (bitmap ! i AND push_bit (unat (index mod kBitsPerByte)) 1 \<noteq> 0)
     else Inl OutOfBounds)"

definition BitmapSetBit :: "u8 list \<Rightarrow> u32 \<Rightarrow> u8 list result" where
  "BitmapSetBit bitmap index =
    (let i = unat (index div kBitsPerByte) in
     if i < length bitmap
     then Inr (bitmap[i := bitmap ! i OR push_bit (unat (index mod kBitsPerByte)) 1])
     else Inl OutOfBounds)"

section \<open>Setting up the shared memory\<close>

definition NaClDescEffectorShmUnmapMemory :: "u64 \<Rightarrow> u64 \<Rightarrow> int" where
  "NaClDescEffectorShmUnmapMemory sysaddr n = 0"

definition NaClDescEffectorShmMapAnonymousMemory :: "u64 \<Rightarrow> u64 \<Rightarrow> int \<Rightarrow> u64 result" where
  "NaClDescEffectorShmMapAnonymousMemory sysaddr n prt = Inl LogFatal"

definition kNaClDescEffectorShmVtbl :: NaClDescEffector where
  "kNaClDescEffectorShmVtbl = \<lparr>UnmapMemory = NaClDescEffectorShmUnmapMemory,
     MapAnonymousMemory = NaClDescEffectorShmMapAnonymousMemory\<rparr>"

text \<open>\<open>sizeof(struct NaClDescImcShm)\<close> is 40. The status comes with the new states.\<close>

definition NaClMakeDynamicTextShared ::
  "(nat \<Rightarrow> bool) \<Rightarrow> host \<Rightarrow> NaClApp \<Rightarrow> aspace \<Rightarrow> (NaClErrorCode \<times> NaClApp \<times> aspace) result" where
  "NaClMakeDynamicTextShared mal h nap s =
    (let shm_vaddr_base = NaClRoundAllocPage (NaClEndOfStaticText nap) in
     if \<not> use_shm_for_dynamic_text nap
     then Inr (LOAD_OK, nap\<lparr>dynamic_text_start := shm_vaddr_base,
                            dynamic_text_end := shm_vaddr_base\<rparr>, s)
     else
       let shm_upper_bound = rodata_start nap;
           shm_upper_bound = (if 0 = shm_upper_bound then data_start nap else shm_upper_bound);
           shm_upper_bound = (if 0 = shm_upper_bound then shm_vaddr_base else shm_upper_bound);
           nap = nap\<lparr>dynamic_text_start := shm_vaddr_base, dynamic_text_end := shm_upper_bound\<rparr>;
           dynamic_text_size = shm_upper_bound - shm_vaddr_base in
       if 0 = dynamic_text_size then Inr (LOAD_OK, nap, s)
       else if \<not> mal 40 then Inr (LOAD_INTERNAL, nap, s)
       else case NaClDescImcShmAllocCtor h (sint dynamic_text_size) True of
         None \<Rightarrow> Inr (LOAD_NO_MEMORY, nap, s)
       | Some shm \<Rightarrow>
           rbind (NaClUserToSys nap shm_vaddr_base) (\<lambda>text_sysaddr.
           rbind (NaCl_page_free h text_sysaddr dynamic_text_size) (\<lambda>_.
           rbind (NaClDescImcShmMap h kNaClDescEffectorShmVtbl shm text_sysaddr dynamic_text_size
                    NACL_ABI_PROT_NONE (NACL_ABI_MAP_SHARED OR NACL_ABI_MAP_FIXED) 0
                    (unmap_range text_sysaddr dynamic_text_size s)) (\<lambda>(mmap_ret, s).
           if text_sysaddr \<noteq> mmap_ret then Inl LogFatal
           else case BitmapAllocate mal (ucast (dynamic_text_size div NACL_MAP_PAGESIZE)) of
             None \<Rightarrow> Inl LogFatal
           | Some bm \<Rightarrow> Inr (LOAD_OK, nap\<lparr>dynamic_page_bitmap := Some bm,
                                           text_shm := Some (shm_h shm)\<rparr>, s)))))"

section \<open>The table of regions\<close>

text \<open>Binary search until the range is small, then a linear scan, over the starts.\<close>

definition kBinarySearchToScanCutoff :: nat where "kBinarySearchToScanCutoff = 16"

function leq_search :: "NaClDynamicRegion list \<Rightarrow> u64 \<Rightarrow> nat \<Rightarrow> nat \<Rightarrow> nat \<times> nat" where
  "leq_search rs ptr b e =
    (if b + kBinarySearchToScanCutoff + 1 < e
     then let mid = b + (e - b) div 2 in
       if dr_start (rs ! mid) \<le> ptr then leq_search rs ptr mid e else leq_search rs ptr b mid
     else (b, e))"
  by auto
termination
  by (relation "measure (\<lambda>(rs, ptr, b, e). e - b)") (auto simp: kBinarySearchToScanCutoff_def)

declare leq_search.simps [simp del]

function leq_scan :: "NaClDynamicRegion list \<Rightarrow> u64 \<Rightarrow> nat \<Rightarrow> nat \<Rightarrow> nat" where
  "leq_scan rs ptr b e =
     (if b + 1 < e \<and> dr_start (rs ! (b + 1)) \<le> ptr then leq_scan rs ptr (b + 1) e else b)"
  by auto
termination
  by (relation "measure (\<lambda>(rs, ptr, b, e). e - b)") auto

declare leq_scan.simps [simp del]

definition NaClDynamicRegionFindClosestLEQ :: "NaClApp \<Rightarrow> u64 \<Rightarrow> nat option" where
  "NaClDynamicRegionFindClosestLEQ nap ptr =
    (let rs = dynamic_regions nap; num = length rs in
     if num = 0 then None
     else if dr_start (rs ! (num - 1)) \<le> ptr then Some (num - 1)
     else if ptr < dr_start (rs ! 0) then None
     else let (b, e) = leq_search rs ptr 0 num in Some (leq_scan rs ptr b e))"

definition NaClDynamicRegionFind :: "NaClApp \<Rightarrow> u64 \<Rightarrow> u64 \<Rightarrow> nat option" where
  "NaClDynamicRegionFind nap ptr n =
    (case NaClDynamicRegionFindClosestLEQ nap (ptr + n - 1) of
       None \<Rightarrow> None
     | Some p \<Rightarrow> let r = dynamic_regions nap ! p in
         if ptr < dr_start r + dr_size r then Some p else None)"

function scroll :: "NaClDynamicRegion list \<Rightarrow> u64 \<Rightarrow> nat \<Rightarrow> nat" where
  "scroll rs start i =
     (if i < length rs \<and> dr_start (rs ! i) < start then scroll rs start (i + 1) else i)"
  by auto
termination
  by (relation "measure (\<lambda>(rs, start, i). length rs - i)") auto

declare scroll.simps [simp del]

text \<open>Inserting: each element from \<open>i\<close> on is swapped with the item; the last one is appended.\<close>

function shift_insert :: "NaClDynamicRegion list \<Rightarrow> nat \<Rightarrow> NaClDynamicRegion \<Rightarrow> NaClDynamicRegion list" where
  "shift_insert rs i item =
     (if i < length rs then shift_insert (rs[i := item]) (i + 1) (rs ! i) else rs @ [item])"
  by auto
termination
  by (relation "measure (\<lambda>(rs, i, item). length rs - i)") auto

declare shift_insert.simps [simp del]

text \<open>\<open>sizeof(struct NaClDynamicRegion)\<close> is 24.\<close>

definition NaClDynamicRegionCreate ::
  "(nat \<Rightarrow> bool) \<Rightarrow> NaClApp \<Rightarrow> u64 \<Rightarrow> u64 \<Rightarrow> (bool \<times> NaClApp) result" where
  "NaClDynamicRegionCreate mal nap start n =
    (let item = \<lparr>dr_start = start, dr_size = n, delete_generation = - 1\<rparr>;
         grow = (dynamic_regions_allocated nap = length (dynamic_regions nap));
         alloc = (if grow then max (dynamic_regions_allocated nap * 2) kMinDynamicRegionsAllocated
                  else dynamic_regions_allocated nap);
         nap = nap\<lparr>dynamic_regions_allocated := alloc\<rparr> in
     if grow \<and> \<not> mal (24 * alloc) then Inl LogFatal
     else
       let rs = dynamic_regions nap; regionp = NaClDynamicRegionFindClosestLEQ nap (start + n - 1) in
       if (case regionp of None \<Rightarrow> False | Some p \<Rightarrow> start < dr_start (rs ! p) + dr_size (rs ! p))
       then Inr (False, nap)
       else let p = (case regionp of None \<Rightarrow> 0 | Some p \<Rightarrow> p) in
         Inr (True, nap\<lparr>dynamic_regions := shift_insert rs (scroll rs start p) item\<rparr>))"

function shift_down :: "NaClDynamicRegion list \<Rightarrow> nat \<Rightarrow> NaClDynamicRegion list" where
  "shift_down rs r =
     (if r + 1 < length rs then shift_down (rs[r := rs ! (r + 1)]) (r + 1) else rs)"
  by auto
termination
  by (relation "measure (\<lambda>(rs, r). length rs - r)") auto

declare shift_down.simps [simp del]

definition NaClDynamicRegionDelete :: "(nat \<Rightarrow> bool) \<Rightarrow> NaClApp \<Rightarrow> nat \<Rightarrow> NaClApp result" where
  "NaClDynamicRegionDelete mal nap r =
    (let nap = nap\<lparr>dynamic_regions := butlast (shift_down (dynamic_regions nap) r)\<rparr> in
     if kMinDynamicRegionsAllocated < dynamic_regions_allocated nap
        \<and> length (dynamic_regions nap) < dynamic_regions_allocated nap div 4
     then let alloc = dynamic_regions_allocated nap div 2 in
       if \<not> mal (24 * alloc) then Inl LogFatal
       else Inr (nap\<lparr>dynamic_regions_allocated := alloc\<rparr>)
     else Inr nap)"

section \<open>Writing code\<close>

text \<open>One 32-bit store from the buffer.\<close>

definition copy32 :: "u64 \<Rightarrow> u8 list \<Rightarrow> nat \<Rightarrow> aspace \<Rightarrow> aspace result" where
  "copy32 dest code i s =
     (if i + 4 \<le> length code then Inr (wr_bytes dest (take 4 (drop i code)) s) else Inl OutOfBounds)"

definition CopyBundleTails :: "u64 \<Rightarrow> u8 list \<Rightarrow> u32 \<Rightarrow> u64 \<Rightarrow> aspace \<Rightarrow> aspace result" where
  "CopyBundleTails dest code n bundle s =
    (let bundle_mask = bundle - 1 in
     if dest AND 3 \<noteq> 0 then Inl CheckFailed
     else rbind (ptr_loop loop_rounds 4 (\<lambda>dest_ptr (i, s).
              rbind (if dest_ptr AND bundle_mask \<noteq> 0 then copy32 dest_ptr code i s else Inr s)
                (\<lambda>s. Inr (Inr (i + 4, s))))
            dest (dest + scast n) (0, s))
          (\<lambda>r. case r of Inl () \<Rightarrow> Inl Diverges | Inr (_, s) \<Rightarrow> Inr s))"

definition CopyBundleHeads :: "u64 \<Rightarrow> u8 list \<Rightarrow> u32 \<Rightarrow> u64 \<Rightarrow> aspace \<Rightarrow> aspace result" where
  "CopyBundleHeads dest code n bundle s =
    (if dest AND 3 \<noteq> 0 then Inl CheckFailed
     else rbind (ptr_loop loop_rounds bundle (\<lambda>dest_ptr (i, s).
              rbind (copy32 dest_ptr code i s) (\<lambda>s. Inr (Inr (i + unat bundle, s))))
            dest (dest + ucast n) (0, s))
          (\<lambda>r. case r of Inl () \<Rightarrow> Inl Diverges | Inr (_, s) \<Rightarrow> Inr s))"

text \<open>The barrier and the cache flush have no effect on the bytes.\<close>

definition CopyCodeSafelyInitial :: "u64 \<Rightarrow> u8 list \<Rightarrow> u32 \<Rightarrow> u64 \<Rightarrow> aspace \<Rightarrow> aspace result" where
  "CopyCodeSafelyInitial dest code n bundle s =
     rbind (CopyBundleTails dest code n bundle s) (CopyBundleHeads dest code n bundle)"

definition MakeDynamicCodePageVisible ::
  "host \<Rightarrow> u32 \<Rightarrow> u64 \<Rightarrow> NaClApp \<times> aspace \<Rightarrow> (NaClApp \<times> aspace) result" where
  "MakeDynamicCodePageVisible h page_index writable_addr = (\<lambda>(nap, s).
     case dynamic_page_bitmap nap of
       None \<Rightarrow> Inl NullDeref
     | Some bm \<Rightarrow> rbind (BitmapIsBitSet bm page_index) (\<lambda>b.
         if b then Inr (nap, s)
         else rbind (NaClUserToSys nap (dynamic_text_start nap + ucast (page_index * 65536 :: u32))) (\<lambda>user_addr.
           if rd s writable_addr \<noteq> 0 then Inl CheckFailed
           else
             let s = wr_bytes writable_addr (replicate (unat NACL_MAP_PAGESIZE) NACL_HALT_OPCODE) s in
             if NaCl_mprotect h user_addr NACL_MAP_PAGESIZE (PROT_READ OR PROT_EXEC) \<noteq> 0 then Inl LogFatal
             else rbind (BitmapSetBit bm page_index) (\<lambda>bm.
               Inr (nap\<lparr>dynamic_page_bitmap := Some bm\<rparr>,
                    protect_range user_addr NACL_MAP_PAGESIZE (PROT_READ OR PROT_EXEC) s)))))"

fun visible_loop ::
  "host \<Rightarrow> nat list \<Rightarrow> u64 \<Rightarrow> NaClApp \<times> aspace \<Rightarrow> (NaClApp \<times> aspace) result" where
  "visible_loop h [] writable_addr ns = Inr ns"
| "visible_loop h (i # is) writable_addr ns =
     rbind (MakeDynamicCodePageVisible h (of_nat i) writable_addr ns)
       (visible_loop h is (writable_addr + NACL_MAP_PAGESIZE))"

text \<open>The object behind the area is \<open>\<lparr>shm_h = d, ..\<rparr>\<close> for the handle \<open>d\<close> in \<open>text_shm\<close>.\<close>

definition CachedMapWritableText ::
  "host \<Rightarrow> u32 \<Rightarrow> u32 \<Rightarrow> NaClApp \<times> aspace \<Rightarrow> (u64 \<times> NaClApp \<times> aspace) result" where
  "CachedMapWritableText h off n = (\<lambda>(nap, s).
     if off \<noteq> dynamic_mapcache_offset nap \<or> n \<noteq> dynamic_mapcache_size nap
     then case text_shm nap of
       None \<Rightarrow> Inl NullDeref
     | Some d \<Rightarrow>
       let shm = \<lparr>shm_h = d, shm_size = uint (dynamic_text_end nap - dynamic_text_start nap)\<rparr> in
       rbind (if 0 < dynamic_mapcache_size nap
              then rbind (NaClDescImcShmUnmapUnsafe h kNaClDescEffectorShmVtbl
                            (dynamic_mapcache_ret nap) (ucast (dynamic_mapcache_size nap)) s) (\<lambda>(rv, s).
                   if rv \<noteq> 0 then Inl LogFatal
                   else Inr (nap\<lparr>dynamic_mapcache_offset := 0, dynamic_mapcache_size := 0,
                                 dynamic_mapcache_ret := 0\<rparr>, s))
              else Inr (nap, s)) (\<lambda>(nap, s).
       if 0 < n
       then rbind (NaClDescImcShmMap h kNaClDescEffectorShmVtbl shm 0 (ucast n)
                     (NACL_ABI_PROT_READ OR NACL_ABI_PROT_WRITE) NACL_ABI_MAP_SHARED (ucast off) s)
         (\<lambda>(mapping, s).
            if NaClPtrIsNegErrno mapping then Inr (0, nap, s)
            else rbind (visible_loop h [unat (off div 65536)..<unat ((off + n) div 65536)] mapping (nap, s))
              (\<lambda>(nap, s). Inr (mapping, nap\<lparr>dynamic_mapcache_offset := off,
                 dynamic_mapcache_size := n, dynamic_mapcache_ret := mapping\<rparr>, s)))
       else Inr (dynamic_mapcache_ret nap, nap, s))
     else Inr (dynamic_mapcache_ret nap, nap, s))"

definition shm_map_range :: "NaClApp \<Rightarrow> u32 \<Rightarrow> u32 \<Rightarrow> u32 \<times> u32 \<times> u32" where
  "shm_map_range nap dest n =
    (let shm_offset = dest - ucast (dynamic_text_start nap);
         shm_map_offset = shm_offset AND NOT (65536 - 1);
         within_page_offset = shm_offset AND (65536 - 1);
         shm_map_offset_end = (shm_offset + n + 65536 - 1) AND NOT (65536 - 1) in
     (shm_map_offset, shm_map_offset_end - shm_map_offset, within_page_offset))"

definition NaclTextMapWrapper ::
  "host \<Rightarrow> u32 \<Rightarrow> u32 \<Rightarrow> NaClApp \<times> aspace \<Rightarrow> (u64 option \<times> NaClApp \<times> aspace) result" where
  "NaclTextMapWrapper h dest n = (\<lambda>(nap, s).
    (let (shm_map_offset, shm_map_size, within_page_offset) = shm_map_range nap dest n in
     rbind (CachedMapWritableText h shm_map_offset shm_map_size (nap, s)) (\<lambda>(mmap_ret, nap, s).
       if mmap_ret = 0 then Inr (None, nap, s)
       else Inr (Some (mmap_ret + ucast within_page_offset), nap, s))))"

definition NaclTextMapClearCacheIfNeeded ::
  "host \<Rightarrow> u32 \<Rightarrow> u32 \<Rightarrow> NaClApp \<times> aspace \<Rightarrow> (NaClApp \<times> aspace) result" where
  "NaclTextMapClearCacheIfNeeded h dest n = (\<lambda>(nap, s).
    (let (shm_map_offset, shm_map_size, _) = shm_map_range nap dest n in
     if 65536 < shm_map_size
     then rbind (CachedMapWritableText h 0 0 (nap, s)) (\<lambda>(_, ns). Inr ns)
     else Inr (nap, s)))"

text \<open>From the mapping of the destination on, with the mutex held.\<close>

definition dyncode_write ::
  "host \<Rightarrow> u32 \<Rightarrow> u8 list \<Rightarrow> u32 \<Rightarrow> NaClApp \<times> aspace \<Rightarrow> (int \<times> NaClApp \<times> aspace) result" where
  "dyncode_write h dest code_copy n ns =
     rbind (NaclTextMapWrapper h dest n ns) (\<lambda>(mapped_addr, nap, s).
       case mapped_addr of
         None \<Rightarrow> Inr (- NACL_ABI_ENOMEM, nap, s)
       | Some mapped_addr \<Rightarrow>
           rbind (CopyCodeSafelyInitial mapped_addr code_copy n (bundle_size nap) s) (\<lambda>s.
           rbind (NaclTextMapClearCacheIfNeeded h dest n (nap, s)) (\<lambda>(nap, s).
           Inr (0, nap, s))))"

definition NaClTextDyncodeCreate ::
  "validator \<Rightarrow> (nat \<Rightarrow> bool) \<Rightarrow> host \<Rightarrow> u32 \<Rightarrow> u8 list \<Rightarrow> u32 \<Rightarrow> NaClApp \<times> aspace \<Rightarrow>
     (int \<times> NaClApp \<times> aspace) result" where
  "NaClTextDyncodeCreate v mal h dest code_copy n = (\<lambda>(nap, s).
     if text_shm nap = None then Inr (- NACL_ABI_EINVAL, nap, s)
     else if ucast dest AND (bundle_size nap - 1) \<noteq> 0 \<or> ucast n AND (bundle_size nap - 1) \<noteq> 0
     then Inr (- NACL_ABI_EINVAL, nap, s)
     else let dest_addr = NaClUserToSysAddrRange nap (ucast dest) (ucast n) in
     if kNaClBadAddress = dest_addr then Inr (- NACL_ABI_EFAULT, nap, s)
     else if ucast dest < dynamic_text_start nap then Inr (- NACL_ABI_EFAULT, nap, s)
     else if ucast (dest + n) > dynamic_text_end nap - NACL_HALT_SLED_SIZE
     then Inr (- NACL_ABI_EFAULT, nap, s)
     else if 0 = n then Inr (0, nap, s)
     else rbind (NaClDynamicRegionCreate mal nap dest_addr (ucast n)) (\<lambda>(ok, nap).
       if \<not> ok then Inr (- NACL_ABI_EINVAL, nap, s)
       else
         let (validator_result, code_copy) =
               (if \<not> skip_validator nap then NaClValidateCode v nap (ucast dest) code_copy
                else (LOAD_OK, code_copy));
             validator_result =
               (if validator_result \<noteq> LOAD_OK \<and> ignore_validator_result nap then LOAD_OK
                else validator_result) in
         if validator_result \<noteq> LOAD_OK then Inr (- NACL_ABI_EINVAL, nap, s)
         else dyncode_write h dest code_copy n (nap, s)))"

end
