(* ===== verification/DynRegions.thy ===== *)
theory DynRegions
  imports DynText
begin

text \<open>
  The table of dynamically loaded code regions: the search is a linear scan, creating a
  region keeps the table sorted and its regions disjoint, deleting removes one region. The
  locale \<open>region_table\<close> is the contract the loader relies on.
\<close>

section \<open>Search\<close>

definition closest_leq :: "NaClDynamicRegion list \<Rightarrow> u64 \<Rightarrow> nat option" where
  "closest_leq rs ptr =
    (case length (takeWhile (\<lambda>r. dr_start r \<le> ptr) rs) of 0 \<Rightarrow> None | Suc i \<Rightarrow> Some i)"

lemma leq_search_inv:
  "b < e \<Longrightarrow> e \<le> length rs \<Longrightarrow> dr_start (rs ! b) \<le> ptr \<Longrightarrow>
   (e < length rs \<longrightarrow> ptr < dr_start (rs ! e)) \<Longrightarrow> leq_search rs ptr b e = (b', e') \<Longrightarrow>
   b' < e' \<and> e' \<le> length rs \<and> dr_start (rs ! b') \<le> ptr \<and> (e' < length rs \<longrightarrow> ptr < dr_start (rs ! e'))"
proof (induction rs ptr b e rule: leq_search.induct)
  case (1 rs ptr b e)
  let ?mid = "b + (e - b) div 2"
  show ?case
  proof (cases "b + kBinarySearchToScanCutoff + 1 < e")
    case True
    then have m: "b < ?mid" "?mid < e" by (auto simp: kBinarySearchToScanCutoff_def)
    show ?thesis
    proof (cases "dr_start (rs ! ?mid) \<le> ptr")
      case t: True
      then have "leq_search rs ptr ?mid e = (b', e')"
        using 1(7) True by (simp add: leq_search.simps [of rs ptr b e] Let_def)
      from 1(1) [OF True refl t m(2) 1(4) t 1(6) this] show ?thesis .
    next
      case f: False
      then have "leq_search rs ptr b ?mid = (b', e')"
        using 1(7) True by (simp add: leq_search.simps [of rs ptr b e] Let_def)
      from 1(2) [OF True refl f m(1) _ 1(5) _ this] f m 1(4) show ?thesis by simp
    qed
  next
    case False
    then show ?thesis using 1(3-7) by (simp add: leq_search.simps [of rs ptr b e])
  qed
qed

lemma leq_scan_inv:
  "b < e \<Longrightarrow> e \<le> length rs \<Longrightarrow> dr_start (rs ! b) \<le> ptr \<Longrightarrow>
   (e < length rs \<longrightarrow> ptr < dr_start (rs ! e)) \<Longrightarrow>
   leq_scan rs ptr b e < length rs \<and> dr_start (rs ! leq_scan rs ptr b e) \<le> ptr \<and>
   (Suc (leq_scan rs ptr b e) < length rs \<longrightarrow> ptr < dr_start (rs ! Suc (leq_scan rs ptr b e)))"
proof (induction rs ptr b e rule: leq_scan.induct)
  case (1 rs ptr b e)
  show ?case
  proof (cases "b + 1 < e \<and> dr_start (rs ! (b + 1)) \<le> ptr")
    case True
    with 1 show ?thesis by (simp add: leq_scan.simps [of rs ptr b e])
  next
    case False
    then have "leq_scan rs ptr b e = b" by (subst leq_scan.simps) (simp only: if_False)
    moreover have "ptr < dr_start (rs ! Suc b)" if "Suc b < length rs"
    proof (cases "b + 1 < e")
      case True
      with False show ?thesis by (simp add: not_le)
    next
      case f: False
      then have "e = Suc b" using 1(2) by simp
      with 1(5) that show ?thesis by simp
    qed
    ultimately show ?thesis using 1(2-4) by simp
  qed
qed

lemma closest_leq_unique:
  assumes "sorted (map dr_start rs)" "i < length rs" "dr_start (rs ! i) \<le> ptr"
    and "Suc i < length rs \<longrightarrow> ptr < dr_start (rs ! Suc i)"
  shows "closest_leq rs ptr = Some i"
proof -
  have "takeWhile (\<lambda>r. dr_start r \<le> ptr) rs = take (Suc i) rs"
  proof (rule takeWhile_eq_take_P_nth)
    fix j assume "j < Suc i" "j < length rs"
    then have "dr_start (rs ! j) \<le> dr_start (rs ! i)"
      using sorted_nth_mono [OF assms(1), of j i] assms(2) by simp
    then show "dr_start (rs ! j) \<le> ptr" using assms(3) by simp
  next
    assume "Suc i < length rs"
    then show "\<not> dr_start (rs ! Suc i) \<le> ptr" using assms(4) by simp
  qed
  then have "length (takeWhile (\<lambda>r. dr_start r \<le> ptr) rs) = Suc i" using assms(2) by simp
  then show ?thesis by (simp add: closest_leq_def)
qed

lemma FindClosestLEQ_eq:
  assumes "sorted (map dr_start (dynamic_regions nap))"
  shows "NaClDynamicRegionFindClosestLEQ nap ptr = closest_leq (dynamic_regions nap) ptr"
proof -
  let ?rs = "dynamic_regions nap"
  consider (empty) "?rs = []" | (lst) "?rs \<noteq> []" "dr_start (?rs ! (length ?rs - 1)) \<le> ptr"
    | (before) "?rs \<noteq> []" "ptr < dr_start (?rs ! 0)" "\<not> dr_start (?rs ! (length ?rs - 1)) \<le> ptr"
    | (mid) "?rs \<noteq> []" "dr_start (?rs ! 0) \<le> ptr" "\<not> dr_start (?rs ! (length ?rs - 1)) \<le> ptr"
    by (meson not_le)
  then show ?thesis
  proof cases
    case empty
    then show ?thesis by (simp add: NaClDynamicRegionFindClosestLEQ_def closest_leq_def)
  next
    case lst
    then have "closest_leq ?rs ptr = Some (length ?rs - 1)"
      by (intro closest_leq_unique [OF assms]) simp_all
    with lst show ?thesis by (simp add: NaClDynamicRegionFindClosestLEQ_def)
  next
    case before
    then have "takeWhile (\<lambda>r. dr_start r \<le> ptr) ?rs = []"
      by (cases ?rs) (simp_all add: not_le)
    with before show ?thesis by (simp add: NaClDynamicRegionFindClosestLEQ_def closest_leq_def)
  next
    case mid
    obtain b e where be: "leq_search ?rs ptr 0 (length ?rs) = (b, e)" by fastforce
    from leq_search_inv [OF _ _ mid(2) _ be] mid(1)
    have i: "b < e" "e \<le> length ?rs" "dr_start (?rs ! b) \<le> ptr" "e < length ?rs \<longrightarrow> ptr < dr_start (?rs ! e)"
      by simp_all
    from leq_scan_inv [OF i] have "closest_leq ?rs ptr = Some (leq_scan ?rs ptr b e)"
      by (intro closest_leq_unique [OF assms]) simp_all
    with mid be show ?thesis by (simp add: NaClDynamicRegionFindClosestLEQ_def Let_def leD)
  qed
qed

text \<open>
  C26. \<open>NaClDynamicRegionFindClosestLEQ\<close>: on a table sorted by start, the combination of a test of
  the last region, binary search and a scan of at most 17 entries finds what the scan of the
  whole table finds, the last region that starts at or below the pointer.
\<close>

theorem FindClosestLEQ_linear:
  assumes "sorted (map dr_start (dynamic_regions nap))"
  shows "NaClDynamicRegionFindClosestLEQ nap ptr =
           (case length (takeWhile (\<lambda>r. dr_start r \<le> ptr) (dynamic_regions nap)) of
              0 \<Rightarrow> None | Suc i \<Rightarrow> Some i)"
  using FindClosestLEQ_eq [OF assms] by (simp add: closest_leq_def)

definition region :: "u64 \<Rightarrow> u64 \<Rightarrow> NaClDynamicRegion" where
  "region a n = \<lparr>dr_start = a, dr_size = n, delete_generation = - 1\<rparr>"

definition nap_regions :: NaClApp where
  "nap_regions = nap_example\<lparr>dynamic_regions := map (\<lambda>a. region a 32)
     [64, 128, 192, 256, 320, 384, 448, 512, 576, 640, 704, 768, 832, 896, 960, 1024, 1088, 1152, 1216, 1280],
     dynamic_regions_allocated := 32\<rparr>"

lemma sorted_nap_regions: "sorted (map dr_start (dynamic_regions nap_regions))"
  by (simp add: nap_regions_def region_def)

theorem FindClosestLEQ_linear_witness:
  "NaClDynamicRegionFindClosestLEQ nap_regions 1000 = Some 14"
proof -
  have "length (takeWhile (\<lambda>r. dr_start r \<le> 1000) (dynamic_regions nap_regions)) = Suc 14"
    by (simp add: nap_regions_def region_def)
  with FindClosestLEQ_linear [OF sorted_nap_regions, of 1000] show ?thesis by simp
qed

section \<open>Creating a region\<close>

definition dr_lo :: "NaClDynamicRegion \<Rightarrow> nat" where "dr_lo r = unat (dr_start r)"
definition dr_hi :: "NaClDynamicRegion \<Rightarrow> nat" where "dr_hi r = unat (dr_start r) + unat (dr_size r)"

definition regions_ok :: "NaClDynamicRegion list \<Rightarrow> bool" where
  "regions_ok rs \<longleftrightarrow> sorted_wrt (\<lambda>a b. dr_hi a \<le> dr_lo b) rs \<and>
     (\<forall>r\<in>set rs. dr_lo r < dr_hi r \<and> dr_hi r < 2 ^ 64)"

lemma regions_ok_append:
  "regions_ok (xs @ ys) \<longleftrightarrow> regions_ok xs \<and> regions_ok ys \<and> (\<forall>x\<in>set xs. \<forall>y\<in>set ys. dr_hi x \<le> dr_lo y)"
  by (auto simp: regions_ok_def sorted_wrt_append)

lemma regions_ok_Cons:
  "regions_ok (x # ys) \<longleftrightarrow> regions_ok ys \<and> dr_lo x < dr_hi x \<and> dr_hi x < 2 ^ 64 \<and>
     (\<forall>y\<in>set ys. dr_hi x \<le> dr_lo y)"
  by (auto simp: regions_ok_def)

lemma regions_ok_Nil [simp]: "regions_ok []"
  by (simp add: regions_ok_def)

lemma regions_ok_sorted: "regions_ok rs \<Longrightarrow> sorted (map dr_start rs)"
  by (induction rs) (fastforce simp: regions_ok_Cons dr_lo_def word_le_nat_alt)+

lemma regions_ok_distinct: "regions_ok rs \<Longrightarrow> distinct rs"
  by (induction rs) (fastforce simp: regions_ok_Cons)+

lemma regions_last:
  assumes "regions_ok (xs @ [q])" "r \<in> set (xs @ [q])"
  shows "dr_hi r \<le> dr_hi q"
  using assms by (force simp: regions_ok_append regions_ok_Cons)

lemma shift_insert_eq: "i \<le> length rs \<Longrightarrow> shift_insert rs i item = take i rs @ item # drop i rs"
proof (induction rs i item rule: shift_insert.induct)
  case (1 rs i item)
  show ?case
  proof (cases "i < length rs")
    case True
    then have "shift_insert rs i item = take (i + 1) (rs[i := item]) @ rs ! i # drop (i + 1) (rs[i := item])"
      using 1(1) [OF True] by (simp add: shift_insert.simps [of rs i item])
    also have "\<dots> = take i rs @ item # drop i rs"
      using True by (simp add: take_Suc_update_last Cons_nth_drop_Suc)
    finally show ?thesis .
  next
    case False
    with 1(2) have "i = length rs" by simp
    then show ?thesis by (subst shift_insert.simps) simp
  qed
qed

lemma scroll_stop: "\<not> (i < length rs \<and> dr_start (rs ! i) < start) \<Longrightarrow> scroll rs start i = i"
  by (subst scroll.simps) (simp only: if_False)

lemma scroll_step:
  "i < length rs \<Longrightarrow> dr_start (rs ! i) < start \<Longrightarrow> scroll rs start i = scroll rs start (Suc i)"
  by (subst scroll.simps) simp

definition overlaps :: "nat \<Rightarrow> nat \<Rightarrow> NaClDynamicRegion \<Rightarrow> bool" where
  "overlaps lo hi r \<longleftrightarrow> dr_lo r < hi \<and> lo < dr_hi r"

text \<open>
  Up to the last region that starts at or below the end of the new one, the table ends at
  or before its start, unless there is an overlap.
\<close>

lemma regions_split:
  assumes ok: "regions_ok rs" and n: "0 < n" "unat start + unat n < 2 ^ 64"
  defines "pre \<equiv> takeWhile (\<lambda>r. dr_start r \<le> start + n - 1) rs"
    and "post \<equiv> dropWhile (\<lambda>r. dr_start r \<le> start + n - 1) rs"
  shows "rs = pre @ post" "r \<in> set pre \<Longrightarrow> dr_lo r < unat start + unat n"
    "r \<in> set post \<Longrightarrow> unat start + unat n \<le> dr_lo r"
proof -
  have pos: "0 < unat n" using n(1) by (metis unat_0 word_less_nat_alt)
  then have n1: "unat (n - 1) = unat n - 1" by (simp add: unat_sub word_le_nat_alt)
  have "unat (start + (n - 1)) = unat start + unat (n - 1)"
    by (rule unat_plus_nowrap) (use n(2) n1 in simp)
  then have p: "unat (start + n - 1) = unat start + unat n - 1"
    using pos n1 by (simp add: add_diff_eq)
  show eq: "rs = pre @ post" by (simp add: pre_def post_def)
  show "dr_lo r < unat start + unat n" if "r \<in> set pre"
    using set_takeWhileD that p pos by (fastforce simp: pre_def dr_lo_def word_le_nat_alt)
  show "unat start + unat n \<le> dr_lo r" if r: "r \<in> set post"
  proof -
    obtain q qs where q: "post = q # qs" using r by (cases post) auto
    then have "\<not> dr_start q \<le> start + n - 1" by (simp add: post_def dropWhile_eq_Cons_conv)
    then have "unat start + unat n \<le> dr_lo q" using p pos by (simp add: dr_lo_def word_le_nat_alt)
    moreover have "dr_lo q \<le> dr_lo r"
      using ok r q unfolding eq regions_ok_append by (auto simp: regions_ok_Cons)
    ultimately show ?thesis by simp
  qed
qed

text \<open>The buffer has room for the regions, and growing it succeeds.\<close>

definition room_ok :: "NaClApp \<Rightarrow> bool" where
  "room_ok nap \<longleftrightarrow> length (dynamic_regions nap) \<le> dynamic_regions_allocated nap"

definition grown :: "NaClApp \<Rightarrow> NaClApp" where
  "grown nap = (if dynamic_regions_allocated nap = length (dynamic_regions nap)
     then nap\<lparr>dynamic_regions_allocated := max (dynamic_regions_allocated nap * 2) kMinDynamicRegionsAllocated\<rparr>
     else nap)"

lemma grown_simps [simp]:
  "dynamic_regions (grown nap) = dynamic_regions nap" "room_ok nap \<Longrightarrow> room_ok (grown nap)"
  "room_ok nap \<Longrightarrow> length (dynamic_regions nap) < dynamic_regions_allocated (grown nap)"
  by (auto simp: grown_def room_ok_def kMinDynamicRegionsAllocated_def)

lemma FindClosestLEQ_alloc:
  "NaClDynamicRegionFindClosestLEQ (nap\<lparr>dynamic_regions_allocated := k\<rparr>) ptr =
     NaClDynamicRegionFindClosestLEQ nap ptr"
  by (simp add: NaClDynamicRegionFindClosestLEQ_def)

lemma Create_unfold:
  assumes that: "sorted (map dr_start (dynamic_regions nap))"
    and assms: "dynamic_regions_allocated nap = length (dynamic_regions nap) \<longrightarrow>
             mal (24 * dynamic_regions_allocated (grown nap))"
  shows "NaClDynamicRegionCreate mal nap start n =
    (let rs = dynamic_regions nap; regionp = closest_leq rs (start + n - 1) in
       if (case regionp of None \<Rightarrow> False | Some p \<Rightarrow> start < dr_start (rs ! p) + dr_size (rs ! p))
       then Inr (False, grown nap)
       else Inr (True, (grown nap)\<lparr>dynamic_regions :=
          shift_insert rs (scroll rs start (case regionp of None \<Rightarrow> 0 | Some p \<Rightarrow> p)) (region start n)\<rparr>))"
proof (cases "dynamic_regions_allocated nap = length (dynamic_regions nap)")
  case True
  with assms show ?thesis
    by (simp add: NaClDynamicRegionCreate_def Let_def grown_def FindClosestLEQ_alloc
          FindClosestLEQ_eq [OF that] region_def)
next
  case False
  then show ?thesis
    by (simp add: NaClDynamicRegionCreate_def Let_def grown_def
          FindClosestLEQ_eq [OF that] region_def)
qed

lemma closest_leq_cases:
  assumes "pre = takeWhile (\<lambda>r. dr_start r \<le> ptr) rs"
  shows "closest_leq rs ptr = (if pre = [] then None else Some (length pre - 1))"
  by (simp add: closest_leq_def flip: assms split: nat.split)

text \<open>
  The whole behaviour: with \<open>pre\<close> the regions that start below the end of the new one, the
  new one is refused if the last of them reaches into it, and otherwise goes behind \<open>pre\<close>.
\<close>

lemma Create_result:
  assumes ok: "regions_ok rs" and rs: "rs = dynamic_regions nap"
    and n: "0 < n" "unat start + unat n < 2 ^ 64"
    and mal: "dynamic_regions_allocated nap = length rs \<longrightarrow> mal (24 * dynamic_regions_allocated (grown nap))"
  shows "\<exists>pre post. rs = pre @ post \<and>
    NaClDynamicRegionCreate mal nap start n =
      (if \<exists>r\<in>set rs. overlaps (unat start) (unat start + unat n) r then Inr (False, grown nap)
       else Inr (True, (grown nap)\<lparr>dynamic_regions := pre @ region start n # post\<rparr>)) \<and>
    (\<forall>r\<in>set post. unat start + unat n \<le> dr_lo r) \<and>
    ((\<forall>r\<in>set rs. \<not> overlaps (unat start) (unat start + unat n) r) \<longrightarrow> (\<forall>r\<in>set pre. dr_hi r \<le> unat start))"
proof -
  define pre where "pre = takeWhile (\<lambda>r. dr_start r \<le> start + n - 1) rs"
  define post where "post = dropWhile (\<lambda>r. dr_start r \<le> start + n - 1) rs"
  note parts = regions_split [OF ok n, folded pre_def post_def]
  have pos: "0 < unat n" using n(1) by (metis unat_0 word_less_nat_alt)
  have srt: "sorted (map dr_start (dynamic_regions nap))" using regions_ok_sorted ok rs by simp
  have cl: "closest_leq rs (start + n - 1) = (if pre = [] then None else Some (length pre - 1))"
    by (rule closest_leq_cases) (simp add: pre_def)
  have post_hd: "\<not> (length pre < length rs \<and> dr_start (rs ! length pre) < start)"
  proof
    assume a: "length pre < length rs \<and> dr_start (rs ! length pre) < start"
    then have "rs ! length pre \<in> set post" unfolding parts(1) by (auto simp: nth_append)
    with a parts(3) show False by (fastforce simp: dr_lo_def word_less_nat_alt)
  qed
  have ov_post: "\<not> overlaps (unat start) (unat start + unat n) r" if "r \<in> set post" for r
    using parts(3) [OF that] by (simp add: overlaps_def)
  have "NaClDynamicRegionCreate mal nap start n =
      (if \<exists>r\<in>set rs. overlaps (unat start) (unat start + unat n) r then Inr (False, grown nap)
       else Inr (True, (grown nap)\<lparr>dynamic_regions := pre @ region start n # post\<rparr>)) \<and>
    ((\<forall>r\<in>set rs. \<not> overlaps (unat start) (unat start + unat n) r) \<longrightarrow> (\<forall>r\<in>set pre. dr_hi r \<le> unat start))"
  proof (cases "pre = []")
    case True
    then have "rs = post" using parts(1) by simp
    with ov_post have none: "\<forall>r\<in>set rs. \<not> overlaps (unat start) (unat start + unat n) r" by simp
    have "scroll rs start 0 = 0" by (rule scroll_stop) (use post_hd True in simp)
    then show ?thesis
      using none True \<open>rs = post\<close> cl mal srt
      by (simp add: Create_unfold shift_insert_eq flip: rs)
  next
    case False
    define q where "q = last pre"
    have q: "rs ! (length pre - 1) = q" "q \<in> set pre" "q \<in> set rs"
      using False unfolding parts(1) by (simp_all add: q_def nth_append last_conv_nth)
    have qok: "dr_lo q < dr_hi q" "dr_hi q < 2 ^ 64" using ok q(3) by (auto simp: regions_ok_def)
    have qe: "unat (dr_start q + dr_size q) = dr_hi q"
      using qok by (simp add: dr_hi_def unat_plus_nowrap)
    have ovq: "overlaps (unat start) (unat start + unat n) q \<longleftrightarrow> start < dr_start q + dr_size q"
      using parts(2) [OF q(2)] by (simp add: overlaps_def word_less_nat_alt qe)
    have last_hi: "dr_hi r \<le> dr_hi q" if "r \<in> set pre" for r
    proof -
      have "pre = butlast pre @ [q]" using False by (simp add: q_def)
      moreover have "regions_ok pre" using ok unfolding parts(1) regions_ok_append by simp
      ultimately show ?thesis using regions_last that by metis
    qed
    show ?thesis
    proof (cases "start < dr_start q + dr_size q")
      case True
      with ovq q have "\<exists>r\<in>set rs. overlaps (unat start) (unat start + unat n) r" by auto
      with True False q cl mal srt show ?thesis by (auto simp: Create_unfold simp flip: rs)
    next
      case nov: False
      then have hi: "dr_hi q \<le> unat start" by (simp add: word_less_nat_alt qe)
      have none: "\<forall>r\<in>set rs. \<not> overlaps (unat start) (unat start + unat n) r"
        using last_hi hi ov_post unfolding parts(1) by (fastforce simp: overlaps_def)
      have "scroll rs start (length pre - 1) = scroll rs start (Suc (length pre - 1))"
      proof (rule scroll_step)
        show "length pre - 1 < length rs" using False unfolding parts(1) by (cases pre) simp_all
        show "dr_start (rs ! (length pre - 1)) < start"
          using hi qok q(1) by (simp add: word_less_nat_alt dr_lo_def)
      qed
      also have "\<dots> = length pre" using False post_hd by (simp add: scroll_stop)
      finally have "scroll rs start (length pre - 1) = length pre" .
      moreover have "shift_insert rs (length pre) x = pre @ x # post" for x
        using shift_insert_eq [of "length pre" rs] unfolding parts(1) by simp
      ultimately show ?thesis
        using none nov False q cl mal srt last_hi hi
        by (fastforce simp: Create_unfold simp flip: rs)
    qed
  qed
  with parts show ?thesis by (intro exI [of _ pre] exI [of _ post]) blast
qed

lemma region_bounds [simp]:
  "dr_lo (region a n) = unat a" "dr_hi (region a n) = unat a + unat n"
  by (simp_all add: dr_lo_def dr_hi_def region_def)

definition table_ok :: "NaClApp \<Rightarrow> bool" where
  "table_ok nap \<longleftrightarrow> regions_ok (dynamic_regions nap) \<and> room_ok nap"

lemma Create_cases:
  assumes ok: "table_ok nap" and n: "0 < n" "unat start + unat n < 2 ^ 64"
    and mal: "dynamic_regions_allocated nap = length (dynamic_regions nap) \<longrightarrow>
                mal (24 * dynamic_regions_allocated (grown nap))"
  shows "(\<exists>r\<in>set (dynamic_regions nap). overlaps (unat start) (unat start + unat n) r) \<Longrightarrow>
           NaClDynamicRegionCreate mal nap start n = Inr (False, grown nap) \<and> table_ok (grown nap)"
    and "(\<forall>r\<in>set (dynamic_regions nap). \<not> overlaps (unat start) (unat start + unat n) r) \<Longrightarrow>
           \<exists>pre post. dynamic_regions nap = pre @ post \<and>
             NaClDynamicRegionCreate mal nap start n =
               Inr (True, (grown nap)\<lparr>dynamic_regions := pre @ region start n # post\<rparr>) \<and>
             table_ok ((grown nap)\<lparr>dynamic_regions := pre @ region start n # post\<rparr>)"
proof -
  have r: "regions_ok (dynamic_regions nap)" "room_ok nap" using ok by (simp_all add: table_ok_def)
  from Create_result [where mal = mal, OF r(1) refl n mal] obtain pre post where
    eq: "dynamic_regions nap = pre @ post" and
    c: "NaClDynamicRegionCreate mal nap start n =
      (if \<exists>r\<in>set (dynamic_regions nap). overlaps (unat start) (unat start + unat n) r then Inr (False, grown nap)
       else Inr (True, (grown nap)\<lparr>dynamic_regions := pre @ region start n # post\<rparr>))" and
    post: "\<forall>r\<in>set post. unat start + unat n \<le> dr_lo r" and
    pre: "(\<forall>r\<in>set (dynamic_regions nap). \<not> overlaps (unat start) (unat start + unat n) r) \<longrightarrow>
            (\<forall>r\<in>set pre. dr_hi r \<le> unat start)" by blast
  show "NaClDynamicRegionCreate mal nap start n = Inr (False, grown nap) \<and> table_ok (grown nap)"
    if "\<exists>r\<in>set (dynamic_regions nap). overlaps (unat start) (unat start + unat n) r"
    using that c r by (simp add: table_ok_def)
  assume none: "\<forall>r\<in>set (dynamic_regions nap). \<not> overlaps (unat start) (unat start + unat n) r"
  have pos: "0 < unat n" using n(1) by (metis unat_0 word_less_nat_alt)
  have pp: "regions_ok pre" "regions_ok post" "\<forall>x\<in>set pre. \<forall>y\<in>set post. dr_hi x \<le> dr_lo y"
    using r(1) unfolding eq regions_ok_append by simp_all
  have "regions_ok (pre @ region start n # post)"
    unfolding regions_ok_append regions_ok_Cons using pp pre none post pos n(2) by auto
  moreover have "length (pre @ region start n # post) \<le> dynamic_regions_allocated (grown nap)"
    using grown_simps(3) [OF r(2)] by (simp add: eq)
  ultimately have "table_ok ((grown nap)\<lparr>dynamic_regions := pre @ region start n # post\<rparr>)"
    by (simp add: table_ok_def room_ok_def)
  moreover have "NaClDynamicRegionCreate mal nap start n =
      Inr (True, (grown nap)\<lparr>dynamic_regions := pre @ region start n # post\<rparr>)"
    using c none by (metis (no_types, lifting))
  ultimately show "\<exists>pre post. dynamic_regions nap = pre @ post \<and>
             NaClDynamicRegionCreate mal nap start n =
               Inr (True, (grown nap)\<lparr>dynamic_regions := pre @ region start n # post\<rparr>) \<and>
             table_ok ((grown nap)\<lparr>dynamic_regions := pre @ region start n # post\<rparr>)"
    using eq by blast
qed

text \<open>
  C24. \<open>NaClDynamicRegionCreate\<close> keeps the table sorted by address with disjoint regions and its
  buffer large enough. It refuses a range exactly when a byte of it is in a region already,
  leaving the regions as they were; otherwise it adds exactly the new region.
\<close>

theorem RegionCreate_correct:
  assumes "table_ok nap" "0 < n" "unat start + unat n < 2 ^ 64"
    and "dynamic_regions_allocated nap = length (dynamic_regions nap) \<longrightarrow>
           mal (24 * dynamic_regions_allocated (grown nap))"
  shows "\<exists>created nap'. NaClDynamicRegionCreate mal nap start n = Inr (created, nap') \<and> table_ok nap' \<and>
    (created \<longleftrightarrow> (\<forall>r\<in>set (dynamic_regions nap). dr_hi r \<le> unat start \<or> unat start + unat n \<le> dr_lo r)) \<and>
    set (dynamic_regions nap') =
      (if created then insert (region start n) (set (dynamic_regions nap)) else set (dynamic_regions nap)) \<and>
    length (dynamic_regions nap') = length (dynamic_regions nap) + (if created then 1 else 0)"
proof (cases "\<exists>r\<in>set (dynamic_regions nap). overlaps (unat start) (unat start + unat n) r")
  case True
  from Create_cases(1) [where mal = mal, OF assms True] True show ?thesis
    by (fastforce simp: overlaps_def)
next
  case False
  then obtain pre post where "dynamic_regions nap = pre @ post"
    "NaClDynamicRegionCreate mal nap start n =
       Inr (True, (grown nap)\<lparr>dynamic_regions := pre @ region start n # post\<rparr>)"
    "table_ok ((grown nap)\<lparr>dynamic_regions := pre @ region start n # post\<rparr>)"
    using Create_cases(2) [where mal = mal, OF assms] by blast
  with False show ?thesis by (auto simp: overlaps_def not_less)
qed

lemma table_ok_nap_regions: "table_ok nap_regions"
  by (simp add: table_ok_def room_ok_def nap_regions_def regions_ok_Cons)

theorem RegionCreate_correct_witness:
  "\<exists>nap'. NaClDynamicRegionCreate (\<lambda>_. True) nap_regions 96 32 = Inr (True, nap') \<and>
     region 96 32 \<in> set (dynamic_regions nap')"
proof -
  have rs: "set (dynamic_regions nap_regions) =
      (\<lambda>a. region a 32) ` {64, 128, 192, 256, 320, 384, 448, 512, 576, 640, 704, 768, 832, 896, 960, 1024,
        1088, 1152, 1216, 1280}"
    by (simp add: nap_regions_def)
  have "\<forall>r\<in>set (dynamic_regions nap_regions). dr_hi r \<le> unat (96::u64) \<or> unat (96::u64) + unat (32::u64) \<le> dr_lo r"
    unfolding rs by simp
  with RegionCreate_correct [OF table_ok_nap_regions, of 32 96 "\<lambda>_. True"] show ?thesis by auto
qed

section \<open>Deleting a region\<close>

lemma shift_down_eq:
  "r < length rs \<Longrightarrow> butlast (shift_down rs r) = take r rs @ drop (Suc r) rs"
proof (induction rs r rule: shift_down.induct)
  case (1 rs r)
  show ?case
  proof (cases "r + 1 < length rs")
    case True
    then have "butlast (shift_down rs r) =
        take (r + 1) (rs[r := rs ! (r + 1)]) @ drop (Suc (r + 1)) (rs[r := rs ! (r + 1)])"
      using 1(1) [OF True] by (simp add: shift_down.simps [of rs r])
    also have "\<dots> = take r rs @ drop (Suc r) rs"
      using True by (simp add: take_Suc_update_last Cons_nth_drop_Suc)
    finally show ?thesis .
  next
    case False
    with 1(2) have "r = length rs - 1" "rs \<noteq> []" by auto
    moreover have "shift_down rs r = rs" using False by (subst shift_down.simps) (simp only: if_False)
    ultimately show ?thesis by (simp add: butlast_conv_take)
  qed
qed

text \<open>
  C27. \<open>NaClDynamicRegionDelete\<close> removes exactly the region it is given, keeps the order of the
  others and the invariant of the table, also when it halves the buffer.
\<close>

theorem RegionDelete_correct:
  assumes "table_ok nap" "r < length (dynamic_regions nap)"
    and "mal (24 * (dynamic_regions_allocated nap div 2))"
  shows "\<exists>nap'. NaClDynamicRegionDelete mal nap r = Inr nap' \<and> table_ok nap' \<and>
    dynamic_regions nap' = take r (dynamic_regions nap) @ drop (Suc r) (dynamic_regions nap) \<and>
    set (dynamic_regions nap') = set (dynamic_regions nap) - {dynamic_regions nap ! r}"
proof -
  let ?rs = "dynamic_regions nap" and ?rs' = "take r (dynamic_regions nap) @ drop (Suc r) (dynamic_regions nap)"
  have ok: "regions_ok ?rs" and room: "length ?rs \<le> dynamic_regions_allocated nap"
    using assms(1) by (simp_all add: table_ok_def room_ok_def)
  have split: "?rs = take r ?rs @ ?rs ! r # drop (Suc r) ?rs" using assms(2) by (rule id_take_nth_drop)
  have "distinct (take r ?rs @ ?rs ! r # drop (Suc r) ?rs)"
    using regions_ok_distinct [OF ok] split by simp
  then have "set ?rs' = set (take r ?rs @ ?rs ! r # drop (Suc r) ?rs) - {?rs ! r}" by auto
  then have sets: "set ?rs' = set ?rs - {?rs ! r}" using split by simp
  have "regions_ok (take r ?rs @ ?rs ! r # drop (Suc r) ?rs)" using ok split by simp
  then have ok': "regions_ok ?rs'" by (auto simp: regions_ok_append regions_ok_Cons)
  have len: "length ?rs' = length ?rs - 1" using assms(2) by simp
  show ?thesis
    using assms(2,3) ok' sets len room
    by (simp add: NaClDynamicRegionDelete_def Let_def shift_down_eq table_ok_def room_ok_def
          del: set_append length_append length_take length_drop) arith
qed

theorem RegionDelete_correct_witness:
  "\<exists>nap'. NaClDynamicRegionDelete (\<lambda>_. True) nap_regions 3 = Inr nap' \<and>
     set (dynamic_regions nap') = set (dynamic_regions nap_regions) - {region 256 32}"
proof -
  have "3 < length (dynamic_regions nap_regions)" "dynamic_regions nap_regions ! 3 = region 256 32"
    by (simp_all add: nap_regions_def)
  with RegionDelete_correct [OF table_ok_nap_regions, of 3 "\<lambda>_. True"] show ?thesis by auto
qed

section \<open>The contract of the table\<close>

text \<open>
  What a loader relies on: ranges that were handed out never share a byte, and what was
  handed out stays. \<open>create_all\<close> makes a sequence of requests and returns the granted ones.
\<close>

fun create_all :: "(u64 \<Rightarrow> u64 \<Rightarrow> 's \<Rightarrow> (bool \<times> 's) result) \<Rightarrow> (u64 \<times> u64) list \<Rightarrow> 's \<Rightarrow>
    ((u64 \<times> u64) list \<times> 's) result" where
  "create_all c [] s = Inr ([], s)"
| "create_all c ((a, n) # qs) s =
     rbind (c a n s) (\<lambda>(b, t). rbind (create_all c qs t) (\<lambda>(g, u). Inr (if b then (a, n) # g else g, u)))"

definition bytes_of :: "u64 \<times> u64 \<Rightarrow> nat \<times> nat" where
  "bytes_of q = (unat (fst q), unat (fst q) + unat (snd q))"

definition apart :: "nat \<times> nat \<Rightarrow> nat \<times> nat \<Rightarrow> bool" where
  "apart x y \<longleftrightarrow> snd x \<le> fst y \<or> snd y \<le> fst x"

definition request_ok :: "u64 \<times> u64 \<Rightarrow> bool" where
  "request_ok q \<longleftrightarrow> 0 < snd q \<and> unat (fst q) + unat (snd q) < 2 ^ 64"

locale region_table =
  fixes ok :: "'s \<Rightarrow> bool" and ranges :: "'s \<Rightarrow> (nat \<times> nat) set"
    and create :: "u64 \<Rightarrow> u64 \<Rightarrow> 's \<Rightarrow> (bool \<times> 's) result"
  assumes create_adds: "ok s \<Longrightarrow> 0 < n \<Longrightarrow> unat a + unat n < 2 ^ 64 \<Longrightarrow> create a n s = Inr (True, t) \<Longrightarrow>
      ok t \<and> ranges t = insert (unat a, unat a + unat n) (ranges s) \<and>
      (\<forall>x\<in>ranges s. snd x \<le> unat a \<or> unat a + unat n \<le> fst x)"
    and create_refuses: "ok s \<Longrightarrow> 0 < n \<Longrightarrow> unat a + unat n < 2 ^ 64 \<Longrightarrow> create a n s = Inr (False, t) \<Longrightarrow>
      ok t \<and> ranges t = ranges s"
begin

lemma create_all_disjoint:
  "create_all create qs s = Inr (g, t) \<Longrightarrow> ok s \<Longrightarrow> \<forall>q\<in>set qs. request_ok q \<Longrightarrow>
   ok t \<and> ranges t = bytes_of ` set g \<union> ranges s \<and> sorted_wrt apart (map bytes_of g) \<and>
   (\<forall>q\<in>set g. \<forall>x\<in>ranges s. apart x (bytes_of q))"
proof (induction qs arbitrary: s g)
  case (Cons q qs)
  obtain a n where q: "q = (a, n)" by fastforce
  from Cons.prems(1) q obtain b s1 g1 where
    c: "create a n s = Inr (b, s1)" and r: "create_all create qs s1 = Inr (g1, t)"
    and g: "g = (if b then (a, n) # g1 else g1)" by (auto simp: rbind_eq_Inr)
  have v: "0 < n" "unat a + unat n < 2 ^ 64" using Cons.prems(3) q by (simp_all add: request_ok_def)
  have qs: "\<forall>q\<in>set qs. request_ok q" using Cons.prems(3) by simp
  show ?case
  proof (cases b)
    case True
    then have k: "ok s1" "ranges s1 = insert (bytes_of (a, n)) (ranges s)"
      "\<forall>x\<in>ranges s. apart x (bytes_of (a, n))"
      using create_adds [OF Cons.prems(2) v, of s1] c by (simp_all add: bytes_of_def apart_def)
    from Cons.IH [OF r k(1) qs] have
      I: "ok t" "ranges t = bytes_of ` set g1 \<union> ranges s1" "sorted_wrt apart (map bytes_of g1)"
        "\<forall>q\<in>set g1. \<forall>x\<in>ranges s1. apart x (bytes_of q)" by simp_all
    have "g = (a, n) # g1" using g True by simp
    with I k show ?thesis by simp
  next
    case False
    then have k: "ok s1" "ranges s1 = ranges s"
      using create_refuses [OF Cons.prems(2) v, of s1] c by simp_all
    from Cons.IH [OF r k(1) qs] k(2) show ?thesis using g False by simp
  qed
qed simp

end

definition app_ranges :: "NaClApp \<Rightarrow> (nat \<times> nat) set" where
  "app_ranges nap = (\<lambda>r. (dr_lo r, dr_hi r)) ` set (dynamic_regions nap)"

lemma Create_mal:
  assumes "table_ok nap" "NaClDynamicRegionCreate mal nap start n = Inr x"
  shows "dynamic_regions_allocated nap = length (dynamic_regions nap) \<longrightarrow>
           mal (24 * dynamic_regions_allocated (grown nap))"
  using assms(2) by (auto simp: NaClDynamicRegionCreate_def grown_def Let_def split: if_splits)

interpretation dyn_regions: region_table table_ok app_ranges "\<lambda>a n nap. NaClDynamicRegionCreate mal nap a n"
proof unfold_locales
  fix nap n a t
  assume a: "table_ok nap" "0 < n" "unat a + unat n < 2 ^ 64" "NaClDynamicRegionCreate mal nap a n = Inr (True, t)"
  note C = Create_cases [where mal = mal, OF a(1-3) Create_mal [OF a(1,4)]]
  have none: "\<forall>r\<in>set (dynamic_regions nap). \<not> overlaps (unat a) (unat a + unat n) r" using C(1) a(4) by auto
  from C(2) [OF this] a(4) none show "table_ok t \<and> app_ranges t = insert (unat a, unat a + unat n) (app_ranges nap) \<and>
      (\<forall>x\<in>app_ranges nap. snd x \<le> unat a \<or> unat a + unat n \<le> fst x)"
    by (auto simp: app_ranges_def overlaps_def not_less)
next
  fix nap n a t
  assume a: "table_ok nap" "0 < n" "unat a + unat n < 2 ^ 64" "NaClDynamicRegionCreate mal nap a n = Inr (False, t)"
  note C = Create_cases [where mal = mal, OF a(1-3) Create_mal [OF a(1,4)]]
  have "\<exists>r\<in>set (dynamic_regions nap). overlaps (unat a) (unat a + unat n) r" using C(2) a(4) by auto
  from C(1) [OF this] a(4) show "table_ok t \<and> app_ranges t = app_ranges nap" by (simp add: app_ranges_def)
qed

text \<open>
  C25. Any sequence of requests to \<open>NaClDynamicRegionCreate\<close>: the ranges it grants share no byte
  with each other nor with a region that was in the table before, and the table afterwards
  holds exactly those and the regions from before.
\<close>

theorem RegionCreate_sequence:
  assumes "create_all (\<lambda>a n nap. NaClDynamicRegionCreate mal nap a n) qs nap = Inr (g, nap')"
    and "table_ok nap" "\<forall>q\<in>set qs. request_ok q"
  shows "table_ok nap' \<and> app_ranges nap' = bytes_of ` set g \<union> app_ranges nap \<and>
    sorted_wrt apart (map bytes_of g) \<and> (\<forall>q\<in>set g. \<forall>x\<in>app_ranges nap. apart x (bytes_of q))"
  using dyn_regions.create_all_disjoint [OF assms] .

theorem RegionCreate_sequence_witness:
  "\<exists>nap'. create_all (\<lambda>a n nap. NaClDynamicRegionCreate (\<lambda>_. True) nap a n) [(96, 32), (100, 8)] nap_regions =
            Inr ([(96, 32)], nap') \<and> table_ok nap'"
proof -
  have free: "\<forall>r\<in>set (dynamic_regions nap_regions). \<not> overlaps 96 128 r"
    by (simp add: nap_regions_def overlaps_def)
  obtain pre post where
    a: "NaClDynamicRegionCreate (\<lambda>_. True) nap_regions 96 32 =
          Inr (True, (grown nap_regions)\<lparr>dynamic_regions := pre @ region 96 32 # post\<rparr>)" and
    b: "table_ok ((grown nap_regions)\<lparr>dynamic_regions := pre @ region 96 32 # post\<rparr>)"
    using Create_cases(2) [OF table_ok_nap_regions, of 32 96 "\<lambda>_. True"] free by auto
  define n1 where "n1 = (grown nap_regions)\<lparr>dynamic_regions := pre @ region 96 32 # post\<rparr>"
  have "overlaps 100 108 (region 96 32)" by (simp add: overlaps_def)
  then have c: "NaClDynamicRegionCreate (\<lambda>_. True) n1 100 8 = Inr (False, grown n1)"
    using Create_cases(1) [OF b [folded n1_def], of 8 100 "\<lambda>_. True"] by (auto simp: n1_def)
  have all: "create_all (\<lambda>a n nap. NaClDynamicRegionCreate (\<lambda>_. True) nap a n) [(96, 32), (100, 8)] nap_regions =
      Inr ([(96, 32)], grown n1)"
    using a c by (simp add: n1_def)
  from RegionCreate_sequence [OF all table_ok_nap_regions] all show ?thesis
    by (simp add: request_ok_def)
qed

end
