(* ===== verification/DynCode.thy ===== *)
theory DynCode
  imports DynRegions
begin

text \<open>
  Loading code: writing it so that no partly written bundle can be entered, the checks
  of \<open>NaClTextDyncodeCreate\<close>, and an error of the mapping that goes unnoticed.
\<close>

section \<open>Writing through a mapping\<close>

text \<open>\<open>window s a n d off\<close>: the \<open>n\<close> bytes from \<open>a\<close> are those of object \<open>d\<close> from \<open>off\<close> on.\<close>

definition window :: "aspace \<Rightarrow> u64 \<Rightarrow> nat \<Rightarrow> nat \<Rightarrow> u64 \<Rightarrow> bool" where
  "window s a n d off \<longleftrightarrow> (\<forall>i<n. backing s (a + of_nat i) = Some (d, off + of_nat i))"

definition shm_upd :: "nat \<Rightarrow> (memory \<Rightarrow> memory) \<Rightarrow> aspace \<Rightarrow> aspace" where
  "shm_upd d f s = s\<lparr>shm_bytes := (shm_bytes s)(d := f (shm_bytes s d))\<rparr>"

lemma shm_upd_simps [simp]:
  "backing (shm_upd d f s) = backing s" "anon (shm_upd d f s) = anon s"
  "page_prot (shm_upd d f s) = page_prot s" "shm_bytes (shm_upd d f s) d = f (shm_bytes s d)"
  "window (shm_upd d f s) a n d' off = window s a n d' off"
  by (simp_all add: shm_upd_def window_def)

lemma shm_upd_comp: "shm_upd d f (shm_upd d g s) = shm_upd d (\<lambda>m. f (g m)) s"
  by (simp add: shm_upd_def)

lemma shm_upd_id: "shm_upd d (\<lambda>m. m) s = s"
  by (simp add: shm_upd_def)

lemma window_sub:
  "window s a n d off \<Longrightarrow> i + k \<le> n \<Longrightarrow> window s (a + of_nat i) k d (off + of_nat i)"
  by (auto simp: window_def add.assoc simp flip: of_nat_add)

lemma rd_window: "window s a n d off \<Longrightarrow> i < n \<Longrightarrow> rd s (a + of_nat i) = shm_bytes s d (off + of_nat i)"
  by (simp add: rd_def window_def)

lemma wr_bytes_window:
  "window s a n d off \<Longrightarrow> length bs \<le> n \<Longrightarrow> n \<le> 2 ^ 64 \<Longrightarrow> wr_bytes a bs s = shm_upd d (mem_store off bs) s"
proof (induction bs arbitrary: a n off s)
  case Nil
  then show ?case by (simp add: mem_store_def shm_upd_def)
next
  case (Cons b bs)
  let ?s = "shm_upd d (\<lambda>m. m(off := b)) s"
  have "wr a b s = ?s"
    using Cons.prems by (force simp: wr_def window_def shm_upd_def)
  moreover have "window ?s (a + 1) (n - 1) d (off + 1)"
    using window_sub [OF Cons.prems(1), of 1 "n - 1"] Cons.prems(2) by simp
  moreover have "mem_store (off + 1) bs (m(off := b)) = mem_store off (b # bs) m" for m
  proof (rule ext)
    fix x
    have u: "unat (x - off) = Suc (unat (x - (off + 1)))" if "x \<noteq> off"
    proof -
      have "x - off \<noteq> 0" using that by simp
      then have "unat (x - off) \<noteq> 0" by (metis unsigned_eq_0_iff)
      then have "unat (x - off - 1) = unat (x - off) - 1" by (simp add: unat_sub word_le_nat_alt)
      with \<open>unat (x - off) \<noteq> 0\<close> show ?thesis by (simp add: diff_diff_add)
    qed
    have z: "\<not> unat (off - (off + 1)) < length bs"
      using Cons.prems(2,3) by (simp add: unsigned_minus_1_eq_mask mask_eq_exp_minus_1)
    show "mem_store (off + 1) bs (m(off := b)) x = mem_store off (b # bs) m x"
      using u z by (cases "x = off") (simp_all add: mem_store_def)
  qed
  ultimately show ?case
    using Cons.IH [of ?s "a + 1" "n - 1" "off + 1"] Cons.prems(2,3)
    by (simp add: shm_upd_comp)
qed

section \<open>Copying bundles\<close>

text \<open>
  \<open>partly\<close>: of the object, the bytes whose distance from \<open>off\<close> satisfies \<open>P\<close> come from the code.
\<close>

definition partly :: "u64 \<Rightarrow> u8 list \<Rightarrow> (nat \<Rightarrow> bool) \<Rightarrow> memory \<Rightarrow> memory" where
  "partly off cod P m = (\<lambda>x. if P (unat (x - off)) then cod ! unat (x - off) else m x)"

lemma partly_False [simp]: "partly off cod (\<lambda>_. False) m = m"
  by (simp add: partly_def)

lemma shm_upd_partly_False [simp]: "shm_upd d (partly off cod (\<lambda>_. False)) s = s"
  by (simp add: shm_upd_def)

lemma partly_cong: "(\<And>j. P j \<longleftrightarrow> Q j) \<Longrightarrow> partly off cod P m = partly off cod Q m"
  by (simp add: partly_def)

lemma partly_comp: "partly off cod P (partly off cod Q m) = partly off cod (\<lambda>j. P j \<or> Q j) m"
  by (rule ext) (simp add: partly_def)

lemma mem_store_partly:
  assumes "i + 4 \<le> length cod" "length cod < 2 ^ 64"
  shows "mem_store (off + of_nat i) (take 4 (drop i cod)) m = partly off cod (\<lambda>j. i \<le> j \<and> j < i + 4) m"
proof (rule ext)
  fix x
  define j where "j = unat (x - off)"
  have x: "x = off + of_nat j" by (simp add: j_def)
  have j: "j < 2 ^ 64" unfolding j_def using unsigned_less [of "x - off"] by simp
  have e: "x - (off + of_nat i) = of_nat j - of_nat i" unfolding x by simp
  have d: "unat (x - (off + of_nat i)) = (if i \<le> j then j - i else 2 ^ 64 + j - i)"
  proof (cases "i \<le> j")
    case True
    then have "of_nat j - of_nat i = (of_nat (j - i) :: u64)" by (simp add: of_nat_diff)
    with True j show ?thesis unfolding e by (simp only: unat_of_nat) simp
  next
    case False
    then have "of_nat j - of_nat i = (of_nat (2 ^ 64 + j - i) :: u64)"
      using assms by (simp add: of_nat_diff)
    with False assms show ?thesis unfolding e by (simp only: unat_of_nat) simp
  qed
  show "mem_store (off + of_nat i) (take 4 (drop i cod)) m x = partly off cod (\<lambda>j. i \<le> j \<and> j < i + 4) m x"
    using assms unfolding mem_store_def partly_def d j_def [symmetric] by auto
qed

lemma copy32_window:
  assumes "window s dest n d off" "length cod = n" "n < 2 ^ 64" "i + 4 \<le> n"
  shows "copy32 (dest + of_nat i) cod i s = Inr (shm_upd d (partly off cod (\<lambda>j. i \<le> j \<and> j < i + 4)) s)"
proof -
  have "window s (dest + of_nat i) 4 d (off + of_nat i)" by (rule window_sub [OF assms(1,4)])
  from wr_bytes_window [OF this, of "take 4 (drop i cod)"] show ?thesis
    using assms mem_store_partly [of i cod off]
    by (simp add: copy32_def shm_upd_def)
qed

lemma group_head:
  assumes "4 dvd B" "0 < B" "4 * i \<le> j" "j < 4 * i + (4::nat)"
  shows "j mod B < 4 \<longleftrightarrow> (4 * i) mod B = 0"
proof -
  define c where "c = (4 * i) mod B"
  have c4: "4 dvd c" unfolding c_def using assms(1) by (simp add: dvd_mod)
  have "c < B" using assms(2) by (simp add: c_def)
  then have cB: "c + 4 \<le> B" using c4 assms(1) by (auto elim!: dvdE)
  have "j mod B = (4 * i + (j - 4 * i)) mod B" using assms(3) by simp
  also have "\<dots> = (c + (j - 4 * i)) mod B" unfolding c_def by (simp only: mod_add_left_eq)
  also have "\<dots> = c + (j - 4 * i)" using cB assms(3,4) by (intro mod_less) linarith
  finally have "j mod B = c + (j - 4 * i)" .
  moreover have "c = 0 \<or> 4 \<le> c" using c4 by (auto elim!: dvdE)
  ultimately show ?thesis using assms(3,4) by (auto simp: c_def [symmetric])
qed

text \<open>The destination of a copy: a window, aligned to bundles of \<open>2 ^ k\<close> bytes.\<close>

definition copy_dest :: "aspace \<Rightarrow> u64 \<Rightarrow> u8 list \<Rightarrow> u32 \<Rightarrow> nat \<Rightarrow> nat \<Rightarrow> u64 \<Rightarrow> bool" where
  "copy_dest s dest cod n k d off \<longleftrightarrow>
     window s dest (unat n) d off \<and> length cod = unat n \<and> unat n < 2 ^ 31 \<and>
     unat dest + unat n < 2 ^ 64 \<and> 2 \<le> k \<and> k < 32 \<and> 2 ^ k dvd unat dest \<and> 2 ^ k dvd unat n"

lemma copy_dest_facts:
  assumes "copy_dest s dest cod n k d off"
  shows "4 dvd (2::nat) ^ k" "dest AND 3 = 0" "4 dvd unat n"
    "i \<le> unat n \<Longrightarrow> unat (dest + of_nat i) = unat dest + i"
proof -
  show four: "4 dvd (2::nat) ^ k" using assms le_imp_power_dvd [of 2 k "2::nat"] by (simp add: copy_dest_def)
  have d: "2 ^ k dvd unat dest" "2 ^ k dvd unat n" using assms by (simp_all add: copy_dest_def)
  show "4 dvd unat n" using four d(2) by (rule dvd_trans)
  have "unat (dest AND mask 2) = 0" using dvd_trans [OF four d(1)] by (simp add: dvd_eq_mod_eq_0)
  moreover have "mask 2 = (3 :: u64)" by (simp add: mask_eq_exp_minus_1)
  ultimately show "dest AND 3 = 0" by (metis unsigned_eq_0_iff)
  assume "i \<le> unat n"
  then have i: "i < 2 ^ 64" "unat dest + i < 2 ^ 64" using assms by (simp_all add: copy_dest_def)
  then show "unat (dest + of_nat i) = unat dest + i"
    by (subst unat_plus_nowrap) (simp_all add: unat_of_nat)
qed

lemma scast_small: "unat (n :: u32) < 2 ^ 31 \<Longrightarrow> (scast n :: u64) = of_nat (unat n)"
  by (simp add: scast_eq sint_small32)

lemma sint_bound64: "unat (x :: u64) < 2 ^ 31 \<Longrightarrow> sint x < 2 ^ 31"
proof -
  assume a: "unat x < 2 ^ 31"
  then have "int (unat x) < int (2 ^ 31)" by (simp only: of_nat_less_iff)
  moreover have "sint x = int (unat x)" by (rule sint_small64) (use a in simp)
  ultimately show ?thesis by (simp only: of_nat_power of_nat_numeral)
qed

lemma CopyBundleTails_window:
  assumes cd: "copy_dest s dest cod n k d off"
  shows "CopyBundleTails dest cod n (2 ^ k) s =
           Inr (shm_upd d (partly off cod (\<lambda>j. j < unat n \<and> \<not> j mod 2 ^ k < 4)) s)"
proof -
  let ?B = "(2::nat) ^ k" and ?R = "unat n div 4"
  let ?P = "\<lambda>i j. j < 4 * i \<and> \<not> j mod 2 ^ k < 4"
  let ?I = "\<lambda>i st. st = (4 * i, shm_upd d (partly off cod (?P i)) s)"
  let ?f = "\<lambda>dest_ptr (i, s). rbind (if dest_ptr AND (2 ^ k - 1) \<noteq> 0 then copy32 dest_ptr cod i s else Inr s)
              (\<lambda>s. Inr (Inr (i + 4, s)) :: (unit + nat \<times> aspace) result)"
  have w: "window s dest (unat n) d off" "length cod = unat n" "unat n < 2 ^ 31" "unat dest + unat n < 2 ^ 64"
    "k < 32" "?B dvd unat dest" using cd by (simp_all add: copy_dest_def)
  note F = copy_dest_facts [OF cd]
  have R: "4 * ?R = unat n" using F(3) by simp
  have step: "\<exists>st'. ?f (dest + of_nat i * 4) st = Inr (Inr st') \<and> ?I (0 + Suc i) st'"
    if i: "i < ?R" and st: "?I (0 + i) st" for i st
  proof -
    have i4: "4 * i + 4 \<le> unat n" using i R by linarith
    have p: "dest + of_nat i * 4 = dest + of_nat (4 * i)" by simp
    have m: "(2 ^ k - 1 :: u64) = mask k" by (simp add: mask_eq_exp_minus_1)
    have "unat ((dest + of_nat (4 * i)) AND mask k) = (4 * i) mod ?B"
      using F(4) [of "4 * i"] i4 w(6) by (simp add: mod_add_left_eq [symmetric] dvd_eq_mod_eq_0)
    then have test: "(dest + of_nat (4 * i)) AND (2 ^ k - 1) \<noteq> 0 \<longleftrightarrow> (4 * i) mod ?B \<noteq> 0"
      unfolding m by (metis unsigned_eq_0_iff)
    have grp: "j mod ?B < 4 \<longleftrightarrow> (4 * i) mod ?B = 0" if "4 * i \<le> j" "j < 4 * i + 4" for j
      using group_head [OF F(1) _ that] by simp
    show ?thesis
    proof (cases "(4 * i) mod ?B = 0")
      case True
      then have "partly off cod (?P i) = partly off cod (?P (Suc i))"
        using grp by (intro ext partly_cong) (metis add.commute mult_Suc_right not_less trans_less_add1)
      with True test st show ?thesis by (simp only: p) simp
    next
      case False
      have "copy32 (dest + of_nat (4 * i)) cod (4 * i) (snd st) =
          Inr (shm_upd d (partly off cod (\<lambda>j. 4 * i \<le> j \<and> j < 4 * i + 4)) (snd st))"
        by (rule copy32_window) (use w i4 st in simp_all)
      moreover have "(4 * i \<le> j \<and> j < 4 * i + 4) \<or> ?P i j \<longleftrightarrow> ?P (Suc i) j" for j
        using grp [of j] False by auto
      ultimately show ?thesis
        using False test st by (simp only: p) (simp add: shm_upd_comp partly_comp)
    qed
  qed
  have "\<exists>st'. ptr_loop loop_rounds 4 ?f dest (dest + scast n) (0, s) = Inr (Inr st') \<and> ?I (0 + ?R) st'"
  proof (rule ptr_loop_inv [where I = ?I and ?i0.0 = 0 and n = ?R and f = ?f])
    have e: "unat (dest + scast n) = unat dest + unat n" using F(4) [of "unat n"] scast_small [OF w(3)] by simp
    show "unat dest + ?R * unat (4::u64) < 2 ^ 64" "unat (dest + scast n) \<le> unat dest + ?R * unat (4::u64)"
      using w(4) e R by simp_all
    show "\<forall>i<?R. unat dest + i * unat (4::u64) < unat (dest + scast n)" using e R by simp
    show "?R < loop_rounds" using w(3) by (simp add: loop_rounds_def)
    show "?I 0 (0, s)" by simp
    show "\<exists>st'. ?f (dest + of_nat i * 4) st = Inr (Inr st') \<and> ?I (0 + Suc i) st'"
      if "i < ?R" "?I (0 + i) st" for i st using that by (rule step)
  qed
  then show ?thesis
    using F(2) R by (simp add: CopyBundleTails_def)
qed

lemma bundle_mod:
  assumes "B * i \<le> j" "j < B * Suc i"
  shows "j mod B = j - B * (i::nat)"
proof -
  have "j = B * i + (j - B * i)" using assms(1) by simp
  then have "j mod B = (j - B * i) mod B" by (metis mod_mult_self4 mult.commute)
  also have "\<dots> = j - B * i" using assms by (intro mod_less) simp
  finally show ?thesis .
qed

lemma CopyBundleHeads_window:
  assumes cd: "copy_dest s dest cod n k d off"
  shows "CopyBundleHeads dest cod n (2 ^ k) s =
           Inr (shm_upd d (partly off cod (\<lambda>j. j < unat n \<and> j mod 2 ^ k < 4)) s)"
proof -
  let ?B = "(2::nat) ^ k" and ?R = "unat n div 2 ^ k"
  let ?P = "\<lambda>i j. j < 2 ^ k * i \<and> j mod 2 ^ k < (4::nat)"
  let ?I = "\<lambda>i st. st = (2 ^ k * i, shm_upd d (partly off cod (?P i)) s)"
  let ?f = "\<lambda>dest_ptr (i, s). rbind (copy32 dest_ptr cod i s)
              (\<lambda>s. Inr (Inr (i + unat (2 ^ k :: u64), s)) :: (unit + nat \<times> aspace) result)"
  have w: "window s dest (unat n) d off" "length cod = unat n" "unat n < 2 ^ 31" "unat dest + unat n < 2 ^ 64"
    "k < 32" "?B dvd unat n" "2 \<le> k" using cd by (simp_all add: copy_dest_def)
  note F = copy_dest_facts [OF cd]
  have R: "?B * ?R = unat n" using w(6) by simp
  have B: "unat (2 ^ k :: u64) = ?B" using w(5) by simp
  have B4: "4 \<le> ?B" using F(1) by (simp add: dvd_imp_le)
  have step: "\<exists>st'. ?f (dest + of_nat i * 2 ^ k) st = Inr (Inr st') \<and> ?I (0 + Suc i) st'"
    if i: "i < ?R" and st: "?I (0 + i) st" for i st
  proof -
    have "?B * Suc i \<le> ?B * ?R" using i by (intro mult_le_mono2) simp
    then have i4: "?B * i + 4 \<le> unat n" using R B4 by simp
    have p: "dest + of_nat i * 2 ^ k = dest + of_nat (2 ^ k * i)" by simp
    have "copy32 (dest + of_nat (2 ^ k * i)) cod (2 ^ k * i) (snd st) =
        Inr (shm_upd d (partly off cod (\<lambda>j. 2 ^ k * i \<le> j \<and> j < 2 ^ k * i + 4)) (snd st))"
      by (rule copy32_window) (use w i4 st in simp_all)
    moreover have "(2 ^ k * i \<le> j \<and> j < 2 ^ k * i + 4) \<or> ?P i j \<longleftrightarrow> ?P (Suc i) j" for j
    proof (cases "?B * i \<le> j \<and> j < ?B * Suc i")
      case True
      then show ?thesis using bundle_mod [of ?B i j] B4 by auto
    next
      case False
      then show ?thesis using B4 by auto
    qed
    ultimately show ?thesis
      using st B by (simp only: p) (simp add: shm_upd_comp partly_comp)
  qed
  have "\<exists>st'. ptr_loop loop_rounds (2 ^ k) ?f dest (dest + ucast n) (0, s) = Inr (Inr st') \<and> ?I (0 + ?R) st'"
  proof (rule ptr_loop_inv [where I = ?I and ?i0.0 = 0 and n = ?R and f = ?f])
    have e: "unat (dest + ucast n) = unat dest + unat n"
      using F(4) [of "unat n"] by simp
    have R': "?R * ?B = unat n" using R by (simp add: mult.commute)
    show "unat dest + ?R * unat (2 ^ k :: u64) < 2 ^ 64" "unat (dest + ucast n) \<le> unat dest + ?R * unat (2 ^ k :: u64)"
      using w(4) e R' B by simp_all
    have "i * ?B < unat n" if "i < ?R" for i
      using that R' by (metis mult_less_mono1 zero_less_numeral zero_less_power)
    then show "\<forall>i<?R. unat dest + i * unat (2 ^ k :: u64) < unat (dest + ucast n)" using e B by simp
    have "?R \<le> unat n" by simp
    also have "\<dots> < loop_rounds" using w(3) by (simp add: loop_rounds_def)
    finally show "?R < loop_rounds" .
    show "?I 0 (0, s)" by simp
    show "\<exists>st'. ?f (dest + of_nat i * 2 ^ k) st = Inr (Inr st') \<and> ?I (0 + Suc i) st'"
      if "i < ?R" "?I (0 + i) st" for i st using that by (rule step)
  qed
  then show ?thesis
    using F(2) R by (simp add: CopyBundleHeads_def)
qed

text \<open>
  C23. \<open>CopyCodeSafelyInitial\<close>, through any window of the shared object aligned to bundles: after
  \<open>CopyBundleTails\<close> the first four bytes of every bundle are still what they were (halts), so no
  bundle can be entered, and everything else is the code; after \<open>CopyBundleHeads\<close> every byte of
  the destination is the code, and no other byte of any object, and no private byte, has changed.
\<close>

theorem CopyCodeSafelyInitial_correct:
  assumes "copy_dest s dest cod n k d off"
  shows "\<exists>t s'. CopyBundleTails dest cod n (2 ^ k) s = Inr t \<and>
    (\<forall>i<unat n. rd t (dest + of_nat i) = (if i mod 2 ^ k < 4 then rd s (dest + of_nat i) else cod ! i)) \<and>
    CopyCodeSafelyInitial dest cod n (2 ^ k) s = Inr s' \<and>
    (\<forall>i<unat n. rd s' (dest + of_nat i) = cod ! i) \<and>
    anon s' = anon s \<and> backing s' = backing s \<and> page_prot s' = page_prot s \<and>
    (\<forall>e x. e \<noteq> d \<or> unat n \<le> unat (x - off) \<longrightarrow> shm_bytes s' e x = shm_bytes s e x)"
proof -
  have w: "window s dest (unat n) d off" "unat n < 2 ^ 31" using assms by (simp_all add: copy_dest_def)
  let ?T = "\<lambda>j. j < unat n \<and> \<not> j mod 2 ^ k < 4" and ?A = "\<lambda>j. j < unat n"
  let ?t = "shm_upd d (partly off cod ?T) s" and ?s' = "shm_upd d (partly off cod ?A) s"
  have tails: "CopyBundleTails dest cod n (2 ^ k) s = Inr ?t" by (rule CopyBundleTails_window [OF assms])
  have "copy_dest ?t dest cod n k d off" using assms by (simp add: copy_dest_def)
  note heads = CopyBundleHeads_window [OF this]
  have "shm_upd d (partly off cod (\<lambda>j. j < unat n \<and> j mod 2 ^ k < 4)) ?t = ?s'"
    by (simp add: shm_upd_comp partly_comp) (metis (no_types, lifting) partly_cong)
  then have all: "CopyCodeSafelyInitial dest cod n (2 ^ k) s = Inr ?s'"
    by (simp add: CopyCodeSafelyInitial_def tails heads)
  have idx: "unat (off + of_nat i - off) = i" if "i < unat n" for i
    using that w(2) by (simp add: unat_of_nat)
  have val: "rd (shm_upd d (partly off cod P) s) (dest + of_nat i) =
      (if P i then cod ! i else rd s (dest + of_nat i))" if "i < unat n" for P i
    using rd_window [OF w(1) that] rd_window [of "shm_upd d (partly off cod P) s" dest "unat n" d off i] w(1) that
      idx [OF that] by (simp add: partly_def del: add_diff_cancel_left')
  have frame: "shm_bytes ?s' e x = shm_bytes s e x" if "e \<noteq> d \<or> unat n \<le> unat (x - off)" for e x
    using that by (auto simp: shm_upd_def partly_def)
  show ?thesis
    by (rule exI [of _ ?t], rule exI [of _ ?s']) (use tails all val frame in simp)
qed

definition as_window :: aspace where
  "as_window = \<lparr>anon = (\<lambda>_. 0), shm_bytes = (\<lambda>_ _. 0xf4),
     backing = (\<lambda>a. if a - 0x10000 < 0x10000 then Some (3, a - 0x10000) else None), page_prot = (\<lambda>_. 0)\<rparr>"

theorem CopyCodeSafelyInitial_correct_witness:
  "copy_dest as_window 0x10000 (replicate 64 0x90) 64 5 3 0 \<and>
   (\<exists>s'. CopyCodeSafelyInitial 0x10000 (replicate 64 0x90) 64 (2 ^ 5) as_window = Inr s' \<and>
      rd s' (0x10000 + of_nat 33) = 0x90)"
proof -
  have "of_nat i < (0x10000 :: u64)" if "i < 64" for i
    using that by (simp add: word_less_nat_alt unat_of_nat)
  then have cd: "copy_dest as_window 0x10000 (replicate 64 0x90) 64 5 3 0"
    by (simp add: copy_dest_def window_def as_window_def)
  from CopyCodeSafelyInitial_correct [OF cd] obtain s' where
    s': "CopyCodeSafelyInitial 0x10000 (replicate 64 0x90) 64 (2 ^ 5) as_window = Inr s'"
    "\<forall>i<unat (64::u32). rd s' (0x10000 + of_nat i) = replicate 64 0x90 ! i" by blast
  have "rd s' (0x10000 + of_nat 33) = 0x90" using s'(2) [rule_format, of 33] by simp
  with cd s'(1) show ?thesis by blast
qed

section \<open>A mapping error that is not noticed\<close>

lemma move_value: "word_of_int (- NACL_ABI_E_MOVE_ADDRESS_SPACE) = (0xffffffffc0000000 :: u64)"
  by (simp add: NACL_ABI_E_MOVE_ADDRESS_SPACE_def)

lemma move_is_not_errno: "\<not> NaClPtrIsNegErrno (word_of_int (- NACL_ABI_E_MOVE_ADDRESS_SPACE))"
  by (simp add: NaClPtrIsNegErrno_def NACL_ABI_E_MOVE_ADDRESS_SPACE_def)

text \<open>
  C29. \<open>CachedMapWritableText\<close> when the system refuses to map a page of the object: the error code of
  \<open>NaClDescImcShmMap\<close> for that, \<open>-NACL_ABI_E_MOVE_ADDRESS_SPACE\<close>, is no errno to \<open>NaClPtrIsNegErrno\<close>,
  so it is taken for the address of the mapping and the pages are filled through it.
\<close>

theorem CachedMapWritableText_unnoticed:
  assumes "text_shm nap = Some d" "dynamic_mapcache_size nap = 0" "0 < n"
    and found: "os_mmap h 0 (ucast n) (MAP_ANONYMOUS OR MAP_NORESERVE OR MAP_PRIVATE) = Some a"
      "unat a + unat n < 2 ^ 64"
    and small: "unat off + unat n + 65536 < 2 ^ 31"
    and fails: "\<And>x m p f e o'. os_mmap_fd h x m p f e o' = None"
  shows "CachedMapWritableText h off n (nap, s) =
     rbind (visible_loop h [unat (off div 65536)..<unat ((off + n) div 65536)] 0xffffffffc0000000
              (nap, map_anon a (ucast n) (PROT_READ OR PROT_WRITE) s))
       (\<lambda>(nap, s). Inr (0xffffffffc0000000, nap\<lparr>dynamic_mapcache_offset := off,
          dynamic_mapcache_size := n, dynamic_mapcache_ret := 0xffffffffc0000000\<rparr>, s))"
proof -
  let ?shm = "\<lparr>shm_h = d, shm_size = uint (dynamic_text_end nap - dynamic_text_start nap)\<rparr>"
  let ?s = "map_anon a (ucast n) (PROT_READ OR PROT_WRITE) s"
  have miss: "off \<noteq> dynamic_mapcache_offset nap \<or> n \<noteq> dynamic_mapcache_size nap" using assms(2,3) by auto
  have e: "unat (a + ucast n) = unat a + unat n" by (rule trans [OF unat_plus_nowrap]) (use found in simp_all)
  have pos: "0 < unat n" using assms(3) by (metis unat_0 word_less_nat_alt)
  have lt: "a < a + ucast n" using e pos by (simp add: word_less_nat_alt)
  obtain k where k: "loop_rounds = Suc k" by (metis Suc_eq_plus1 loop_rounds_def)
  have "ptr_loop loop_rounds NACL_MAP_PAGESIZE (shm_map_page h kNaClDescEffectorShmVtbl ?shm f p g)
          a (a + ucast n) (x, ?s) = Inr (Inl (word_of_int (- NACL_ABI_E_MOVE_ADDRESS_SPACE), ?s))" for f p g x
    using lt by (simp add: k shm_map_page_def NaClMap_def fails Let_def
      kNaClDescEffectorShmVtbl_def NaClDescEffectorShmUnmapMemory_def)
  moreover have "\<not> 2 ^ 31 - 1 < sint ((ucast off + ucast n + NACL_MAP_PAGESIZE - 1) AND NOT (NACL_MAP_PAGESIZE - 1) :: u64)"
  proof -
    let ?w = "ucast off + ucast n + NACL_MAP_PAGESIZE - 1 :: u64"
    have w: "?w = ucast off + (ucast n + 65535)" by (simp add: config_defs)
    have "unat (ucast n + 65535 :: u64) = unat n + 65535"
      by (rule trans [OF unat_plus_nowrap]) (use small in simp_all)
    then have "unat ?w = unat off + (unat n + 65535)"
      unfolding w by (intro trans [OF unat_plus_nowrap]) (use small in simp_all)
    moreover have "?w AND NOT (NACL_MAP_PAGESIZE - 1) \<le> ?w"
      using alloc.trunc_le [of ?w] by (simp add: NaClTruncAllocPage_def)
    ultimately have "unat (?w AND NOT (NACL_MAP_PAGESIZE - 1)) < 2 ^ 31"
      using small by (simp add: word_le_nat_alt)
    then show ?thesis using sint_bound64 by fastforce
  qed
  ultimately have "NaClDescImcShmMap h kNaClDescEffectorShmVtbl ?shm 0 (ucast n)
      (NACL_ABI_PROT_READ OR NACL_ABI_PROT_WRITE) NACL_ABI_MAP_SHARED (ucast off) s =
      Inr (0xffffffffc0000000, ?s)"
    using found(1) move_value
    by (simp add: NaClDescImcShmMap_def NaClFindAddressSpace_def Let_def NACL_ABI_MAP_SHARED_def
        NACL_ABI_MAP_SHARING_MASK_def NACL_ABI_MAP_FIXED_def NACL_ABI_PROT_READ_def
        NACL_ABI_PROT_WRITE_def NACL_ABI_PROT_EXEC_def)
  then show ?thesis
    using assms(1-3) miss move_is_not_errno unfolding move_value
    by (simp add: CachedMapWritableText_def)
qed

theorem CachedMapWritableText_unnoticed_witness:
  "\<exists>h nap s. text_shm nap = Some 3 \<and> (\<forall>x m p f e o'. os_mmap_fd h x m p f e o' = None) \<and>
     CachedMapWritableText h 0 65536 (nap, s) =
       rbind (visible_loop h [0..<1] 0xffffffffc0000000 (nap, map_anon 0x200000 65536 (PROT_READ OR PROT_WRITE) s))
         (\<lambda>(nap, s). Inr (0xffffffffc0000000, nap\<lparr>dynamic_mapcache_offset := 0,
            dynamic_mapcache_size := 65536, dynamic_mapcache_ret := 0xffffffffc0000000\<rparr>, s))"
proof -
  let ?h = "host_example\<lparr>os_mmap_fd := \<lambda>_ _ _ _ _ _. None\<rparr>"
  let ?nap = "nap_example\<lparr>text_shm := Some 3, dynamic_mapcache_size := 0\<rparr>"
  have m: "os_mmap ?h 0 (ucast (65536 :: u32)) f = Some 0x200000" for f by (simp add: host_example_def)
  have "CachedMapWritableText ?h 0 65536 (?nap, as_window) =
       rbind (visible_loop ?h [0..<1] 0xffffffffc0000000
                (?nap, map_anon 0x200000 65536 (PROT_READ OR PROT_WRITE) as_window))
         (\<lambda>(nap, s). Inr (0xffffffffc0000000, nap\<lparr>dynamic_mapcache_offset := 0,
            dynamic_mapcache_size := 65536, dynamic_mapcache_ret := 0xffffffffc0000000\<rparr>, s))"
    using CachedMapWritableText_unnoticed [OF _ _ _ m, of ?nap 3 0 as_window] by simp
  then show ?thesis by (intro exI [of _ ?h] exI [of _ ?nap] exI [of _ as_window]) simp
qed

section \<open>Loading code\<close>

definition same_table :: "NaClApp \<Rightarrow> NaClApp \<Rightarrow> bool" where
  "same_table nap nap' \<longleftrightarrow> dynamic_regions nap' = dynamic_regions nap \<and>
     dynamic_regions_allocated nap' = dynamic_regions_allocated nap"

lemma same_table_ok: "same_table nap nap' \<Longrightarrow> table_ok nap \<Longrightarrow> table_ok nap'"
  by (simp add: same_table_def table_ok_def room_ok_def)

lemma PageVisible_table:
  "MakeDynamicCodePageVisible h i wa (nap, s) = Inr (nap', s') \<Longrightarrow> same_table nap nap'"
  by (auto simp: MakeDynamicCodePageVisible_def rbind_eq_Inr same_table_def Let_def
      split: option.splits if_splits)

lemma visible_loop_table:
  "visible_loop h is wa (nap, s) = Inr (nap', s') \<Longrightarrow> same_table nap nap'"
proof (induction "is" arbitrary: wa nap s)
  case (Cons i "is")
  then obtain nap1 s1 where "MakeDynamicCodePageVisible h (of_nat i) wa (nap, s) = Inr (nap1, s1)"
    "visible_loop h is (wa + NACL_MAP_PAGESIZE) (nap1, s1) = Inr (nap', s')"
    by (auto simp: rbind_eq_Inr)
  with Cons.IH PageVisible_table show ?case by (metis same_table_def)
qed (simp add: same_table_def)

lemma cache_eq_table:
  assumes "nap\<lparr>dynamic_mapcache_offset := a, dynamic_mapcache_size := b, dynamic_mapcache_ret := c\<rparr> =
    nap'\<lparr>dynamic_mapcache_offset := a', dynamic_mapcache_size := b', dynamic_mapcache_ret := c'\<rparr>"
  shows "dynamic_regions nap' = dynamic_regions nap \<and>
    dynamic_regions_allocated nap' = dynamic_regions_allocated nap"
  using arg_cong [OF assms, of dynamic_regions] arg_cong [OF assms, of dynamic_regions_allocated] by simp

lemma CachedMap_table:
  assumes "CachedMapWritableText h off n (nap, s) = Inr (r, nap', s')"
  shows "same_table nap nap'"
  using assms
  by (auto simp: CachedMapWritableText_def rbind_eq_Inr Let_def same_table_def
      dest!: visible_loop_table cache_eq_table split: if_splits option.splits)

lemma MapWrapper_table:
  "NaclTextMapWrapper h dest n (nap, s) = Inr (a, nap', s') \<Longrightarrow> same_table nap nap'"
  by (auto simp: NaclTextMapWrapper_def rbind_eq_Inr shm_map_range_def Let_def
      dest!: CachedMap_table split: if_splits)

lemma ClearCache_table:
  "NaclTextMapClearCacheIfNeeded h dest n (nap, s) = Inr (nap', s') \<Longrightarrow> same_table nap nap'"
  by (auto simp: NaclTextMapClearCacheIfNeeded_def rbind_eq_Inr shm_map_range_def Let_def
      dest!: CachedMap_table split: if_splits)
     (simp add: same_table_def)

text \<open>The requests that pass the tests before the table is consulted.\<close>

definition dyncode_in_area :: "NaClApp \<Rightarrow> u32 \<Rightarrow> u32 \<Rightarrow> bool" where
  "dyncode_in_area nap dest n \<longleftrightarrow>
     text_shm nap \<noteq> None \<and> ucast dest AND (bundle_size nap - 1) = 0 \<and> ucast n AND (bundle_size nap - 1) = 0 \<and>
     0 < unat dest \<and> unat dest + unat n < 2 ^ addr_bits nap \<and>
     unat (dynamic_text_start nap) \<le> unat dest \<and>
     unat dest + unat n \<le> unat (dynamic_text_end nap - NACL_HALT_SLED_SIZE)"

lemma dyncode_write_table:
  "dyncode_write h dest cod n (nap, s) = Inr (r, nap', s') \<Longrightarrow> same_table nap nap'"
proof -
  have tr: "same_table a b \<Longrightarrow> same_table b c \<Longrightarrow> same_table a c" for a b c by (simp add: same_table_def)
  show "dyncode_write h dest cod n (nap, s) = Inr (r, nap', s') \<Longrightarrow> same_table nap nap'"
    by (auto simp: dyncode_write_def rbind_eq_Inr dest!: MapWrapper_table ClearCache_table
        split: option.splits intro: tr)
qed

lemma DyncodeCreate_guards:
  assumes ok: "app_ok nap" "addr_bits nap \<le> 32"
  shows "dyncode_in_area nap dest n \<and> n \<noteq> 0 \<Longrightarrow>
     NaClTextDyncodeCreate v mal h dest cod n (nap, s) =
       rbind (NaClDynamicRegionCreate mal nap (ucast dest + mem_start nap) (ucast n)) (\<lambda>(ok, nap).
         if \<not> ok then Inr (- NACL_ABI_EINVAL, nap, s)
         else
           let (validator_result, cod') =
                 (if \<not> skip_validator nap then NaClValidateCode v nap (ucast dest) cod else (LOAD_OK, cod)) in
           if validator_result \<noteq> LOAD_OK \<and> \<not> ignore_validator_result nap
           then Inr (- NACL_ABI_EINVAL, nap, s)
           else dyncode_write h dest cod' n (nap, s))"
    and "\<not> dyncode_in_area nap dest n \<Longrightarrow>
     NaClTextDyncodeCreate v mal h dest cod n (nap, s) \<in>
       {Inr (- NACL_ABI_EINVAL, nap, s), Inr (- NACL_ABI_EFAULT, nap, s)}"
proof -
  let ?r = "NaClUserToSysAddrRange nap (ucast dest) (ucast n)"
  note R = Range_accepts [OF ok(1), of "ucast dest" "ucast n"]
  have acc: "?r \<noteq> kNaClBadAddress \<longleftrightarrow> 0 < unat dest \<and> unat dest + unat n < 2 ^ addr_bits nap" using R(1) by simp
  have b: "(2::nat) ^ addr_bits nap \<le> 2 ^ 32" by (rule power_increasing) (use ok(2) in simp_all)
  have sum: "unat (dest + n) = unat dest + unat n" if "unat dest + unat n < 2 ^ addr_bits nap"
    by (rule unat_plus_nowrap) (use that b in simp)
  have val: "?r = ucast dest + mem_start nap" if "?r \<noteq> kNaClBadAddress"
    using that by (auto simp: NaClUserToSysAddrRange_def Let_def split: if_splits)
  have lo: "ucast dest < dynamic_text_start nap \<longleftrightarrow> unat dest < unat (dynamic_text_start nap)"
    by (simp add: word_less_nat_alt)
  have hi: "dynamic_text_end nap - NACL_HALT_SLED_SIZE < ucast (dest + n) \<longleftrightarrow>
      unat (dynamic_text_end nap - NACL_HALT_SLED_SIZE) < unat (dest + n)"
    by (simp add: word_less_nat_alt)
  show "NaClTextDyncodeCreate v mal h dest cod n (nap, s) =
       rbind (NaClDynamicRegionCreate mal nap (ucast dest + mem_start nap) (ucast n)) (\<lambda>(ok, nap).
         if \<not> ok then Inr (- NACL_ABI_EINVAL, nap, s)
         else
           let (validator_result, cod') =
                 (if \<not> skip_validator nap then NaClValidateCode v nap (ucast dest) cod else (LOAD_OK, cod)) in
           if validator_result \<noteq> LOAD_OK \<and> \<not> ignore_validator_result nap
           then Inr (- NACL_ABI_EINVAL, nap, s)
           else dyncode_write h dest cod' n (nap, s))"
    if g: "dyncode_in_area nap dest n \<and> n \<noteq> 0"
  proof -
    have a: "?r \<noteq> kNaClBadAddress" using g acc by (simp add: dyncode_in_area_def)
    have g': "text_shm nap \<noteq> None" "ucast dest AND (bundle_size nap - 1) = 0" "ucast n AND (bundle_size nap - 1) = 0"
      "\<not> ucast dest < dynamic_text_start nap" "\<not> dynamic_text_end nap - NACL_HALT_SLED_SIZE < ucast (dest + n)"
      using g sum lo hi by (simp_all add: dyncode_in_area_def)
    obtain d where d: "text_shm nap = Some d" using g'(1) by blast
    show ?thesis
      using a [symmetric] val [OF a] g g'(2-5) d
      by (simp add: NaClTextDyncodeCreate_def Let_def)
         (intro arg_cong [of _ _ "rbind _"] ext, simp split: prod.splits)
  qed
  assume ng: "\<not> dyncode_in_area nap dest n"
  show "NaClTextDyncodeCreate v mal h dest cod n (nap, s) \<in>
       {Inr (- NACL_ABI_EINVAL, nap, s), Inr (- NACL_ABI_EFAULT, nap, s)}"
  proof (cases "?r = kNaClBadAddress")
    case True
    then show ?thesis by (simp add: NaClTextDyncodeCreate_def Let_def)
  next
    case False
    with ng acc sum lo hi show ?thesis
      by (auto simp: NaClTextDyncodeCreate_def Let_def dyncode_in_area_def)
  qed
qed

text \<open>
  What a successful call has checked and done. The range is in the dynamic code area, before
  its last \<open>NACL_HALT_SLED_SIZE\<close> bytes, the validator has accepted the code, and the range has
  been taken from the free ones.
\<close>

lemma dyncode_range:
  assumes "app_ok nap" "dyncode_in_area nap dest n" "n \<noteq> 0"
  shows "0 < (ucast n :: u64)" "unat (ucast dest + mem_start nap) = unat (mem_start nap) + unat dest"
    "unat (ucast dest + mem_start nap) + unat (ucast n :: u64) < 2 ^ 64"
proof -
  have b: "unat (mem_start nap) + 2 ^ addr_bits nap < 2 ^ 64" "unat dest + unat n < 2 ^ addr_bits nap"
    using assms(1,2) by (simp_all add: app_ok_def dyncode_in_area_def)
  have "unat n \<noteq> 0" using assms(3) by (metis unsigned_eq_0_iff)
  then show "0 < (ucast n :: u64)" by (simp add: word_less_nat_alt)
  show e: "unat (ucast dest + mem_start nap) = unat (mem_start nap) + unat dest"
    by (rule trans [OF unat_plus_nowrap]) (use b in simp_all)
  show "unat (ucast dest + mem_start nap) + unat (ucast n :: u64) < 2 ^ 64" using e b by simp
qed

lemma Create_changes:
  assumes "NaClDynamicRegionCreate mal nap a n = Inr (b, nap')"
  shows "nap' = nap\<lparr>dynamic_regions_allocated := dynamic_regions_allocated nap',
                    dynamic_regions := dynamic_regions nap'\<rparr>"
  using assms by (auto simp: NaClDynamicRegionCreate_def Let_def split: if_split_asm option.splits)

lemma ValidateCode_cong:
  assumes "cpu_features a = cpu_features b" "validator_stub_out_mode a = validator_stub_out_mode b"
    "fixed_feature_cpu_mode a = fixed_feature_cpu_mode b"
  shows "NaClValidateCode v a g cod = NaClValidateCode v b g cod"
  unfolding NaClValidateCode_def assms ..

text \<open>
  C22. \<open>NaClTextDyncodeCreate\<close> that succeeds: the code went into the dynamic code area and before its
  halt sled, at a range no loaded code uses, aligned to bundles; the validator accepted it unless
  validation is switched off; and the range is recorded, the table keeping its invariant.
\<close>

theorem DyncodeCreate_safe:
  assumes ok: "app_ok nap" "addr_bits nap \<le> 32" "table_ok nap" and n: "n \<noteq> 0"
    and call: "NaClTextDyncodeCreate v mal h dest cod n (nap, s) = Inr (0, nap', s')"
  shows "unat (dynamic_text_start nap) \<le> unat dest \<and>
    unat dest + unat n \<le> unat (dynamic_text_end nap - NACL_HALT_SLED_SIZE) \<and>
    ucast dest AND (bundle_size nap - 1) = 0 \<and> ucast n AND (bundle_size nap - 1) = 0 \<and>
    (\<forall>x\<in>app_ranges nap. apart x (unat (mem_start nap) + unat dest, unat (mem_start nap) + unat dest + unat n)) \<and>
    app_ranges nap' = insert (unat (mem_start nap) + unat dest, unat (mem_start nap) + unat dest + unat n)
                        (app_ranges nap) \<and>
    table_ok nap' \<and>
    (skip_validator nap \<or> ignore_validator_result nap \<or> fst (NaClValidateCode v nap (ucast dest) cod) = LOAD_OK)"
proof -
  have area: "dyncode_in_area nap dest n"
    using DyncodeCreate_guards(2) [OF ok(1,2), of dest n v mal h cod s] call
    by (auto simp: abi_defs)
  note G = DyncodeCreate_guards(1) [OF ok(1,2), of dest n v mal h cod s]
  note R = dyncode_range [OF ok(1) area n]
  obtain created nap1 where c: "NaClDynamicRegionCreate mal nap (ucast dest + mem_start nap) (ucast n) = Inr (created, nap1)"
    using call G area n by (auto simp: rbind_eq_Inr)
  have created: created using call G area n c by (cases created) (auto simp: abi_defs)
  have A: "table_ok nap1" "app_ranges nap1 = insert (unat (mem_start nap) + unat dest,
      unat (mem_start nap) + unat dest + unat n) (app_ranges nap)"
    "\<forall>x\<in>app_ranges nap. apart x (unat (mem_start nap) + unat dest, unat (mem_start nap) + unat dest + unat n)"
    using dyn_regions.create_adds [OF ok(3) R(1,3)] c created R(2) by (simp_all add: apart_def)
  obtain al rs where nap1: "nap1 = nap\<lparr>dynamic_regions_allocated := al, dynamic_regions := rs\<rparr>"
    using Create_changes [OF c] by blast
  define vc where "vc = NaClValidateCode v nap (ucast dest) cod"
  have vc1: "NaClValidateCode v nap1 (ucast dest) cod = vc" unfolding vc_def by (rule ValidateCode_cong) (simp_all add: nap1)
  have sw: "skip_validator nap1 = skip_validator nap" "ignore_validator_result nap1 = ignore_validator_result nap"
    by (simp_all add: nap1)
  obtain cod' where w: "dyncode_write h dest cod' n (nap1, s) = Inr (0, nap', s')"
    and v: "skip_validator nap \<or> ignore_validator_result nap \<or> fst vc = LOAD_OK"
    using call G area n c created vc1 sw
    by (cases vc) (auto simp: abi_defs split: if_splits)
  have "same_table nap1 nap'" by (rule dyncode_write_table [OF w])
  then have "table_ok nap'" "app_ranges nap' = app_ranges nap1"
    using A(1) same_table_ok by (auto simp: same_table_def app_ranges_def)
  with A v area show ?thesis by (simp add: dyncode_in_area_def vc_def)
qed

text \<open>
  C28. Code that the validator rejects keeps its range: \<open>NaClTextDyncodeCreate\<close> takes the range before it
  validates and does not give it back, so after a rejected call every call for the same range is
  refused, whatever the code.
\<close>

theorem DyncodeCreate_rejected_keeps_range:
  assumes ok: "app_ok nap" "addr_bits nap \<le> 32" "table_ok nap" "\<not> skip_validator nap" "\<not> ignore_validator_result nap"
    and area: "dyncode_in_area nap dest n" "n \<noteq> 0"
    and free: "\<forall>x\<in>app_ranges nap. apart x (unat (mem_start nap) + unat dest, unat (mem_start nap) + unat dest + unat n)"
    and mal: "\<And>k. mal k" and rejected: "fst (NaClValidateCode v nap (ucast dest) cod) \<noteq> LOAD_OK"
  shows "\<exists>nap'. NaClTextDyncodeCreate v mal h dest cod n (nap, s) = Inr (- NACL_ABI_EINVAL, nap', s) \<and>
    (\<forall>v2 cod2. \<exists>nap''. NaClTextDyncodeCreate v2 mal h dest cod2 n (nap', s) = Inr (- NACL_ABI_EINVAL, nap'', s))"
proof -
  note R = dyncode_range [OF ok(1) area]
  let ?a = "ucast dest + mem_start nap" and ?n = "ucast n :: u64"
  have "\<forall>r\<in>set (dynamic_regions nap). \<not> overlaps (unat ?a) (unat ?a + unat ?n) r"
    using free R(2) by (fastforce simp: app_ranges_def apart_def overlaps_def)
  then obtain pre post where
    c: "NaClDynamicRegionCreate mal nap ?a ?n = Inr (True, (grown nap)\<lparr>dynamic_regions := pre @ region ?a ?n # post\<rparr>)"
    and t: "table_ok ((grown nap)\<lparr>dynamic_regions := pre @ region ?a ?n # post\<rparr>)"
    using Create_cases(2) [where mal = mal, OF ok(3) R(1,3)] mal by blast
  define nap1 where "nap1 = (grown nap)\<lparr>dynamic_regions := pre @ region ?a ?n # post\<rparr>"
  obtain al rs where nap1: "nap1 = nap\<lparr>dynamic_regions_allocated := al, dynamic_regions := rs\<rparr>"
    using Create_changes [OF c [folded nap1_def]] by blast
  have vc1: "NaClValidateCode v nap1 (ucast dest) cod = NaClValidateCode v nap (ucast dest) cod"
    by (rule ValidateCode_cong) (simp_all add: nap1)
  have one: "NaClTextDyncodeCreate v mal h dest cod n (nap, s) = Inr (- NACL_ABI_EINVAL, nap1, s)"
    using DyncodeCreate_guards(1) [OF ok(1,2), of dest n v mal h cod s] area c [folded nap1_def] ok(4,5) rejected vc1
    by (auto simp: nap1 split: prod.splits)
  have "app_ok nap1" "addr_bits nap1 \<le> 32" "dyncode_in_area nap1 dest n" "mem_start nap1 = mem_start nap"
    using ok(1,2) area(1) by (simp_all add: nap1 app_ok_def dyncode_in_area_def)
  moreover have "overlaps (unat ?a) (unat ?a + unat ?n) (region ?a ?n)" using R(1) by (simp add: overlaps_def word_less_nat_alt)
  then have "NaClDynamicRegionCreate mal nap1 ?a ?n = Inr (False, grown nap1)"
    using Create_cases(1) [where mal = mal, OF t R(1,3)] mal by (auto simp: nap1_def)
  ultimately have "NaClTextDyncodeCreate v2 mal h dest cod2 n (nap1, s) = Inr (- NACL_ABI_EINVAL, grown nap1, s)" for v2 cod2
    using DyncodeCreate_guards(1) [of nap1 dest n v2 mal h cod2 s] area(2) by simp
  with one show ?thesis by blast
qed

section \<open>Instances\<close>

definition nap_dyn :: NaClApp where
  "nap_dyn = nap_example\<lparr>text_shm := Some 3, bundle_size := 32, dynamic_text_start := 0x20000,
     dynamic_text_end := 0x40000, dynamic_regions := [], dynamic_regions_allocated := 0,
     skip_validator := False, ignore_validator_result := False, validator_stub_out_mode := False,
     dynamic_mapcache_offset := 0, dynamic_mapcache_size := 0x10000, dynamic_mapcache_ret := 0x300000\<rparr>"

definition as_dyn :: aspace where
  "as_dyn = \<lparr>anon = (\<lambda>_. 0), shm_bytes = (\<lambda>_ _. 0xf4),
     backing = (\<lambda>a. if a - 0x300000 < 0x10000 then Some (3, a - 0x300000) else None), page_prot = (\<lambda>_. 0)\<rparr>"

lemma nap_dyn_facts:
  "app_ok nap_dyn" "addr_bits nap_dyn = 32" "table_ok nap_dyn" "mem_start nap_dyn = mem_start nap_example"
  "dyncode_in_area nap_dyn 0x20000 32" "app_ranges nap_dyn = {}" "\<not> skip_validator nap_dyn"
  "\<not> ignore_validator_result nap_dyn" "dynamic_regions nap_dyn = []" "dynamic_regions_allocated nap_dyn = 0"
  "bundle_size nap_dyn = 2 ^ 5"
  by (simp_all add: nap_dyn_def nap_example_def app_ok_def table_ok_def room_ok_def dyncode_in_area_def
      app_ranges_def config_defs)

lemma dyncode_create_example:
  "\<exists>nap' s'. NaClTextDyncodeCreate halts_only (\<lambda>_. True) h 0x20000 (replicate 32 0xf4) 32 (nap_dyn, as_dyn) =
     Inr (0, nap', s')"
proof -
  have lt: "of_nat i < (0x10000 :: u64)" if "i < 32" for i
    using that by (simp add: word_less_nat_alt unat_of_nat)
  have cd: "copy_dest as_dyn 0x300000 (replicate 32 0xf4) 32 5 3 0"
    using lt by (simp add: copy_dest_def window_def as_dyn_def)
  from CopyCodeSafelyInitial_correct [OF cd] obtain s' where
    s': "CopyCodeSafelyInitial 0x300000 (replicate 32 0xf4) 32 (2 ^ 5) as_dyn = Inr s'" by blast
  define nap1 where "nap1 = nap_dyn\<lparr>dynamic_regions_allocated := 32, dynamic_regions := [region (ucast (0x20000::u32) + mem_start nap_dyn) 32]\<rparr>"
  have c: "NaClDynamicRegionCreate (\<lambda>_. True) nap_dyn (ucast (0x20000::u32) + mem_start nap_dyn) (ucast (32::u32)) = Inr (True, nap1)"
    by (simp add: NaClDynamicRegionCreate_def NaClDynamicRegionFindClosestLEQ_def nap_dyn_facts(9,10) Let_def
        kMinDynamicRegionsAllocated_def scroll_stop shift_insert.simps region_def nap1_def)
  have v: "NaClValidateCode halts_only nap1 g (replicate 32 0xf4) = (LOAD_OK, replicate 32 0xf4)" for g
    by (simp add: NaClValidateCode_def nap1_def nap_dyn_def halts_only_def NACL_HALT_OPCODE_def NaClValidateStatus_def)
  have r: "shm_map_range nap1 0x20000 32 = (0, 0x10000, 0)"
    by (simp add: shm_map_range_def nap1_def nap_dyn_def)
  have sw: "\<not> skip_validator nap1" "bundle_size nap1 = 2 ^ 5" using nap_dyn_facts by (simp_all add: nap1_def)
  have "dyncode_write h 0x20000 (replicate 32 0xf4) 32 (nap1, as_dyn) = Inr (0, nap1, s')"
    using s' sw(2) r by (simp add: dyncode_write_def NaclTextMapWrapper_def NaclTextMapClearCacheIfNeeded_def
      CachedMapWritableText_def) (simp add: nap1_def nap_dyn_def)
  with DyncodeCreate_guards(1) [of nap_dyn "0x20000" 32 halts_only "\<lambda>_. True" h "replicate 32 0xf4" as_dyn]
    c v sw(1) nap_dyn_facts(1,2,5) show ?thesis by simp
qed

theorem DyncodeCreate_safe_witness:
  "\<exists>nap' s'. NaClTextDyncodeCreate halts_only (\<lambda>_. True) host_example 0x20000 (replicate 32 0xf4) 32 (nap_dyn, as_dyn) =
     Inr (0, nap', s') \<and> table_ok nap' \<and>
     app_ranges nap' = {(unat (mem_start nap_example) + 0x20000, unat (mem_start nap_example) + 0x20020)}"
proof -
  obtain nap' s' where c: "NaClTextDyncodeCreate halts_only (\<lambda>_. True) host_example 0x20000 (replicate 32 0xf4) 32
      (nap_dyn, as_dyn) = Inr (0, nap', s')" using dyncode_create_example by blast
  from DyncodeCreate_safe [OF nap_dyn_facts(1) _ nap_dyn_facts(3) _ c] c nap_dyn_facts(2,4,6) show ?thesis by simp
qed

theorem DyncodeCreate_rejected_keeps_range_witness:
  "\<exists>nap' nap''. NaClTextDyncodeCreate halts_only (\<lambda>_. True) host_example 0x20000 (replicate 32 0) 32 (nap_dyn, as_dyn) =
       Inr (- NACL_ABI_EINVAL, nap', as_dyn) \<and>
     NaClTextDyncodeCreate halts_only (\<lambda>_. True) host_example 0x20000 (replicate 32 0xf4) 32 (nap', as_dyn) =
       Inr (- NACL_ABI_EINVAL, nap'', as_dyn)"
proof -
  have "fst (NaClValidateCode halts_only nap_dyn (ucast (0x20000::u32)) (replicate 32 0)) \<noteq> LOAD_OK"
    by (simp add: NaClValidateCode_def nap_dyn_def halts_only_def NACL_HALT_OPCODE_def NaClValidateStatus_def)
  from DyncodeCreate_rejected_keeps_range [OF nap_dyn_facts(1) _ nap_dyn_facts(3,7,8,5) _ _ _ this, of "\<lambda>_. True"
      host_example as_dyn] nap_dyn_facts(2,6)
  show ?thesis by simp blast
qed

end
