(* ===== verification/ManifestParser.thy ===== *)
theory ManifestParser
  imports Prelude "HOL-Library.Sublist"
begin

text \<open>
  The text manifest (\<^verbatim>\<open>src/manifest/manifest_parser.c\<close>): lines \<open>key = value\<close>. A C string is
  the list of its characters before the NUL. The functions that cut a string in place write
  a NUL into it, so they return both the pointer they return, as the string it points to, and
  the string that is left at their argument.
\<close>

section \<open>The C string functions\<close>

definition NUL :: char where "NUL = CHR 0x00"

definition c_string :: "char list \<Rightarrow> string" where
  "c_string bs = takeWhile (\<lambda>c. c \<noteq> NUL) bs"

definition isspace :: "char \<Rightarrow> bool" where
  "isspace c \<longleftrightarrow> c \<in> {CHR '' '', CHR 0x09, CHR 0x0A, CHR 0x0B, CHR 0x0C, CHR 0x0D}"

text \<open>\<open>strtok\<close> until NULL: the maximal runs of characters that are not separators.\<close>

function strtok_all :: "(char \<Rightarrow> bool) \<Rightarrow> string \<Rightarrow> string list" where
  "strtok_all sep [] = []"
| "strtok_all sep (c # cs) =
    (if sep c then strtok_all sep cs
     else (c # takeWhile (\<lambda>x. \<not> sep x) cs) # strtok_all sep (dropWhile (\<lambda>x. \<not> sep x) cs))"
  by pat_completeness auto
termination
  by (relation "measure (\<lambda>(sep, s). length s)") (auto simp: length_dropWhile_le less_Suc_eq_le)

text \<open>\<open>strrchr\<close>: what comes before the last occurrence, if there is one.\<close>

definition before_last :: "char \<Rightarrow> string \<Rightarrow> string option" where
  "before_last c s =
     (if c \<in> set s then Some (rev (tl (dropWhile (\<lambda>x. x \<noteq> c) (rev s)))) else None)"

text \<open>\<open>strchr\<close>: what comes up to and including the first occurrence, and what comes after it.\<close>

definition at_first :: "char \<Rightarrow> string \<Rightarrow> (string \<times> string) option" where
  "at_first c s =
     (if c \<in> set s then Some (takeWhile (\<lambda>x. x \<noteq> c) s @ [c], tl (dropWhile (\<lambda>x. x \<noteq> c) s)) else None)"

section \<open>Parsing\<close>

definition EOL :: "char \<Rightarrow> bool" where "EOL c \<longleftrightarrow> c = CHR 0x0D \<or> c = CHR 0x0A"

definition trim_end :: "string \<Rightarrow> string" where
  "trim_end s = rev (dropWhile isspace (rev s))"

definition cut_spaces :: "string option \<Rightarrow> string option \<times> string option" where
  "cut_spaces a =
    (case a of
       None \<Rightarrow> (None, None)
     | Some s \<Rightarrow>
         let leading = takeWhile isspace s; rest = dropWhile isspace s in
         if rest = [] then (None, Some s)
         else (Some (trim_end rest), Some (leading @ trim_end rest)))"

definition get_key :: "string option \<Rightarrow> string option \<times> string option" where
  "get_key a =
    (case a of
       None \<Rightarrow> (None, None)
     | Some s \<Rightarrow>
         (case before_last (CHR ''='') s of
            None \<Rightarrow> (None, Some s)
          | Some k \<Rightarrow> if k = [] then (None, Some s) else cut_spaces (Some k)))"

definition get_value :: "string option \<Rightarrow> string option \<times> string option" where
  "get_value a =
    (case a of
       None \<Rightarrow> (None, None)
     | Some s \<Rightarrow>
         (case at_first (CHR ''='') s of
            None \<Rightarrow> (None, Some s)
          | Some (pre, rest) \<Rightarrow>
              if CHR ''='' \<in> set rest then (None, Some s)
              else if rest = [] then (None, Some s)
              else let (v, rest') = cut_spaces (Some rest) in
                (v, map_option (\<lambda>r. pre @ r) rest')))"

record MasterManifestRecord =
  mkey :: string
  mvalue :: string

definition get_value_by_key :: "MasterManifestRecord list \<Rightarrow> string \<Rightarrow> string option" where
  "get_value_by_key master key = map_option mvalue (find (\<lambda>r. mkey r = key) master)"

text \<open>
  One round of the loop: both fields of the record at the current index are stored, then the
  record counts if both are there. \<open>room\<close> is the size of the block in bytes, a record takes 16.
\<close>

fun parse_lines :: "nat \<Rightarrow> string list \<Rightarrow> MasterManifestRecord list \<Rightarrow> MasterManifestRecord list result" where
  "parse_lines room [] master = Inr master"
| "parse_lines room (p # ps) master =
    (if room < 16 * (length master + 1) then Inl OutOfBounds
     else
       let (v, p') = get_value (Some p); (k, _) = get_key p' in
       parse_lines room ps
         (case (k, v) of
            (Some k, Some v) \<Rightarrow> master @ [\<lparr>mkey = k, mvalue = v\<rparr>]
          | _ \<Rightarrow> master))"

text \<open>
  \<open>fs\<close> gives the content of a file that can be opened, \<open>junk\<close> what lies in memory behind the block
  that the text is read into: the text is not terminated there. \<open>mal\<close> says whether a block of
  a size can be had; \<open>sizeof(struct Manifest)\<close> is 40. The result \<open>None\<close> is the return value 0,
  on which \<open>nap->manifest\<close> is freed and NULL; else it is the master records.
\<close>

definition GetFileSize :: "(string \<Rightarrow> string option) \<Rightarrow> string \<Rightarrow> u64" where
  "GetFileSize fs name = (case fs name of None \<Rightarrow> - 1 | Some t \<Rightarrow> of_nat (length t))"

text \<open>An \<open>int\<close> as a \<open>size_t\<close>: a negative number becomes a huge one.\<close>

definition size_arg :: "u32 \<Rightarrow> nat" where
  "size_arg n = unat (scast n :: u64)"

text \<open>The product \<open>4 * size\<close> is one of \<open>int\<close> and wraps.\<close>

definition parse_manifest ::
  "(nat \<Rightarrow> bool) \<Rightarrow> (string \<Rightarrow> string option) \<Rightarrow> char list \<Rightarrow> string \<Rightarrow>
     MasterManifestRecord list option result" where
  "parse_manifest mal fs junk name =
    (let size = (ucast (GetFileSize fs name) :: u32); room = size_arg (4 * size) in
     if size = - 1 then Inr None
     else if \<not> mal 40 then Inr None
     else if \<not> mal (size_arg size) then Inr None
     else if \<not> mal room then Inr None
     else case fs name of
       None \<Rightarrow> Inl NullDeref
     | Some content \<Rightarrow>
         let str = take (size_arg size) content in
         if of_nat (length str) \<noteq> size then Inr None
         else rbind (parse_lines room (strtok_all EOL (c_string (str @ junk))) []) (\<lambda>master.
           if master = [] then Inr None
           else if \<not> mal (16 * length master) then Inr None
           else Inr (Some master)))"

section \<open>What a manifest means\<close>

definition strip :: "string \<Rightarrow> string" where
  "strip s = trim_end (dropWhile isspace s)"

text \<open>A line counts if it has exactly one \<open>=\<close> and something else than spaces on both sides.\<close>

definition line_record :: "string \<Rightarrow> MasterManifestRecord option" where
  "line_record p =
    (let l = takeWhile (\<lambda>c. c \<noteq> CHR ''='') p; r = tl (dropWhile (\<lambda>c. c \<noteq> CHR ''='') p) in
     if count_list p (CHR ''='') = 1 \<and> strip l \<noteq> [] \<and> strip r \<noteq> []
     then Some \<lparr>mkey = strip l, mvalue = strip r\<rparr> else None)"

lemma trim_end_Nil: "trim_end s = [] \<longleftrightarrow> (\<forall>c\<in>set s. isspace c)"
  by (simp add: trim_end_def dropWhile_eq_Nil_conv)

lemma strip_Nil: "strip s = [] \<longleftrightarrow> dropWhile isspace s = []"
proof -
  have "dropWhile isspace s = [] \<or> \<not> isspace (hd (dropWhile isspace s))"
    using hd_dropWhile [of isspace s] by (auto simp: dropWhile_eq_Nil_conv)
  then consider "dropWhile isspace s = []" | c cs where "dropWhile isspace s = c # cs" "\<not> isspace c"
    by (cases "dropWhile isspace s") auto
  then show ?thesis by cases (simp_all only: strip_def trim_end_Nil, simp_all)
qed

lemma cut_spaces_Some:
  "cut_spaces (Some s) =
     (if strip s = [] then (None, Some s) else (Some (strip s), Some (takeWhile isspace s @ strip s)))"
  by (simp add: cut_spaces_def strip_Nil) (simp add: strip_def Let_def)

lemma set_strip: "set (strip s) \<subseteq> set s"
proof -
  have "set (strip s) \<subseteq> set (dropWhile isspace s)"
    by (auto simp: strip_def trim_end_def dest: set_dropWhileD)
  then show ?thesis by (auto dest: set_dropWhileD)
qed

lemma split_first:
  "c \<in> set p \<Longrightarrow> p = takeWhile (\<lambda>x. x \<noteq> c) p @ c # tl (dropWhile (\<lambda>x. x \<noteq> c) p)"
proof -
  assume "c \<in> set p"
  then have ne: "dropWhile (\<lambda>x. x \<noteq> c) p \<noteq> []" by (auto simp: dropWhile_eq_Nil_conv)
  then have "hd (dropWhile (\<lambda>x. x \<noteq> c) p) = c" using hd_dropWhile [OF ne] by simp
  with ne have "dropWhile (\<lambda>x. x \<noteq> c) p = c # tl (dropWhile (\<lambda>x. x \<noteq> c) p)" by (metis list.collapse)
  then show ?thesis by (metis takeWhile_dropWhile_id)
qed

lemma before_last_app: "c \<notin> set r \<Longrightarrow> before_last c (l @ c # r) = Some l"
proof -
  assume "c \<notin> set r"
  then have "dropWhile (\<lambda>x. x \<noteq> c) (rev r @ c # rev l) = c # rev l"
    by (subst dropWhile_append2) auto
  then show ?thesis by (simp add: before_last_def)
qed

text \<open>
  The two calls of the loop, the second on what the first leaves, compute \<open>line_record\<close>.
\<close>

lemma line_record_calls:
  "(let (v, p') = get_value (Some p); (k, _) = get_key p' in
     case (k, v) of (Some k, Some v) \<Rightarrow> Some \<lparr>mkey = k, mvalue = v\<rparr> | _ \<Rightarrow> None) = line_record p"
proof (cases "CHR ''='' \<in> set p")
  case False
  then have "count_list p (CHR ''='') = 0" by (simp add: count_list_0_iff)
  with False show ?thesis by (simp add: get_value_def at_first_def line_record_def Let_def split: prod.splits option.splits)
next
  case True
  define l where "l = takeWhile (\<lambda>x. x \<noteq> CHR ''='') p"
  define r where "r = tl (dropWhile (\<lambda>x. x \<noteq> CHR ''='') p)"
  have p: "p = l @ CHR ''='' # r" using split_first [OF True] by (simp only: l_def r_def)
  have nl: "CHR ''='' \<notin> set l" unfolding l_def by (auto dest: set_takeWhileD)
  have cnt: "count_list p (CHR ''='') = Suc (count_list r (CHR ''=''))"
    using nl by (simp add: p count_list_0_iff)
  have af: "at_first (CHR ''='') p = Some (l @ [CHR ''=''], r)"
    using True by (simp add: at_first_def l_def r_def)
  have lr: "line_record p = (if CHR ''='' \<notin> set r \<and> strip l \<noteq> [] \<and> strip r \<noteq> []
      then Some \<lparr>mkey = strip l, mvalue = strip r\<rparr> else None)"
    using cnt by (simp add: line_record_def count_list_0_iff flip: l_def r_def)
  show ?thesis
  proof (cases "CHR ''='' \<in> set r \<or> strip r = []")
    case True
    then have "fst (get_value (Some p)) = None"
      using af by (auto simp: get_value_def cut_spaces_Some)
    with True lr show ?thesis by (auto split: prod.splits option.splits)
  next
    case False
    then have "r \<noteq> []" by (auto simp: strip_def trim_end_def)
    with False have gv: "get_value (Some p) = (Some (strip r), Some (l @ CHR ''='' # takeWhile isspace r @ strip r))"
      using af by (simp add: get_value_def cut_spaces_Some)
    have "CHR ''='' \<notin> set (takeWhile isspace r @ strip r)"
      using False set_strip [of r] by (auto dest: set_takeWhileD)
    then have "before_last (CHR ''='') (l @ CHR ''='' # takeWhile isspace r @ strip r) = Some l"
      by (rule before_last_app)
    then have "fst (get_key (Some (l @ CHR ''='' # takeWhile isspace r @ strip r))) =
        (if strip l = [] then None else Some (strip l))"
      by (simp add: get_key_def cut_spaces_Some) (simp add: strip_def trim_end_def)
    with gv lr False show ?thesis
      by (cases "strip l = []") (auto split: prod.splits option.splits)
  qed
qed

text \<open>
  A line is stored behind the records of the lines before it; the loop gets past the end of the block
  at the first line for which there is no room left, whether the line is a record or not.
\<close>

definition no_room :: "nat \<Rightarrow> string list \<Rightarrow> nat \<Rightarrow> bool" where
  "no_room room ps n \<longleftrightarrow>
     (\<exists>i < length ps. room < 16 * (n + length (List.map_filter line_record (take i ps)) + 1))"

lemma no_room_Cons:
  "no_room room (p # ps) n \<longleftrightarrow> room < 16 * (n + 1) \<or>
     no_room room ps (case line_record p of None \<Rightarrow> n | Some _ \<Rightarrow> n + 1)"
  unfolding no_room_def length_Cons Ex_less_Suc2
  by (simp add: List.map_filter_simps split: option.split)

lemma parse_lines_eq:
  "parse_lines room ps master =
     (if no_room room ps (length master) then Inl OutOfBounds else Inr (master @ List.map_filter line_record ps))"
proof (induction ps arbitrary: master)
  case Nil
  then show ?case by (simp add: List.map_filter_def no_room_def)
next
  case (Cons p ps)
  obtain v p' where gv: "get_value (Some p) = (v, p')" by fastforce
  obtain k x where gk: "get_key p' = (k, x)" by fastforce
  have lr: "line_record p = (case (k, v) of (Some k, Some v) \<Rightarrow> Some \<lparr>mkey = k, mvalue = v\<rparr> | _ \<Rightarrow> None)"
    using line_record_calls [of p] gv gk by simp
  have "parse_lines room (p # ps) master =
      (if room < 16 * (length master + 1) then Inl OutOfBounds
       else parse_lines room ps (case line_record p of None \<Rightarrow> master | Some r \<Rightarrow> master @ [r]))"
    using lr gv gk by (simp split: option.split)
  then show ?case unfolding Cons.IH no_room_Cons
    by (simp add: List.map_filter_simps split: option.split)
qed

lemma no_room_few: "16 * (n + length (List.map_filter line_record ps) + 1) \<le> room \<Longrightarrow> \<not> no_room room ps n"
proof (induction ps arbitrary: n)
  case (Cons p ps)
  then show ?case by (cases "line_record p") (simp_all add: no_room_Cons List.map_filter_simps)
qed (simp add: no_room_def)

lemma c_string_terminated: "NUL \<notin> set t \<Longrightarrow> c_string (t @ NUL # junk) = t"
  unfolding c_string_def by (subst takeWhile_append2) auto

lemma size_arg_small: "unat n < 2 ^ 31 \<Longrightarrow> size_arg n = unat n"
proof -
  assume n: "unat n < 2 ^ 31"
  have "(scast n :: u64) = of_nat (unat n)" unfolding scast_eq sint_small32 [OF n] by simp
  then show "size_arg n = unat n" using n by (simp add: size_arg_def unat_of_nat)
qed

lemma parse_manifest_eq:
  assumes "fs name = Some t" "length t < 2 ^ 29" "NUL \<notin> set t" "junk = NUL # rest" "\<And>n. mal n"
    and "recs = List.map_filter line_record (strtok_all EOL t)"
  shows "parse_manifest mal fs junk name =
    (if no_room (4 * length t) (strtok_all EOL t) 0 then Inl OutOfBounds
     else Inr (if recs = [] then None else Some recs))"
proof -
  let ?n = "of_nat (length t) :: u32"
  have "unat (ucast (of_nat (length t) :: u64) :: u32) = unat ?n"
    using assms(2) by (simp add: unsigned_ucast_eq unat_of_nat take_bit_nat_eq_self)
  then have n: "(ucast (GetFileSize fs name) :: u32) = ?n" using assms(1) by (simp add: GetFileSize_def word_unat_eq_iff)
  have u: "unat ?n = length t" "unat (4 * ?n) = 4 * length t"
    using assms(2) by (simp_all add: unat_of_nat unat_word_ariths)
  have "unat (- 1 :: u32) = 2 ^ 32 - 1" by (simp add: unsigned_minus_1_eq_mask mask_eq_exp_minus_1)
  with u(1) assms(2) have "?n \<noteq> - 1" by auto
  moreover have "size_arg ?n = length t" "size_arg (4 * ?n) = 4 * length t"
    using u assms(2) by (simp_all add: size_arg_small)
  ultimately show ?thesis using n assms(1,3-6)
    by (simp add: parse_manifest_def Let_def c_string_terminated parse_lines_eq)
qed

text \<open>
  C32. \<open>parse_manifest\<close>: of a readable manifest of less than 512 MB without NUL bytes, whose block happens
  to be followed by a NUL, and with room for a record wherever a line is stored, the result is the list of
  records of its lines in order: each line with exactly one \<open>=\<close> and other characters than spaces on
  both sides gives the pair of its sides without the surrounding spaces, every other line is
  skipped; and the result is NULL exactly when there is no record.
\<close>

theorem parse_manifest_records:
  assumes "fs name = Some t" "length t < 2 ^ 29" "NUL \<notin> set t" "junk = NUL # rest" "\<And>n. mal n"
    and "recs = List.map_filter line_record (strtok_all EOL t)"
    and "\<not> no_room (4 * length t) (strtok_all EOL t) 0"
  shows "parse_manifest mal fs junk name = Inr (if recs = [] then None else Some recs)"
  using parse_manifest_eq [of fs name t junk rest mal recs] assms by simp

theorem parse_manifest_records_witness:
  "parse_manifest (\<lambda>_. True) (\<lambda>_. Some ''Version = 11nov2011'') [NUL] ''manifest'' =
     Inr (Some [\<lparr>mkey = ''Version'', mvalue = ''11nov2011''\<rparr>])"
proof -
  have "List.map_filter line_record (strtok_all EOL ''Version = 11nov2011'') =
      [\<lparr>mkey = ''Version'', mvalue = ''11nov2011''\<rparr>]"
    by (simp add: EOL_def line_record_def strip_def trim_end_def isspace_def List.map_filter_simps)
  then show ?thesis
    using parse_manifest_records [of "\<lambda>_. Some ''Version = 11nov2011''" "''manifest''" "''Version = 11nov2011''"
      "[NUL]" "[]" "\<lambda>_. True"] no_room_few [of 0 "strtok_all EOL ''Version = 11nov2011''" 76] by (simp add: NUL_def)
qed



end
