(* ===== verification/ManifestSetup.thy ===== *)
theory ManifestSetup
  imports ManifestParser SelLdr
begin

text \<open>
  The manifest as the runtime keeps it (\<^verbatim>\<open>src/manifest/manifest_setup.c\<close>, its header and
  \<^verbatim>\<open>api/zvm.h\<close>): the policy for the user program with its limits and counters, the settings of
  ZeroVM itself and the report. Signed fields are words that are read with \<^const>\<open>sint\<close>. A pointer
  to a string is the string it points to, \<^const>\<open>None\<close> when it is NULL. Blocks are not cleared when
  they are allocated, so what an allocation holds is an argument.
\<close>

type_synonym i32 = "32 word"
type_synonym i64 = "64 word"

section \<open>Numbers as text\<close>

text \<open>\<open>atoll\<close>: spaces, a sign and digits; out of range it is the nearest \<open>long long\<close>.\<close>

definition isdigit :: "char \<Rightarrow> bool" where
  "isdigit c \<longleftrightarrow> 48 \<le> (of_char c :: nat) \<and> (of_char c :: nat) \<le> 57"

definition digits_value :: "string \<Rightarrow> nat" where
  "digits_value s = foldl (\<lambda>v c. 10 * v + (of_char c - 48)) 0 s"

definition strtoll_value :: "string \<Rightarrow> int" where
  "strtoll_value s0 =
    (let s = dropWhile isspace s0;
         neg = (s \<noteq> [] \<and> hd s = CHR ''-'');
         s = (if s \<noteq> [] \<and> (hd s = CHR ''-'' \<or> hd s = CHR ''+'') then tl s else s);
         v = int (digits_value (takeWhile isdigit s)) in
     if neg then - v else v)"

definition atoll :: "string \<Rightarrow> i64" where
  "atoll s = word_of_int (max (- (2 ^ 63)) (min (2 ^ 63 - 1) (strtoll_value s)))"




section \<open>The objects\<close>

definition InputChannel :: nat where "InputChannel = 0"
definition OutputChannel :: nat where "OutputChannel = 1"
definition LogChannel :: nat where "LogChannel = 2"
definition NetworkInputChannel :: nat where "NetworkInputChannel = 3"
definition NetworkOutputChannel :: nat where "NetworkOutputChannel = 4"
definition CHANNELS_COUNT :: nat where "CHANNELS_COUNT = NetworkOutputChannel + 1"

lemmas channel_defs = InputChannel_def OutputChannel_def LogChannel_def NetworkInputChannel_def
  NetworkOutputChannel_def CHANNELS_COUNT_def

definition CHANNEL_PREFIXES :: "string list" where
  "CHANNEL_PREFIXES = [''Input'', ''Output'', ''UserLog'', ''NetInput'', ''NetOutput'']"

definition MAPPED :: i32 where "MAPPED = 0"
definition LOADED :: i32 where "LOADED = 1"
definition NETWORK :: i32 where "NETWORK = 2"

definition OK_CODE :: i32 where "OK_CODE = 0"
definition ERR_CODE :: i32 where "ERR_CODE = - 1"

definition CONTENT_TYPE_LEN :: nat where "CONTENT_TYPE_LEN = 64"
definition TIMESTAMP_LEN :: nat where "TIMESTAMP_LEN = 64"
definition X_OBJECT_META_TAG_LEN :: nat where "X_OBJECT_META_TAG_LEN = 256"
definition USER_TAG_LEN :: nat where "USER_TAG_LEN = 64"

lemmas attr_len_defs = CONTENT_TYPE_LEN_def TIMESTAMP_LEN_def X_OBJECT_META_TAG_LEN_def USER_TAG_LEN_def

record PreOpenedFileDesc =
  ch_self_size :: u32
  ch_name :: "string option"
  ch_type :: u32
  mounted :: i32
  handle :: i32
  fsize :: i64
  buffer :: i32
  bsize :: i32
  max_size :: i64
  max_gets :: i32
  max_puts :: i32
  max_get_size :: i64
  max_put_size :: i64
  cnt_gets :: i32
  cnt_puts :: i32
  cnt_get_size :: i64
  cnt_put_size :: i64

record SetupList =
  self_size :: u32
  heap_ptr :: u32
  max_mem :: u32
  max_cpu :: i32
  max_syscalls :: i32
  max_setup_calls :: i32
  cnt_mem :: i32
  cnt_cpu :: i32
  cnt_cpu_last :: i32
  cnt_syscalls :: i32
  cnt_setup_calls :: i32
  content_type :: "char list"
  timestamp :: "char list"
  x_object_meta_tag :: "char list"
  user_etag :: "char list"
  syscallback :: i32
  channels :: "PreOpenedFileDesc list"

record SystemList =
  version :: "string option"
  zerovm :: "string option"
  log_name :: "string option"
  report_name :: "string option"
  nexe :: "string option"
  cmd_line :: "string list"
  blob :: "string option"
  nexe_max :: i32
  nexe_etag :: "string option"
  timeout :: i32
  kill_timeout :: i32

record Report =
  ret_code :: i32
  etag :: "string option"
  user_ret_code :: i32
  rep_content_type :: "string option"
  rep_x_object_meta_tag :: "string option"

text \<open>A part that is not set yet is \<^const>\<open>None\<close>; using it is an invalid dereference.\<close>

record Manifest =
  master :: "MasterManifestRecord list"
  user_setup :: "SetupList option"
  system_setup :: "SystemList option"
  report :: "Report option"

definition policy_of :: "Manifest option \<Rightarrow> SetupList result" where
  "policy_of mf =
    (case mf of None \<Rightarrow> Inl NullDeref
     | Some m \<Rightarrow> case user_setup m of None \<Rightarrow> Inl NullDeref | Some p \<Rightarrow> Inr p)"

definition set_policy :: "SetupList \<Rightarrow> Manifest option \<Rightarrow> Manifest option" where
  "set_policy p = map_option (\<lambda>m. m\<lparr>user_setup := Some p\<rparr>)"

section \<open>Construction from the master records\<close>

text \<open>\<open>TRANSET\<close> and \<open>SET_LIMIT\<close>: the number at a key, 0 when the key is missing.\<close>

definition number_at :: "Manifest \<Rightarrow> string \<Rightarrow> i64" where
  "number_at m key = (case get_value_by_key (master m) key of None \<Rightarrow> 0 | Some p \<Rightarrow> atoll p)"

definition GetChannelPrefixById :: "nat \<Rightarrow> string result" where
  "GetChannelPrefixById ch =
     (if length CHANNEL_PREFIXES \<le> ch then Inl CondAbort else Inr (CHANNEL_PREFIXES ! ch))"

text \<open>\<open>sizeof(struct PreOpenedFileDesc)\<close> is 104. The result 1 leaves the rest of the channel as it is.\<close>

definition ConstructChannel :: "Manifest \<Rightarrow> nat \<Rightarrow> (i32 \<times> Manifest) result" where
  "ConstructChannel m ch =
     rbind (policy_of (Some m)) (\<lambda>policy.
     if length (channels policy) \<le> ch then Inl OutOfBounds
     else
       let put = (\<lambda>c. m\<lparr>user_setup := Some (policy\<lparr>channels := (channels policy)[ch := c]\<rparr>)\<rparr>);
           channel = (channels policy ! ch)\<lparr>ch_self_size := 104\<rparr> in
       rbind (GetChannelPrefixById ch) (\<lambda>prefix.
       let channel = channel\<lparr>ch_name := get_value_by_key (master m) prefix\<rparr> in
       if ch_name channel = None then Inr (1, put channel)
       else
         let channel = channel\<lparr>mounted := ucast (number_at m (prefix @ ''Mode'')), ch_type := of_nat ch\<rparr>;
             channel = channel\<lparr>max_size := number_at m (prefix @ ''Max''),
               max_get_size := number_at m (prefix @ ''MaxGet''),
               max_gets := ucast (number_at m (prefix @ ''MaxGetCnt'')),
               max_put_size := number_at m (prefix @ ''MaxPut''),
               max_puts := ucast (number_at m (prefix @ ''MaxPutCnt''))\<rparr>;
             channel = channel\<lparr>cnt_get_size := 0, cnt_gets := 0, cnt_put_size := 0, cnt_puts := 0\<rparr> in
         Inr (0, put channel)))"

definition MakeEtag :: "Manifest \<Rightarrow> string option result" where
  "MakeEtag m =
     rbind (policy_of (Some m)) (\<lambda>policy.
     if length (channels policy) \<le> OutputChannel then Inl OutOfBounds
     else Inr (if ch_name (channels policy ! OutputChannel) = None then None else Some ''etag disabled''))"

text \<open>The two return codes keep what the block of the report, of 40 bytes, holds.\<close>

definition SetupReportSettings :: "(nat \<Rightarrow> bool) \<Rightarrow> Report \<Rightarrow> Manifest \<Rightarrow> Manifest result" where
  "SetupReportSettings mal block m =
    (if \<not> mal 40 then Inl CondAbort
     else rbind (MakeEtag m) (\<lambda>e.
       Inr (m\<lparr>report := Some (block\<lparr>etag := e,
                rep_content_type := get_value_by_key (master m) ''ContentType'',
                rep_x_object_meta_tag := get_value_by_key (master m) ''XObjectMetaTag''\<rparr>)\<rparr>)))"



text \<open>\<open>strncpy\<close> into an array: up to \<open>n\<close> characters, filled up with NULs.\<close>

definition strncpy :: "char list \<Rightarrow> char list \<Rightarrow> nat \<Rightarrow> char list" where
  "strncpy d s n = take n (c_string s @ replicate n NUL) @ drop n d"

text \<open>\<open>STRNCPY_NULL\<close>: nothing is copied when the source is NULL.\<close>

definition strncpy_null :: "char list \<Rightarrow> char list option \<Rightarrow> nat \<Rightarrow> char list" where
  "strncpy_null d s n = (case s of None \<Rightarrow> d | Some t \<Rightarrow> strncpy d t n)"

text \<open>\<open>sizeof(struct SetupList)\<close> is 1016; the channels keep what the block holds.\<close>

definition SetupUserPolicy :: "(nat \<Rightarrow> bool) \<Rightarrow> SetupList \<Rightarrow> Manifest \<Rightarrow> Manifest result" where
  "SetupUserPolicy mal block m =
    (if \<not> mal 1016 then Inl CondAbort
     else
       let policy = block\<lparr>self_size := 1016,
             max_cpu := ucast (number_at m ''CPUMax''), max_mem := ucast (number_at m ''MemMax''),
             max_setup_calls := ucast (number_at m ''SetupCallsMax''),
             max_syscalls := ucast (number_at m ''SyscallsMax''),
             cnt_cpu := 0, cnt_cpu_last := 0, cnt_mem := 0, cnt_setup_calls := 0, cnt_syscalls := 0,
             heap_ptr := 0, syscallback := 0,
             content_type := strncpy_null (content_type block)
               (get_value_by_key (master m) ''ContentType'') CONTENT_TYPE_LEN,
             timestamp := strncpy_null (timestamp block)
               (get_value_by_key (master m) ''TimeStamp'') TIMESTAMP_LEN,
             x_object_meta_tag := strncpy_null (x_object_meta_tag block)
               (get_value_by_key (master m) ''XObjectMetaTag'') X_OBJECT_META_TAG_LEN,
             user_etag := strncpy_null (user_etag block)
               (get_value_by_key (master m) ''UserETag'') USER_TAG_LEN\<rparr> in
       Inr (m\<lparr>user_setup := Some policy\<rparr>))"

text \<open>\<open>sizeof(struct SystemList)\<close> is 88. The test is of what the block happens to hold.\<close>

definition SetupSystemPolicy :: "(nat \<Rightarrow> bool) \<Rightarrow> SystemList \<Rightarrow> Manifest \<Rightarrow> Manifest result" where
  "SetupSystemPolicy mal block m =
    (if \<not> mal 88 then Inl CondAbort
     else
       let val = get_value_by_key (master m);
           policy = block\<lparr>version := val ''Version'', zerovm := val ''ZeroVM'', log_name := val ''Log'',
             report_name := val ''Report''\<rparr> in
       if nexe policy \<noteq> None then Inl CondAbort
       else
         let policy = policy\<lparr>nexe := val ''Nexe'', blob := val ''Blob'', nexe_etag := val ''NexeEtag'',
               nexe_max := ucast (number_at m ''NexeMax''), timeout := ucast (number_at m ''Timeout''),
               kill_timeout := ucast (number_at m ''KillTimeout'')\<rparr> in
         Inr (m\<lparr>system_setup := Some policy\<rparr>))"

section \<open>Accounting\<close>

text \<open>\<open>INCNT\<close>, \<open>INCHCNT\<close> and \<open>DECHCNT\<close>: the counter of the policy or of a channel.\<close>

definition account :: "(SetupList \<Rightarrow> SetupList) \<Rightarrow> Manifest option \<Rightarrow> (i32 \<times> Manifest option) result" where
  "account f mf =
    (case mf of None \<Rightarrow> Inr (- 1, None)
     | Some m \<Rightarrow> rbind (policy_of (Some m)) (\<lambda>p. Inr (0, Some (m\<lparr>user_setup := Some (f p)\<rparr>))))"

definition account_ch ::
  "nat \<Rightarrow> (PreOpenedFileDesc \<Rightarrow> PreOpenedFileDesc) \<Rightarrow> Manifest option \<Rightarrow> (i32 \<times> Manifest option) result" where
  "account_ch ch f mf =
    (case mf of None \<Rightarrow> Inr (- 1, None)
     | Some m \<Rightarrow> rbind (policy_of (Some m)) (\<lambda>p.
         if length (channels p) \<le> ch then Inl OutOfBounds
         else account (\<lambda>p. p\<lparr>channels := (channels p)[ch := f (channels p ! ch)]\<rparr>) mf))"

definition AccountingSyscallsInc :: "Manifest option \<Rightarrow> (i32 \<times> Manifest option) result" where
  "AccountingSyscallsInc = account (\<lambda>p. p\<lparr>cnt_syscalls := cnt_syscalls p + 1\<rparr>)"

definition AccountingSyscallsDec :: "Manifest option \<Rightarrow> (i32 \<times> Manifest option) result" where
  "AccountingSyscallsDec = account (\<lambda>p. p\<lparr>cnt_syscalls := cnt_syscalls p + 1\<rparr>)"

definition AccountingMemInc :: "Manifest option \<Rightarrow> (i32 \<times> Manifest option) result" where
  "AccountingMemInc = account (\<lambda>p. p\<lparr>cnt_mem := cnt_mem p + 1\<rparr>)"

definition AccountingMemDec :: "Manifest option \<Rightarrow> (i32 \<times> Manifest option) result" where
  "AccountingMemDec = account (\<lambda>p. p\<lparr>cnt_mem := cnt_mem p + 1\<rparr>)"

definition AccountingSetupcallsInc :: "Manifest option \<Rightarrow> (i32 \<times> Manifest option) result" where
  "AccountingSetupcallsInc = account (\<lambda>p. p\<lparr>cnt_setup_calls := cnt_setup_calls p + 1\<rparr>)"

definition AccountingSetupcallsDec :: "Manifest option \<Rightarrow> (i32 \<times> Manifest option) result" where
  "AccountingSetupcallsDec = account (\<lambda>p. p\<lparr>cnt_setup_calls := cnt_setup_calls p + 1\<rparr>)"

definition AccountingGetsInc :: "Manifest option \<Rightarrow> nat \<Rightarrow> (i32 \<times> Manifest option) result" where
  "AccountingGetsInc mf ch = account_ch ch (\<lambda>c. c\<lparr>cnt_gets := cnt_gets c + 1\<rparr>) mf"

definition AccountingGetsDec :: "Manifest option \<Rightarrow> nat \<Rightarrow> (i32 \<times> Manifest option) result" where
  "AccountingGetsDec mf ch = account_ch ch (\<lambda>c. c\<lparr>cnt_gets := cnt_gets c - 1\<rparr>) mf"

definition AccountingPutsInc :: "Manifest option \<Rightarrow> nat \<Rightarrow> (i32 \<times> Manifest option) result" where
  "AccountingPutsInc mf ch = account_ch ch (\<lambda>c. c\<lparr>cnt_puts := cnt_puts c + 1\<rparr>) mf"

definition AccountingPutsDec :: "Manifest option \<Rightarrow> nat \<Rightarrow> (i32 \<times> Manifest option) result" where
  "AccountingPutsDec mf ch = account_ch ch (\<lambda>c. c\<lparr>cnt_puts := cnt_puts c - 1\<rparr>) mf"

definition AccountingGetSizeInc :: "Manifest option \<Rightarrow> nat \<Rightarrow> (i32 \<times> Manifest option) result" where
  "AccountingGetSizeInc mf ch = account_ch ch (\<lambda>c. c\<lparr>cnt_get_size := cnt_get_size c + 1\<rparr>) mf"

definition AccountingGetSizeDec :: "Manifest option \<Rightarrow> nat \<Rightarrow> (i32 \<times> Manifest option) result" where
  "AccountingGetSizeDec mf ch = account_ch ch (\<lambda>c. c\<lparr>cnt_get_size := cnt_get_size c - 1\<rparr>) mf"

definition AccountingPutSizeInc :: "Manifest option \<Rightarrow> nat \<Rightarrow> (i32 \<times> Manifest option) result" where
  "AccountingPutSizeInc mf ch = account_ch ch (\<lambda>c. c\<lparr>cnt_put_size := cnt_put_size c + 1\<rparr>) mf"

definition AccountingPutSizeDec :: "Manifest option \<Rightarrow> nat \<Rightarrow> (i32 \<times> Manifest option) result" where
  "AccountingPutSizeDec mf ch = account_ch ch (\<lambda>c. c\<lparr>cnt_put_size := cnt_put_size c - 1\<rparr>) mf"

section \<open>The report is a manifest\<close>



















end
