(* ===== verification/HostDesc.thy ===== *)
theory HostDesc
  imports Shm ManifestSetup
begin

text \<open>
  Host descriptors (\<^verbatim>\<open>src/platform/linux/nacl_host_desc.c\<close>, \<^verbatim>\<open>src/platform/nacl_host_desc_common.c\<close>),
  the descriptor class over them (\<^verbatim>\<open>src/desc/nacl_desc_io.c\<close>), the translation of \<open>fstat\<close>
  (\<^verbatim>\<open>src/desc/linux/nacl_desc.c\<close>) and the effector of the loader
  (\<^verbatim>\<open>src/service_runtime/nacl_desc_effector_ldr.c\<close>).

  The record \<open>posix\<close> holds the answers of the operating system, a left value being \<open>errno\<close>. The
  effect of a function on the address space is the list of the calls it makes, newest last.
\<close>

section \<open>The operating system\<close>

record host_stat =
  st_ino :: u64
  st_mode :: u32
  st_nlink :: u64
  st_size :: i64
  st_atime :: i64
  st_mtime :: i64
  st_ctime :: i64

datatype hcall =
    Mmap (call_addr: u64) (call_len: u64) (call_prot: int) (call_flags: int) int i64
  | Munmap (call_addr: u64) (call_len: u64)
  | Mprotect (call_addr: u64) (call_len: u64) (call_prot: int)

record posix =
  px_mmap :: "u64 \<Rightarrow> u64 \<Rightarrow> int \<Rightarrow> int \<Rightarrow> int \<Rightarrow> i64 \<Rightarrow> int + u64"
  px_munmap :: "u64 \<Rightarrow> u64 \<Rightarrow> int option"
  px_mprotect :: "u64 \<Rightarrow> u64 \<Rightarrow> int \<Rightarrow> int option"
  px_open :: "string \<Rightarrow> int \<Rightarrow> int \<Rightarrow> int + int"
  px_fstat :: "int \<Rightarrow> int + host_stat"
  px_read :: "int \<Rightarrow> u64 \<Rightarrow> int + u8 list"
  px_write :: "int \<Rightarrow> u8 list \<Rightarrow> int + nat"
  px_lseek :: "int \<Rightarrow> i64 \<Rightarrow> int \<Rightarrow> int + i64"
  px_close :: "int \<Rightarrow> int option"

definition O_RDONLY :: int where "O_RDONLY = 0"
definition O_WRONLY :: int where "O_WRONLY = 1"
definition O_RDWR :: int where "O_RDWR = 2"
definition O_CREAT :: int where "O_CREAT = 0x40"
definition O_TRUNC :: int where "O_TRUNC = 0x200"
definition O_APPEND :: int where "O_APPEND = 0x400"
definition S_IRUSR :: int where "S_IRUSR = 0x100"
definition S_IWUSR :: int where "S_IWUSR = 0x80"
definition S_IXUSR :: int where "S_IXUSR = 0x40"
definition S_IFMT :: u32 where "S_IFMT = 0xf000"
definition S_IFREG :: u32 where "S_IFREG = 0x8000"
definition S_IFDIR :: u32 where "S_IFDIR = 0x4000"
definition S_IFCHR :: u32 where "S_IFCHR = 0x2000"

section \<open>Translations\<close>

text \<open>
  The error numbers that have a \<open>MAP\<close> line in effect on Linux; for each of them the number of the
  ABI is that of Linux.
\<close>

definition mapped_errnos :: "int list" where
  "mapped_errnos =
    [1, 2, 3, 4, 5, 6, 7, 8, 9, 10, 11, 12, 13, 14, 16, 17, 18, 19, 20, 21, 22, 23, 24, 25, 27, 28,
     29, 30, 31, 32, 36, 38, 122, 33, 34, 42, 44, 46, 47, 49, 50, 51, 35, 37, 52, 53, 54, 55, 56, 57,
     59, 60, 61, 62, 63, 64, 65, 66, 67, 68, 69, 70, 71, 72, 73, 74, 76, 77, 78, 79, 80, 81, 82, 83,
     39, 40, 95, 96, 104, 105, 97, 91, 88, 92, 108, 111, 98, 103, 101, 100, 110, 112, 113, 115, 114,
     89, 93, 94, 99, 102, 106, 107, 109, 87, 116, 123, 84, 75, 125, 45, 43, 90]"

definition NaClXlateErrno :: "int \<Rightarrow> int" where
  "NaClXlateErrno errnum = (if errnum \<in> set mapped_errnos then errnum else NACL_ABI_EINVAL)"

datatype NaClSyncStatus =
    NACL_SYNC_OK | NACL_SYNC_INTERNAL_ERROR | NACL_SYNC_BUSY | NACL_SYNC_MUTEX_INVALID
  | NACL_SYNC_MUTEX_DEADLOCK | NACL_SYNC_MUTEX_PERMISSION | NACL_SYNC_MUTEX_INTERRUPTED
  | NACL_SYNC_CONDVAR_TIMEDOUT | NACL_SYNC_CONDVAR_INTR | NACL_SYNC_SEM_INTERRUPTED
  | NACL_SYNC_SEM_RANGE_ERROR

definition NACL_ABI_EINTR :: int where "NACL_ABI_EINTR = 4"
definition NACL_ABI_EBUSY :: int where "NACL_ABI_EBUSY = 16"
definition NACL_ABI_ERANGE :: int where "NACL_ABI_ERANGE = 34"
definition NACL_ABI_ETIMEDOUT :: int where "NACL_ABI_ETIMEDOUT = 110"

fun NaClXlateNaClSyncStatus :: "NaClSyncStatus \<Rightarrow> int" where
  "NaClXlateNaClSyncStatus NACL_SYNC_OK = 0"
| "NaClXlateNaClSyncStatus NACL_SYNC_INTERNAL_ERROR = NACL_ABI_EINVAL"
| "NaClXlateNaClSyncStatus NACL_SYNC_BUSY = NACL_ABI_EBUSY"
| "NaClXlateNaClSyncStatus NACL_SYNC_MUTEX_INVALID = NACL_ABI_EBADF"
| "NaClXlateNaClSyncStatus NACL_SYNC_MUTEX_DEADLOCK = NACL_ABI_EINVAL"
| "NaClXlateNaClSyncStatus NACL_SYNC_MUTEX_PERMISSION = NACL_ABI_EPERM"
| "NaClXlateNaClSyncStatus NACL_SYNC_MUTEX_INTERRUPTED = NACL_ABI_EINTR"
| "NaClXlateNaClSyncStatus NACL_SYNC_CONDVAR_TIMEDOUT = NACL_ABI_ETIMEDOUT"
| "NaClXlateNaClSyncStatus NACL_SYNC_CONDVAR_INTR = NACL_ABI_EINTR"
| "NaClXlateNaClSyncStatus NACL_SYNC_SEM_INTERRUPTED = NACL_ABI_EINTR"
| "NaClXlateNaClSyncStatus NACL_SYNC_SEM_RANGE_ERROR = NACL_ABI_ERANGE"

text \<open>The macro \<open>M\<close>: one bit of the ABI and one of the host.\<close>

definition bit_to :: "int \<Rightarrow> int \<Rightarrow> int \<Rightarrow> int" where
  "bit_to flags abi os = (if flags AND abi \<noteq> 0 then os else 0)"

definition NaClProtMap :: "int \<Rightarrow> int" where
  "NaClProtMap abi_prot =
     bit_to abi_prot NACL_ABI_PROT_READ PROT_READ OR bit_to abi_prot NACL_ABI_PROT_WRITE PROT_WRITE
     OR bit_to abi_prot NACL_ABI_PROT_EXEC PROT_EXEC"

definition NACL_ABI_O_ACCMODE :: int where "NACL_ABI_O_ACCMODE = 3"
definition NACL_ABI_O_RDONLY :: int where "NACL_ABI_O_RDONLY = 0"
definition NACL_ABI_O_WRONLY :: int where "NACL_ABI_O_WRONLY = 1"
definition NACL_ABI_O_RDWR :: int where "NACL_ABI_O_RDWR = 2"
definition NACL_ABI_O_CREAT :: int where "NACL_ABI_O_CREAT = 0x40"
definition NACL_ABI_O_TRUNC :: int where "NACL_ABI_O_TRUNC = 0x200"
definition NACL_ABI_O_APPEND :: int where "NACL_ABI_O_APPEND = 0x400"

definition NACL_ALLOWED_OPEN_FLAGS :: int where
  "NACL_ALLOWED_OPEN_FLAGS =
     NACL_ABI_O_ACCMODE OR NACL_ABI_O_CREAT OR NACL_ABI_O_TRUNC OR NACL_ABI_O_APPEND"

definition NaClMapOpenFlags :: "int \<Rightarrow> int" where
  "NaClMapOpenFlags nacl_flags0 =
    (let nacl_flags = nacl_flags0 AND
           (NACL_ABI_O_ACCMODE OR NACL_ABI_O_CREAT OR NACL_ABI_O_TRUNC OR NACL_ABI_O_APPEND);
         acc = nacl_flags AND NACL_ABI_O_ACCMODE;
         host_os_flags = (if acc = NACL_ABI_O_RDONLY then O_RDONLY
                          else if acc = NACL_ABI_O_WRONLY then O_WRONLY
                          else if acc = NACL_ABI_O_RDWR then O_RDWR else 0) in
     host_os_flags OR bit_to nacl_flags NACL_ABI_O_CREAT O_CREAT
       OR bit_to nacl_flags NACL_ABI_O_TRUNC O_TRUNC OR bit_to nacl_flags NACL_ABI_O_APPEND O_APPEND)"

definition NACL_ABI_S_IRUSR :: int where "NACL_ABI_S_IRUSR = 0x100"
definition NACL_ABI_S_IWUSR :: int where "NACL_ABI_S_IWUSR = 0x80"
definition NACL_ABI_S_IXUSR :: int where "NACL_ABI_S_IXUSR = 0x40"

definition NaClMapOpenPerm :: "int \<Rightarrow> int" where
  "NaClMapOpenPerm nacl_perm =
     bit_to nacl_perm NACL_ABI_S_IRUSR S_IRUSR OR bit_to nacl_perm NACL_ABI_S_IWUSR S_IWUSR"

definition NaClMapFlagMap :: "int \<Rightarrow> int" where
  "NaClMapFlagMap nacl_map_flags =
     bit_to nacl_map_flags NACL_ABI_MAP_SHARED MAP_SHARED OR bit_to nacl_map_flags NACL_ABI_MAP_PRIVATE MAP_PRIVATE
     OR bit_to nacl_map_flags NACL_ABI_MAP_FIXED MAP_FIXED OR bit_to nacl_map_flags NACL_ABI_MAP_ANONYMOUS MAP_ANONYMOUS"

text \<open>
  \<open>fstat\<close> for the user. The inode number is passed on: the file does not see the configuration
  macro that would mask it.
\<close>

record nacl_abi_stat =
  nacl_abi_st_dev :: i64
  nacl_abi_st_ino :: u64
  nacl_abi_st_mode :: u32
  nacl_abi_st_nlink :: u32
  nacl_abi_st_uid :: u32
  nacl_abi_st_gid :: u32
  nacl_abi_st_rdev :: i64
  nacl_abi_st_size :: i64
  nacl_abi_st_blksize :: i32
  nacl_abi_st_blocks :: i32
  nacl_abi_st_atime :: i64
  nacl_abi_st_atimensec :: i64
  nacl_abi_st_mtime :: i64
  nacl_abi_st_mtimensec :: i64
  nacl_abi_st_ctime :: i64
  nacl_abi_st_ctimensec :: i64

definition NACL_ABI_S_IFREG :: u32 where "NACL_ABI_S_IFREG = 0x8000"
definition NACL_ABI_S_IFDIR :: u32 where "NACL_ABI_S_IFDIR = 0x4000"
definition NACL_ABI_S_IFCHR :: u32 where "NACL_ABI_S_IFCHR = 0x2000"
definition NACL_ABI_S_UNSUP :: u32 where "NACL_ABI_S_UNSUP = 0x1f000"

definition NaClAbiStatHostDescStatXlateCtor :: "host_stat \<Rightarrow> int \<times> nacl_abi_stat" where
  "NaClAbiStatHostDescStatXlateCtor s =
    (let kind = st_mode s AND S_IFMT;
         m = (if kind = S_IFREG then NACL_ABI_S_IFREG
              else if kind = S_IFDIR then NACL_ABI_S_IFDIR
              else if kind = S_IFCHR then NACL_ABI_S_IFCHR else NACL_ABI_S_UNSUP);
         add = (\<lambda>os abi m. if st_mode s AND word_of_int os \<noteq> 0 then m OR word_of_int abi else m);
         m = add S_IRUSR NACL_ABI_S_IRUSR m;
         m = add S_IWUSR NACL_ABI_S_IWUSR m;
         m = add S_IXUSR NACL_ABI_S_IXUSR m in
     (0, \<lparr>nacl_abi_st_dev = 0, nacl_abi_st_ino = st_ino s, nacl_abi_st_mode = m,
          nacl_abi_st_nlink = ucast (st_nlink s), nacl_abi_st_uid = - 1, nacl_abi_st_gid = - 1,
          nacl_abi_st_rdev = 0, nacl_abi_st_size = st_size s, nacl_abi_st_blksize = 0,
          nacl_abi_st_blocks = 0, nacl_abi_st_atime = st_atime s, nacl_abi_st_atimensec = 0,
          nacl_abi_st_mtime = st_mtime s, nacl_abi_st_mtimensec = 0,
          nacl_abi_st_ctime = st_ctime s, nacl_abi_st_ctimensec = 0\<rparr>))"

section \<open>Host descriptors\<close>

record NaClHostDesc =
  hd_d :: int

text \<open>
  \<open>whole\<close> is the test for the mode in which all memory of the user is allocated in advance: then a
  call by the user does not reach the operating system. \<open>MAP_FAILED\<close> as an address is a failure.
\<close>

definition NaClHostDescMap ::
  "posix \<Rightarrow> bool \<Rightarrow> NaClHostDesc option \<Rightarrow> u64 \<Rightarrow> u64 \<Rightarrow> int \<Rightarrow> int \<Rightarrow> i64 \<Rightarrow> hcall list \<Rightarrow>
     (u64 \<times> hcall list) result" where
  "NaClHostDescMap px whole d start_addr n prt0 flags off log =
    (if d = None \<and> flags AND NACL_ABI_MAP_ANONYMOUS = 0 then Inl LogFatal
     else
       let prt = prt0 AND (NACL_ABI_PROT_READ OR NACL_ABI_PROT_WRITE);
           desc = (if flags AND NACL_ABI_MAP_ANONYMOUS \<noteq> 0 then - 1 else hd_d (the d));
           host_flags = NaClMapFlagMap flags;
           host_prot = NaClProtMap prt;
           (map_addr, log) =
             (if whole then (Inr start_addr, log)
              else (px_mmap px start_addr n host_prot host_flags desc off,
                    log @ [Mmap start_addr n host_prot host_flags desc off])) in
       case map_addr of
         Inl e \<Rightarrow> Inr (word_of_int (- NaClXlateErrno e), log)
       | Inr a \<Rightarrow>
           if flags AND NACL_ABI_MAP_FIXED \<noteq> 0 \<and> a \<noteq> start_addr then Inl LogFatal
           else Inr (start_addr, log))"

definition NaClHostDescUnmapUnsafe :: "posix \<Rightarrow> u64 \<Rightarrow> u64 \<Rightarrow> hcall list \<Rightarrow> int \<times> hcall list" where
  "NaClHostDescUnmapUnsafe px start_addr n log =
     (case px_munmap px start_addr n of Some e \<Rightarrow> - NaClXlateErrno e | None \<Rightarrow> 0, log @ [Munmap start_addr n])"

text \<open>The address that \<open>mmap\<close> returns is truncated to an \<open>int\<close>, compared with -1 and returned.\<close>

definition NaClHostDescUnmap :: "posix \<Rightarrow> u64 \<Rightarrow> u64 \<Rightarrow> hcall list \<Rightarrow> int \<times> hcall list" where
  "NaClHostDescUnmap px start_addr n log =
    (let flags = MAP_PRIVATE OR MAP_ANONYMOUS OR MAP_FIXED;
         log = log @ [Mmap start_addr n PROT_NONE flags (- 1) 0] in
     case px_mmap px start_addr n PROT_NONE flags (- 1) 0 of
       Inl e \<Rightarrow> (- NaClXlateErrno e, log)
     | Inr a \<Rightarrow> (sint (ucast a :: i32), log))"

definition NaClHostDescCtor :: "NaClHostDesc \<Rightarrow> int \<Rightarrow> int \<times> NaClHostDesc" where
  "NaClHostDescCtor d fd = (0, d\<lparr>hd_d := fd\<rparr>)"

definition access_ok :: "int \<Rightarrow> bool" where
  "access_ok flags \<longleftrightarrow> flags AND NACL_ABI_O_ACCMODE \<in> {NACL_ABI_O_RDONLY, NACL_ABI_O_WRONLY, NACL_ABI_O_RDWR}"

definition NaClHostDescOpen ::
  "posix \<Rightarrow> NaClHostDesc option \<Rightarrow> string \<Rightarrow> int \<Rightarrow> int \<Rightarrow> (int \<times> NaClHostDesc option) result" where
  "NaClHostDescOpen px d path flags mode =
    (case d of
       None \<Rightarrow> Inl LogFatal
     | Some nhd \<Rightarrow>
         if flags AND NOT NACL_ALLOWED_OPEN_FLAGS \<noteq> 0 then Inr (- NACL_ABI_EINVAL, d)
         else if \<not> access_ok flags then Inr (- NACL_ABI_EINVAL, d)
         else case px_open px path (NaClMapOpenFlags flags) (NaClMapOpenPerm mode) of
           Inl e \<Rightarrow> Inr (- NaClXlateErrno e, d)
         | Inr host_desc \<Rightarrow>
             (case px_fstat px host_desc of
                Inl e \<Rightarrow> Inr (- NaClXlateErrno e, d)
              | Inr st \<Rightarrow>
                  if st_mode st AND S_IFMT \<noteq> S_IFREG then Inr (- NACL_ABI_EPERM, d)
                  else let (rv, nhd) = NaClHostDescCtor nhd host_desc in Inr (rv, Some nhd)))"

definition NaClHostDescPosixTake ::
  "NaClHostDesc option \<Rightarrow> int \<Rightarrow> int \<Rightarrow> (int \<times> NaClHostDesc option) result" where
  "NaClHostDescPosixTake d posix_d flags =
    (case d of
       None \<Rightarrow> Inl LogFatal
     | Some nhd \<Rightarrow>
         if flags AND NOT NACL_ALLOWED_OPEN_FLAGS \<noteq> 0 then Inr (- NACL_ABI_EINVAL, d)
         else if \<not> access_ok flags then Inr (- NACL_ABI_EINVAL, d)
         else Inr (0, Some (nhd\<lparr>hd_d := posix_d\<rparr>)))"

text \<open>\<open>sizeof(struct NaClHostDesc)\<close> is 4.\<close>

definition NaClHostDescPosixMake :: "(nat \<Rightarrow> bool) \<Rightarrow> int \<Rightarrow> int \<Rightarrow> NaClHostDesc option result" where
  "NaClHostDescPosixMake mal posix_d flags =
    (if \<not> mal 4 then Inl LogFatal
     else rbind (NaClHostDescPosixTake (Some \<lparr>hd_d = 0\<rparr>) posix_d flags) (\<lambda>(error, nhdp).
       if error \<noteq> 0 then Inl LogFatal else Inr nhdp))"

text \<open>Reading gives the number of bytes and the bytes, writing how many were taken.\<close>

definition NaClHostDescRead :: "posix \<Rightarrow> NaClHostDesc option \<Rightarrow> u64 \<Rightarrow> (int \<times> u8 list) result" where
  "NaClHostDescRead px d n =
    (case d of
       None \<Rightarrow> Inl LogFatal
     | Some nhd \<Rightarrow> Inr (case px_read px (hd_d nhd) n of
         Inl e \<Rightarrow> (- NaClXlateErrno e, []) | Inr bs \<Rightarrow> (int (length bs), bs)))"

definition NaClHostDescWrite :: "posix \<Rightarrow> NaClHostDesc option \<Rightarrow> u8 list \<Rightarrow> int result" where
  "NaClHostDescWrite px d bs =
    (case d of
       None \<Rightarrow> Inl LogFatal
     | Some nhd \<Rightarrow> Inr (case px_write px (hd_d nhd) bs of Inl e \<Rightarrow> - NaClXlateErrno e | Inr n \<Rightarrow> int n))"

definition NaClHostDescSeek :: "posix \<Rightarrow> NaClHostDesc option \<Rightarrow> i64 \<Rightarrow> int \<Rightarrow> i64 result" where
  "NaClHostDescSeek px d off whence =
    (case d of
       None \<Rightarrow> Inl LogFatal
     | Some nhd \<Rightarrow> Inr (case px_lseek px (hd_d nhd) off whence of
         Inl e \<Rightarrow> word_of_int (- NaClXlateErrno e) | Inr v \<Rightarrow> v))"

definition NaClHostDescIoctl :: "NaClHostDesc option \<Rightarrow> int result" where
  "NaClHostDescIoctl d = (if d = None then Inl LogFatal else Inr (- NACL_ABI_ENOSYS))"

definition NaClHostDescFstat :: "posix \<Rightarrow> NaClHostDesc \<Rightarrow> int \<times> host_stat option" where
  "NaClHostDescFstat px nhd =
     (case px_fstat px (hd_d nhd) of Inl e \<Rightarrow> (- e, None) | Inr st \<Rightarrow> (0, Some st))"

definition NaClHostDescClose :: "posix \<Rightarrow> NaClHostDesc option \<Rightarrow> (int \<times> NaClHostDesc option) result" where
  "NaClHostDescClose px d =
    (case d of
       None \<Rightarrow> Inl LogFatal
     | Some nhd \<Rightarrow> Inr (case px_close px (hd_d nhd) of
         Some e \<Rightarrow> (- NaClXlateErrno e, d) | None \<Rightarrow> (0, Some (nhd\<lparr>hd_d := - 1\<rparr>))))"

section \<open>The effector of the loader\<close>

definition NaClDescEffLdrUnmapMemory :: "u64 \<Rightarrow> u64 \<Rightarrow> int" where
  "NaClDescEffLdrUnmapMemory sysaddr n = 0"

definition NaClDescEffLdrMapAnonMem ::
  "posix \<Rightarrow> bool \<Rightarrow> u64 \<Rightarrow> u64 \<Rightarrow> int \<Rightarrow> hcall list \<Rightarrow> (u64 \<times> hcall list) result" where
  "NaClDescEffLdrMapAnonMem px whole sysaddr n prt log =
     NaClHostDescMap px whole None sysaddr n prt
       (NACL_ABI_MAP_PRIVATE OR NACL_ABI_MAP_ANONYMOUS OR NACL_ABI_MAP_FIXED) 0 log"

section \<open>Descriptors over host descriptors\<close>

text \<open>One round of the loop; \<open>tmp_off\<close> advances with the address. \<open>NACL_MAP_FAILED\<close> is -1.\<close>

definition io_map_page ::
  "posix \<Rightarrow> bool \<Rightarrow> NaClHostDesc option \<Rightarrow> u64 \<Rightarrow> int \<Rightarrow> int \<Rightarrow> u64 \<Rightarrow> i64 \<times> hcall list \<Rightarrow>
     (u64 \<times> hcall list + i64 \<times> hcall list) result" where
  "io_map_page px whole self end_addr prt flags addr = (\<lambda>(tmp_off, log).
     if NaClDescEffLdrUnmapMemory addr NACL_MAP_PAGESIZE \<noteq> 0 then Inl LogFatal
     else
       let map_size = end_addr - addr;
           map_size = (if NACL_MAP_PAGESIZE < map_size then NACL_MAP_PAGESIZE else map_size) in
       rbind (NaClHostDescMap px whole self addr map_size prt flags tmp_off log) (\<lambda>(status, log).
         if status = - 1 then Inr (Inl (word_of_int (- NACL_ABI_E_MOVE_ADDRESS_SPACE), log))
         else Inr (Inr (tmp_off + NACL_MAP_PAGESIZE, log))))"

text \<open>Without \<open>MAP_FIXED\<close> the range is found by an anonymous mapping first.\<close>

definition io_find_space :: "posix \<Rightarrow> u64 \<Rightarrow> hcall list \<Rightarrow> u64 option \<times> hcall list" where
  "io_find_space px n log =
    (let flags = MAP_ANONYMOUS OR MAP_NORESERVE OR MAP_PRIVATE; prt = PROT_READ OR PROT_WRITE in
     (case px_mmap px 0 n prt flags (- 1) 0 of Inl _ \<Rightarrow> None | Inr a \<Rightarrow> Some a,
      log @ [Mmap 0 n prt flags (- 1) 0]))"

definition NaClDescIoDescMap ::
  "posix \<Rightarrow> bool \<Rightarrow> NaClHostDesc option \<Rightarrow> u64 \<Rightarrow> u64 \<Rightarrow> int \<Rightarrow> int \<Rightarrow> i64 \<Rightarrow> hcall list \<Rightarrow>
     (u64 \<times> hcall list) result" where
  "NaClDescIoDescMap px whole self start_addr n prt flags off log =
    (if NOT (NACL_ABI_PROT_READ OR NACL_ABI_PROT_WRITE) AND prt \<noteq> 0
     then Inr (word_of_int (- NACL_ABI_EINVAL), log)
     else
       let (found, log) = (if NACL_ABI_MAP_FIXED AND flags = 0 then io_find_space px n log
                           else (Some start_addr, log)) in
       case found of
         None \<Rightarrow> Inr (word_of_int (- NACL_ABI_ENOMEM), log)
       | Some start_addr \<Rightarrow>
           let flags = flags OR NACL_ABI_MAP_FIXED; end_addr = start_addr + n in
           rbind (ptr_loop loop_rounds NACL_MAP_PAGESIZE (io_map_page px whole self end_addr prt flags)
                    start_addr end_addr (off, log))
             (\<lambda>r. case r of Inl (v, log) \<Rightarrow> Inr (v, log) | Inr (_, log) \<Rightarrow> Inr (start_addr, log)))"

definition NaClDescIoDescMapAnon ::
  "posix \<Rightarrow> bool \<Rightarrow> u64 \<Rightarrow> u64 \<Rightarrow> int \<Rightarrow> int \<Rightarrow> i64 \<Rightarrow> hcall list \<Rightarrow> (u64 \<times> hcall list) result" where
  "NaClDescIoDescMapAnon px whole start_addr n prt flags off log =
     NaClDescIoDescMap px whole None start_addr n prt flags off log"

definition NaClDescIoDescUnmapCommon :: "posix \<Rightarrow> u64 \<Rightarrow> u64 \<Rightarrow> bool \<Rightarrow> hcall list \<Rightarrow> int \<times> hcall list" where
  "NaClDescIoDescUnmapCommon px start_addr n safe_mode log =
     (if safe_mode then NaClHostDescUnmap px start_addr n log else NaClHostDescUnmapUnsafe px start_addr n log)"

definition NaClDescIoDescUnmapUnsafe :: "posix \<Rightarrow> u64 \<Rightarrow> u64 \<Rightarrow> hcall list \<Rightarrow> int \<times> hcall list" where
  "NaClDescIoDescUnmapUnsafe px start_addr n log = NaClDescIoDescUnmapCommon px start_addr n False log"

definition NaClDescIoDescUnmap :: "posix \<Rightarrow> u64 \<Rightarrow> u64 \<Rightarrow> hcall list \<Rightarrow> int \<times> hcall list" where
  "NaClDescIoDescUnmap px start_addr n log = NaClDescIoDescUnmapCommon px start_addr n True log"

definition NaClDescIoDescRead :: "posix \<Rightarrow> NaClHostDesc \<Rightarrow> u64 \<Rightarrow> (int \<times> u8 list) result" where
  "NaClDescIoDescRead px self n = NaClHostDescRead px (Some self) n"

definition NaClDescIoDescWrite :: "posix \<Rightarrow> NaClHostDesc \<Rightarrow> u8 list \<Rightarrow> int result" where
  "NaClDescIoDescWrite px self bs = NaClHostDescWrite px (Some self) bs"

definition NaClDescIoDescSeek :: "posix \<Rightarrow> NaClHostDesc \<Rightarrow> i64 \<Rightarrow> int \<Rightarrow> i64 result" where
  "NaClDescIoDescSeek px self off whence = NaClHostDescSeek px (Some self) off whence"

definition NaClDescIoDescIoctl :: "NaClHostDesc \<Rightarrow> int result" where
  "NaClDescIoDescIoctl self = NaClHostDescIoctl (Some self)"

definition NaClDescIoDescFstat :: "posix \<Rightarrow> NaClHostDesc \<Rightarrow> int \<times> nacl_abi_stat option" where
  "NaClDescIoDescFstat px self =
    (case NaClHostDescFstat px self of
       (rv, Some st) \<Rightarrow> (case NaClAbiStatHostDescStatXlateCtor st of (rv, s) \<Rightarrow> (rv, Some s))
     | (rv, None) \<Rightarrow> (rv, None))"

end
