(* ===== verification/Trap.thy ===== *)
theory Trap
  imports HostDesc
begin

text \<open>
  The one system call of the user program (\<^verbatim>\<open>src/manifest/trap.c\<close>, built without networking):
  exit, reading and writing the channels within the limits of the manifest, and exchanging the
  policy with the user. The policy is an object of the runtime; the arguments of the call, the
  buffers and the policy as the user sees it, the hint, are in the memory of the process, at the
  offsets of the C structures. What the operating system answers to \<open>pread\<close> and \<open>pwrite\<close> and what
  the clock shows are arguments.
\<close>

section \<open>State\<close>

text \<open>The registers of the user program.\<close>

record NaClThreadContext =
  rax :: u64
  rbx :: u64
  rcx :: u64
  rdx :: u64
  rbp :: u64
  rsi :: u64
  rdi :: u64
  rsp :: u64
  r8 :: u64
  r9 :: u64
  r10 :: u64
  r11 :: u64
  r12 :: u64
  r13 :: u64
  r14 :: u64
  r15 :: u64
  prog_ctr :: u64
  new_prog_ctr :: u64
  ctx_sysret :: u64
  tls_base :: u64
  tls_idx :: u32

text \<open>
  The application and its manifest, the memory of the process, the global \<open>syscallback\<close>, what was
  written to files by \<open>pwrite\<close>, the memory calls made so far, the host descriptors of the
  descriptors that the numbers in the descriptor table stand for, the context of the user program,
  and the fields of the application that pass the arguments and the result of a system call.
\<close>

record world =
  app :: NaClApp
  manifest :: "Manifest option"
  mem :: memory
  g_syscallback :: i64
  written :: "(i32 \<times> i64 \<times> u8 list) list"
  hostlog :: "hcall list"
  descs :: "NaClHostDesc list"
  user_ctx :: NaClThreadContext
  syscall_args :: u64
  sysret :: u32

text \<open>
  \<open>None\<close> is the result -1. \<open>os_pread\<close> gives the bytes that were read, \<open>os_pwrite\<close> how many of the
  bytes were written; these are added to \<open>written\<close>.
\<close>

record io =
  os_clock :: i64
  os_pread :: "i32 \<Rightarrow> u64 \<Rightarrow> i64 \<Rightarrow> u8 list option"
  os_pwrite :: "i32 \<Rightarrow> u8 list \<Rightarrow> i64 \<Rightarrow> nat option"

text \<open>
  A call returns to its caller or jumps back to \<open>main\<close>, where \<open>setjmp\<close> then returns the value in
  \<open>LongJmp\<close>: what \<open>longjmp\<close> was given, with 0 replaced by 1.
\<close>

datatype outcome = Returns i32 | LongJmp i32

definition longjmp :: "i32 \<Rightarrow> outcome" where
  "longjmp val = LongJmp (if val = 0 then 1 else val)"

definition TrapUserSetup :: u64 where "TrapUserSetup = 17770430"
definition TrapRead :: u64 where "TrapRead = TrapUserSetup + 1"
definition TrapWrite :: u64 where "TrapWrite = TrapUserSetup + 2"
definition TrapExit :: u64 where "TrapExit = TrapUserSetup + 3"

definition INTERNAL_ERR :: i32 where "INTERNAL_ERR = 256"
definition INVALID_DESC :: i32 where "INVALID_DESC = 257"
definition INVALID_MODE :: i32 where "INVALID_MODE = 258"
definition INSANE_SIZE :: i32 where "INSANE_SIZE = 259"
definition INSANE_OFFSET :: i32 where "INSANE_OFFSET = 260"
definition INVALID_BUFFER :: i32 where "INVALID_BUFFER = 261"
definition OUT_OF_BOUNDS :: i32 where "OUT_OF_BOUNDS = 262"
definition OUT_OF_LIMITS :: i32 where "OUT_OF_LIMITS = 263"

lemmas trap_code_defs = INTERNAL_ERR_def INVALID_DESC_def INVALID_MODE_def INSANE_SIZE_def
  INSANE_OFFSET_def INVALID_BUFFER_def OUT_OF_BOUNDS_def OUT_OF_LIMITS_def
lemmas trap_call_defs = TrapUserSetup_def TrapRead_def TrapWrite_def TrapExit_def

section \<open>Objects in memory\<close>

text \<open>Loads and stores of 32 and 64 bits, little endian, and blocks of bytes.\<close>

definition ld32 :: "memory \<Rightarrow> u64 \<Rightarrow> u32" where "ld32 m a = ucast (load_loop m a 4 0)"
definition ld64 :: "memory \<Rightarrow> u64 \<Rightarrow> u64" where "ld64 m a = load_loop m a 8 0"
definition st32 :: "u64 \<Rightarrow> u32 \<Rightarrow> memory \<Rightarrow> memory" where "st32 a v m = store_loop m a 0 4 (ucast v)"
definition st64 :: "u64 \<Rightarrow> u64 \<Rightarrow> memory \<Rightarrow> memory" where "st64 a v m = store_loop m a 0 8 v"

definition st_bytes :: "u64 \<Rightarrow> u8 list \<Rightarrow> memory \<Rightarrow> memory" where
  "st_bytes a bs m = (\<lambda>x. if unat (x - a) < length bs then bs ! unat (x - a) else m x)"

definition ld_bytes :: "memory \<Rightarrow> u64 \<Rightarrow> nat \<Rightarrow> u8 list" where
  "ld_bytes m a n = map (\<lambda>i. m (a + of_nat i)) [0..<n]"

text \<open>The offsets of the fields of \<open>struct SetupList\<close> and of its channels.\<close>

definition at_self_size :: "u64 \<Rightarrow> u64" where "at_self_size hint = hint"
definition at_heap_ptr :: "u64 \<Rightarrow> u64" where "at_heap_ptr hint = hint + 4"
definition at_max_mem :: "u64 \<Rightarrow> u64" where "at_max_mem hint = hint + 8"
definition at_max_cpu :: "u64 \<Rightarrow> u64" where "at_max_cpu hint = hint + 12"
definition at_max_syscalls :: "u64 \<Rightarrow> u64" where "at_max_syscalls hint = hint + 16"
definition at_max_setup_calls :: "u64 \<Rightarrow> u64" where "at_max_setup_calls hint = hint + 20"
definition at_content_type :: "u64 \<Rightarrow> u64" where "at_content_type hint = hint + 44"
definition at_timestamp :: "u64 \<Rightarrow> u64" where "at_timestamp hint = hint + 108"
definition at_x_object_meta_tag :: "u64 \<Rightarrow> u64" where "at_x_object_meta_tag hint = hint + 172"
definition at_user_etag :: "u64 \<Rightarrow> u64" where "at_user_etag hint = hint + 428"
definition at_syscallback :: "u64 \<Rightarrow> u64" where "at_syscallback hint = hint + 492"
definition at_channel :: "u64 \<Rightarrow> nat \<Rightarrow> u64" where "at_channel hint ch = hint + 496 + 104 * of_nat ch"

text \<open>\<open>strncpy\<close> of an array of the policy to an array of the hint.\<close>

definition st_chars :: "u64 \<Rightarrow> char list \<Rightarrow> nat \<Rightarrow> memory \<Rightarrow> memory" where
  "st_chars a s n = st_bytes a (map of_char (strncpy [] s n))"

section \<open>Handlers\<close>

definition PauseCpuClock :: "i64 \<Rightarrow> Manifest option \<Rightarrow> Manifest option result" where
  "PauseCpuClock current mf =
    (if mf = None then Inr mf
     else rbind (policy_of mf) (\<lambda>policy.
       let policy = policy\<lparr>cnt_cpu := ucast (scast (cnt_cpu policy) + (current - scast (cnt_cpu_last policy)))\<rparr>;
           policy = policy\<lparr>cnt_cpu_last := ucast current\<rparr> in
       Inr (set_policy policy mf)))"

definition ResumeCpuClock :: "i64 \<Rightarrow> Manifest option \<Rightarrow> Manifest option result" where
  "ResumeCpuClock current mf =
    (if mf = None then Inr mf
     else rbind (policy_of mf) (\<lambda>policy. Inr (set_policy (policy\<lparr>cnt_cpu_last := ucast current\<rparr>) mf)))"

definition TrapExitHandle :: "world \<Rightarrow> i32 \<Rightarrow> outcome \<times> world" where
  "TrapExitHandle w code = (longjmp code, w\<lparr>app := (app w)\<lparr>exit_status := sint code\<rparr>\<rparr>)"

definition OP_ALIGNEMENT :: i32 where "OP_ALIGNEMENT = 0x20"

definition UpdateSyscallback :: "world \<Rightarrow> u64 \<Rightarrow> (i32 \<times> world) result" where
  "UpdateSyscallback w hint =
     rbind (policy_of (manifest w)) (\<lambda>policy.
     let addr = ld32 (mem w) (at_syscallback hint);
         w = w\<lparr>g_syscallback := 0, manifest := set_policy (policy\<lparr>syscallback := 0\<rparr>) (manifest w)\<rparr>;
         uaddr = (scast addr :: u64) in
     if addr = 0 then Inr (OK_CODE, w)
     else if addr AND (OP_ALIGNEMENT - 1) \<noteq> 0 then Inr (ERR_CODE, w)
     else
       let retcode = (if dynamic_text_start (app w) \<le> uaddr \<and> uaddr < dynamic_text_end (app w)
                      then OK_CODE else ERR_CODE);
           retcode = (if sint NACL_TRAMPOLINE_END \<le> sint addr \<and> uaddr < static_text_end (app w)
                      then OK_CODE else retcode) in
       if retcode = OK_CODE
       then rbind (NaClUserToSys (app w) uaddr) (\<lambda>sysaddr.
         Inr (retcode, w\<lparr>manifest := set_policy (policy\<lparr>syscallback := addr\<rparr>) (manifest w),
                         g_syscallback := sysaddr\<rparr>))
       else Inr (retcode, w))"

text \<open>Storing a channel of the policy back.\<close>

definition put_channel :: "nat \<Rightarrow> PreOpenedFileDesc \<Rightarrow> world \<Rightarrow> world" where
  "put_channel ch fd w =
     w\<lparr>manifest := map_option (\<lambda>m. m\<lparr>user_setup :=
         map_option (\<lambda>p. p\<lparr>channels := (channels p)[ch := fd]\<rparr>) (user_setup m)\<rparr>) (manifest w)\<rparr>"

definition channel_of :: "world \<Rightarrow> nat \<Rightarrow> PreOpenedFileDesc result" where
  "channel_of w ch =
     rbind (policy_of (manifest w)) (\<lambda>policy.
       if length (channels policy) \<le> ch then Inl OutOfBounds else Inr (channels policy ! ch))"

definition TrapReadHandle ::
  "io \<Rightarrow> world \<Rightarrow> u32 \<Rightarrow> u64 \<Rightarrow> i32 \<Rightarrow> i64 \<Rightarrow> (i32 \<times> world) result" where
  "TrapReadHandle h w desc buf sz off =
     rbind (NaClUserToSys (app w) buf) (\<lambda>sys_buffer.
     if unat desc \<noteq> InputChannel \<and> unat desc \<noteq> OutputChannel then Inr (- INVALID_DESC, w)
     else rbind (channel_of w (unat desc)) (\<lambda>fd.
     if mounted fd \<noteq> LOADED then Inr (- INVALID_MODE, w)
     else if sint sz < 1 then Inr (- INSANE_SIZE, w)
     else if sint off < 0 then Inr (- INSANE_OFFSET, w)
     else if sint (fsize fd) \<le> sint off then Inr (- OUT_OF_BOUNDS, w)
     else if sint (max_gets fd) \<le> sint (cnt_gets fd) then Inr (- OUT_OF_LIMITS, w)
     else
       let tail = max_get_size fd - cnt_get_size fd;
           sz = (if sint tail < sint sz then ucast tail else sz) in
       if sint sz < 1 then Inr (- OUT_OF_LIMITS, w)
       else
         let fd = fd\<lparr>cnt_gets := cnt_gets fd + 1\<rparr>;
             fd = fd\<lparr>cnt_get_size := cnt_get_size fd + scast sz\<rparr>;
             w = put_channel (unat desc) fd w in
         case os_pread h (handle fd) (scast sz) off of
           None \<Rightarrow> Inr (- 1, w)
         | Some bs \<Rightarrow> Inr (of_nat (length bs), w\<lparr>mem := st_bytes sys_buffer bs (mem w)\<rparr>)))"

definition TrapWriteHandle ::
  "io \<Rightarrow> world \<Rightarrow> u32 \<Rightarrow> u64 \<Rightarrow> i32 \<Rightarrow> i64 \<Rightarrow> (i32 \<times> world) result" where
  "TrapWriteHandle h w desc buf sz off =
     rbind (NaClUserToSys (app w) buf) (\<lambda>sys_buffer.
     if unat desc \<noteq> OutputChannel then Inr (- INVALID_DESC, w)
     else rbind (channel_of w (unat desc)) (\<lambda>fd.
     if mounted fd \<noteq> LOADED then Inr (- INVALID_MODE, w)
     else if sint sz < 1 then Inr (- INSANE_SIZE, w)
     else if sint off < 0 then Inr (- INSANE_OFFSET, w)
     else if sint (fsize fd) \<le> sint off then Inr (- OUT_OF_BOUNDS, w)
     else if sint (max_puts fd) \<le> sint (cnt_puts fd) then Inr (- OUT_OF_LIMITS, w)
     else
       let tail = max_put_size fd - cnt_put_size fd;
           sz = (if sint tail < sint sz then ucast tail else sz) in
       if sint sz < 1 then Inr (- OUT_OF_LIMITS, w)
       else
         let fd = fd\<lparr>cnt_puts := cnt_puts fd + 1\<rparr>;
             fd = fd\<lparr>cnt_put_size := cnt_put_size fd + scast sz\<rparr>;
             w = put_channel (unat desc) fd w;
             bs = ld_bytes (mem w) sys_buffer (unat sz) in
         case os_pwrite h (handle fd) bs off of
           None \<Rightarrow> Inr (- 1, w)
         | Some n \<Rightarrow> Inr (of_nat n, w\<lparr>written := written w @ [(handle fd, off, take n bs)]\<rparr>)))"

section \<open>Exchanging the policy\<close>

text \<open>
  \<open>TRY_UPDATE\<close> of a field of the hint at an address against the current limit: the new limit, the
  memory and the return code. The first call only tells the user the limits.
\<close>

definition try_update ::
  "('w \<Rightarrow> 'w \<Rightarrow> bool) \<Rightarrow> (memory \<Rightarrow> u64 \<Rightarrow> 'w) \<Rightarrow> (u64 \<Rightarrow> 'w \<Rightarrow> memory \<Rightarrow> memory) \<Rightarrow>
     bool \<Rightarrow> u64 \<Rightarrow> 'w \<Rightarrow> memory \<times> i32 \<Rightarrow> 'w \<times> memory \<times> i32" where
  "try_update le ld st first a current mr =
    (let (m, retcode) = mr; pretender = ld m a in
     if first then (current, st a current m, retcode)
     else if le pretender current then (pretender, m, retcode)
     else (current, st a current m, ERR_CODE))"

definition try_i64 :: "bool \<Rightarrow> u64 \<Rightarrow> i64 \<Rightarrow> memory \<times> i32 \<Rightarrow> i64 \<times> memory \<times> i32" where
  "try_i64 = try_update (\<lambda>a b. sint a \<le> sint b) ld64 st64"

definition try_i32 :: "bool \<Rightarrow> u64 \<Rightarrow> i32 \<Rightarrow> memory \<times> i32 \<Rightarrow> i32 \<times> memory \<times> i32" where
  "try_i32 = try_update (\<lambda>a b. sint a \<le> sint b) ld32 st32"

definition try_u32 :: "bool \<Rightarrow> u64 \<Rightarrow> u32 \<Rightarrow> memory \<times> i32 \<Rightarrow> u32 \<times> memory \<times> i32" where
  "try_u32 = try_update (\<le>) ld32 st32"

text \<open>The body of the loop over the channels; \<open>hc\<close> is the address of the channel in the hint.\<close>

definition setup_channel ::
  "bool \<Rightarrow> u64 \<Rightarrow> nat \<Rightarrow> PreOpenedFileDesc \<Rightarrow> memory \<times> i32 \<Rightarrow> PreOpenedFileDesc \<times> memory \<times> i32" where
  "setup_channel first hc ch pc mr =
    (let (m, retcode) = mr;
         m = st32 hc (ch_self_size pc) m;
         (v, mr) = try_i64 first (hc + 48) (max_size pc) (m, retcode); pc = pc\<lparr>max_size := v\<rparr>;
         (v, mr) = try_i64 first (hc + 64) (max_get_size pc) mr; pc = pc\<lparr>max_get_size := v\<rparr>;
         (v, mr) = try_i32 first (hc + 56) (max_gets pc) mr; pc = pc\<lparr>max_gets := v\<rparr>;
         (v, mr) = try_i64 first (hc + 72) (max_put_size pc) mr; pc = pc\<lparr>max_put_size := v\<rparr>;
         (v, mr) = try_i32 first (hc + 60) (max_puts pc) mr; pc = pc\<lparr>max_puts := v\<rparr>;
         (m, retcode) = mr;
         m = st32 (hc + 44) (bsize pc) m;
         m = st32 (hc + 40) (buffer pc) m;
         m = st64 (hc + 32) (fsize pc) m;
         m = st32 (hc + 16) (ch_type pc) m;
         m = st32 (hc + 20) (mounted pc) m;
         m = st32 (hc + 24) (of_nat ch) m in
     (pc, m, retcode))"

fun setup_channels ::
  "bool \<Rightarrow> u64 \<Rightarrow> nat \<Rightarrow> PreOpenedFileDesc list \<Rightarrow> memory \<times> i32 \<Rightarrow>
     PreOpenedFileDesc list \<times> memory \<times> i32" where
  "setup_channels first hint ch [] mr = ([], mr)"
| "setup_channels first hint ch (pc # pcs) mr =
    (let (pc', mr) = setup_channel first (at_channel hint ch) ch pc mr;
         (pcs', mr) = setup_channels first hint (Suc ch) pcs mr in
     (pc' # pcs', mr))"

definition TrapUserSetupHandle :: "world \<Rightarrow> u64 \<Rightarrow> (i32 \<times> world) result" where
  "TrapUserSetupHandle w hu =
     rbind (policy_of (manifest w)) (\<lambda>policy.
     rbind (NaClUserToSys (app w) hu) (\<lambda>hint.
     let policy = policy\<lparr>cnt_syscalls := cnt_syscalls policy - 1\<rparr>;
         policy = policy\<lparr>cnt_setup_calls := cnt_setup_calls policy + 1\<rparr>;
         w = w\<lparr>manifest := set_policy policy (manifest w)\<rparr> in
     if sint (max_setup_calls policy) < sint (cnt_setup_calls policy) then Inr (- OUT_OF_LIMITS, w)
     else if length (channels policy) < CHANNELS_COUNT then Inl OutOfBounds
     else
       let first = (cnt_setup_calls policy = 1);
           (chs, mr) = setup_channels first hint 0 (take CHANNELS_COUNT (channels policy)) (mem w, OK_CODE);
           policy = policy\<lparr>channels := chs @ drop CHANNELS_COUNT (channels policy)\<rparr>;
           (v, mr) = try_i32 first (at_max_cpu hint) (max_cpu policy) mr; policy = policy\<lparr>max_cpu := v\<rparr>;
           (v, mr) = try_u32 first (at_max_mem hint) (max_mem policy) mr; policy = policy\<lparr>max_mem := v\<rparr>;
           (v, mr) = try_i32 first (at_max_syscalls hint) (max_syscalls policy) mr;
           policy = policy\<lparr>max_syscalls := v\<rparr>;
           (v, mr) = try_i32 first (at_max_setup_calls hint) (max_setup_calls policy) mr;
           policy = policy\<lparr>max_setup_calls := v\<rparr>;
           (m, retcode) = mr;
           m = st32 (at_self_size hint) (self_size policy) m;
           m = st32 (at_heap_ptr hint) (heap_ptr policy) m;
           m = st_chars (at_content_type hint) (content_type policy) CONTENT_TYPE_LEN m;
           m = st_chars (at_timestamp hint) (timestamp policy) TIMESTAMP_LEN m;
           m = st_chars (at_user_etag hint) (user_etag policy) USER_TAG_LEN m;
           m = st_chars (at_x_object_meta_tag hint) (x_object_meta_tag policy) X_OBJECT_META_TAG_LEN m;
           w = w\<lparr>manifest := set_policy policy (manifest w), mem := m\<rparr> in
       rbind (UpdateSyscallback w hint) (\<lambda>(r, w).
         Inr (if r = ERR_CODE then ERR_CODE else retcode, w))))"

section \<open>The trap\<close>

definition TrapHandler :: "io \<Rightarrow> world \<Rightarrow> u32 \<Rightarrow> (outcome \<times> world) result" where
  "TrapHandler h w args =
    (if manifest w = None then Inr (Returns (- 1), w)
     else rbind (NaClUserToSys (app w) (ucast args)) (\<lambda>sys_args.
       let arg = (\<lambda>i. ld64 (mem w) (sys_args + 8 * i));
           returns = (\<lambda>(r, w). Inr (Returns r, w)) in
       if arg 0 = TrapExit then Inr (TrapExitHandle w (ucast (arg 2)))
       else if arg 0 = TrapUserSetup then rbind (TrapUserSetupHandle w (arg 2)) returns
       else if arg 0 = TrapRead
         then rbind (TrapReadHandle h w (ucast (arg 2)) (arg 3) (ucast (arg 4)) (arg 5)) returns
       else if arg 0 = TrapWrite
         then rbind (TrapWriteHandle h w (ucast (arg 2)) (arg 3) (ucast (arg 4)) (arg 5)) returns
       else Inr (Returns ERR_CODE, w)))"

section \<open>Loads and stores\<close>

named_theorems ldst \<open>loads after stores\<close>

lemma ld64_eq: "ld64 m a = le_value m a 8"
  by (simp add: ld64_def load_loop_eq)

lemma ld32_eq: "ld32 m a = ucast (le_value m a 4)"
  by (simp add: ld32_def load_loop_eq)

lemma st64_at: "st64 a v m x = (if unat (x - a) < 8 then ucast (drop_bit (8 * unat (x - a)) v) else m x)"
  by (simp add: st64_def store_loop_at)

lemma st32_at: "st32 a v m x = (if unat (x - a) < 4 then ucast (drop_bit (8 * unat (x - a)) (ucast v :: u64)) else m x)"
  by (simp add: st32_def store_loop_at)

lemma le_value_cong:
  "(\<And>k. k < n \<Longrightarrow> m (a + of_nat k) = m' (a + of_nat k)) \<Longrightarrow> le_value m a n = le_value m' a n"
  by (induction n) simp_all

lemma ld64_st64_same [ldst]: "ld64 (st64 a v m) a = v"
  by (simp add: ld64_eq le_value_bytes [of 8 _ a v] st64_at unat_of_nat take_bit_word_eq_self)

lemma ld32_st32_same [ldst]: "ld32 (st32 a v m) a = v"
  by (simp add: ld32_eq le_value_bytes [of 4 _ a "ucast v"] st32_at unat_of_nat)
     (rule bit_eqI, auto simp: bit_simps)

text \<open>Two ranges of \<open>n\<close> bytes from \<open>a\<close> and of \<open>k\<close> bytes from \<open>b\<close> that do not meet.\<close>

lemma not_in_other:
  fixes a b x :: u64
  assumes "n \<le> unat (b - a)" "k \<le> unat (a - b)" "unat (x - b) < k"
  shows "n \<le> unat (x - a)"
proof -
  have "unat ((a - b) + (b - a)) = (unat (a - b) + unat (b - a)) mod 2 ^ 64"
    by (simp only: unat_word_ariths) simp
  then have "2 ^ 64 dvd unat (a - b) + unat (b - a)" by (simp add: mod_eq_0_iff_dvd)
  moreover have "0 < unat (a - b)" "unat (a - b) < 2 ^ 64" "unat (b - a) < 2 ^ 64"
    using assms unat_lt64 by simp_all
  ultimately have "unat (a - b) + unat (b - a) = 2 ^ 64" by (auto simp: dvd_def)
  then have "unat (x - b) + unat (b - a) < 2 ^ 64" using assms by simp
  then have "unat ((x - b) + (b - a)) = unat (x - b) + unat (b - a)"
    by (intro unat_plus_nowrap) simp
  then show ?thesis using assms by simp
qed

lemma outside_sub:
  fixes a x o' :: u64
  assumes "N \<le> unat (x - a)" "unat o' + n \<le> N"
  shows "n \<le> unat (x - (a + o'))"
proof (rule ccontr)
  assume "\<not> ?thesis"
  then have "unat (x - (a + o')) + unat o' < N" using assms(2) by simp
  moreover have "N < 2 ^ 64" using assms(1) unat_lt64 [of "x - a"] by simp
  ultimately have "unat ((x - (a + o')) + o') < N" by (subst unat_plus_nowrap) simp_all
  with assms(1) show False by simp
qed

lemma st_outside:
  "4 \<le> unat (x - a) \<Longrightarrow> st32 a v32 m x = m x"
  "8 \<le> unat (x - a) \<Longrightarrow> st64 a v m x = m x"
  "length bs \<le> unat (x - a) \<Longrightarrow> st_bytes a bs m x = m x"
  by (simp_all add: st32_at st64_at st_bytes_def)

lemma unat_of_nat_off: "k < n \<Longrightarrow> n \<le> 2 ^ 64 \<Longrightarrow> unat (b + of_nat k - b :: u64) < n"
  by (simp add: unat_of_nat)

lemma word_numeral_le_unat: "(numeral n :: u64) \<le> w \<Longrightarrow> unat (numeral n :: u64) \<le> unat w"
  by (simp only: word_le_nat_alt)

lemma ld64_other:
  assumes "\<And>x. n \<le> unat (x - a) \<Longrightarrow> m' x = m x" "n \<le> unat (b - a)" "8 \<le> unat (a - b)"
  shows "ld64 m' b = ld64 m b"
  unfolding ld64_eq
  by (rule le_value_cong) (intro assms(1) not_in_other [OF assms(2,3)] unat_of_nat_off; simp)

lemma ld32_other:
  assumes "\<And>x. n \<le> unat (x - a) \<Longrightarrow> m' x = m x" "n \<le> unat (b - a)" "4 \<le> unat (a - b)"
  shows "ld32 m' b = ld32 m b"
  unfolding ld32_eq
  by (rule arg_cong [where f = ucast], rule le_value_cong)
     (intro assms(1) not_in_other [OF assms(2,3)] unat_of_nat_off; simp)

lemma ld_st_other [ldst]:
  "8 \<le> b - a \<Longrightarrow> 8 \<le> a - b \<Longrightarrow> ld64 (st64 a v m) b = ld64 m b"
  "4 \<le> b - a \<Longrightarrow> 8 \<le> a - b \<Longrightarrow> ld64 (st32 a v32 m) b = ld64 m b"
  "8 \<le> b - a \<Longrightarrow> 4 \<le> a - b \<Longrightarrow> ld32 (st64 a v m) b = ld32 m b"
  "4 \<le> b - a \<Longrightarrow> 4 \<le> a - b \<Longrightarrow> ld32 (st32 a v32 m) b = ld32 m b"
  by (auto intro!: ld64_other ld32_other dest!: word_numeral_le_unat simp: st64_at st32_at)

lemma ld_st_bytes_other [ldst]:
  "length bs \<le> unat (b - a) \<Longrightarrow> 8 \<le> a - b \<Longrightarrow> ld64 (st_bytes a bs m) b = ld64 m b"
  "length bs \<le> unat (b - a) \<Longrightarrow> 4 \<le> a - b \<Longrightarrow> ld32 (st_bytes a bs m) b = ld32 m b"
  by (auto intro!: ld64_other [of "length bs"] ld32_other [of "length bs"] dest!: word_numeral_le_unat simp: st_bytes_def)

text \<open>Storing what is there already changes nothing.\<close>

lemma le_value_byte: "i < n \<Longrightarrow> n \<le> 8 \<Longrightarrow> ucast (drop_bit (8 * i) (le_value m a n)) = m (a + of_nat i)"
proof (induction n)
  case (Suc n)
  have z: "bit (le_value m a k) j \<Longrightarrow> j < 8 * k" for k j
  proof (induction k)
    case (Suc k)
    then show ?case using bit_imp_le_length [of "m (a + of_nat k)" "j - 8 * k"] by (auto simp: bit_simps)
  qed simp
  show ?case
  proof (cases "i = n")
    case True
    with Suc.prems show ?thesis by (intro bit_eqI) (auto simp: bit_simps dest: z)
  next
    case False
    then have "ucast (drop_bit (8 * i) (le_value m a n)) = m (a + of_nat i)" using Suc by simp
    then have b: "bit (le_value m a n) (8 * i + j) \<longleftrightarrow> bit (m (a + of_nat i)) j" if "j < 8" for j
      using that by (drule_tac arg_cong [where f = "\<lambda>w. bit w j"]) (simp add: bit_simps)
    show ?thesis using False Suc.prems by (intro bit_eqI) (auto simp: bit_simps b [symmetric])
  qed
qed simp

lemma st64_ld64: "st64 a (ld64 m a) m = m"
proof (rule ext)
  fix x
  have "a + of_nat (unat (x - a)) = x" by simp
  then show "st64 a (ld64 m a) m x = m x"
    by (simp add: st64_at ld64_eq le_value_byte)
qed

lemma st32_ld32: "st32 a (ld32 m a) m = m"
proof (rule ext)
  fix x
  have "a + of_nat (unat (x - a)) = x" by simp
  moreover have "ucast (drop_bit (8 * i) (ucast (ucast v :: u32) :: u64)) = (ucast (drop_bit (8 * i) v) :: u8)"
    if "i < 4" for i and v :: u64
    using that by (intro bit_eqI) (auto simp: bit_simps)
  ultimately show "st32 a (ld32 m a) m x = m x"
    by (simp add: st32_at ld32_eq le_value_byte)
qed

end
