(* ===== verification/TrapSetup.thy ===== *)
theory TrapSetup
  imports Trap
begin

text \<open>
  What the exchange of the policy computes: each limit becomes the one the user asks for if that is
  not larger, else it stays; the user's copy then shows the limits in force. The proofs go through
  the observation that each of the three branches of \<open>TRY_UPDATE\<close> stores the new limit in the hint.
\<close>

section \<open>One limit\<close>

definition lim64 :: "bool \<Rightarrow> i64 \<Rightarrow> i64 \<Rightarrow> i64" where
  "lim64 first asked cur = (if \<not> first \<and> sint asked \<le> sint cur then asked else cur)"

definition lim32 :: "bool \<Rightarrow> i32 \<Rightarrow> i32 \<Rightarrow> i32" where
  "lim32 first asked cur = (if \<not> first \<and> sint asked \<le> sint cur then asked else cur)"

definition limu :: "bool \<Rightarrow> u32 \<Rightarrow> u32 \<Rightarrow> u32" where
  "limu first asked cur = (if \<not> first \<and> asked \<le> cur then asked else cur)"

text \<open>The return code after a test.\<close>

definition flag :: "bool \<Rightarrow> i32 \<Rightarrow> i32" where "flag ok r = (if ok then r else ERR_CODE)"

lemma flag_simps [simp]: "flag b (flag a r) = flag (a \<and> b) r" "flag True r = r"
  by (simp_all add: flag_def)

lemma lim_le: "sint (lim64 first a c) \<le> sint c" "sint (lim32 first b d) \<le> sint d" "limu first b d \<le> d"
  by (simp_all add: lim64_def lim32_def limu_def)

lemma try_eq:
  "try_i64 first a c (m, r) =
     (let v = lim64 first (ld64 m a) c in (v, st64 a v m, flag (first \<or> sint (ld64 m a) \<le> sint c) r))"
  "try_i32 first a d (m, r) =
     (let v = lim32 first (ld32 m a) d in (v, st32 a v m, flag (first \<or> sint (ld32 m a) \<le> sint d) r))"
  "try_u32 first a d (m, r) =
     (let v = limu first (ld32 m a) d in (v, st32 a v m, flag (first \<or> ld32 m a \<le> d) r))"
  by (auto simp: try_i64_def try_i32_def try_u32_def try_update_def lim64_def lim32_def limu_def Let_def
      st64_ld64 st32_ld32 flag_def)

section \<open>One channel\<close>

definition new_channel :: "bool \<Rightarrow> memory \<Rightarrow> u64 \<Rightarrow> PreOpenedFileDesc \<Rightarrow> PreOpenedFileDesc" where
  "new_channel first m hc pc =
     pc\<lparr>max_size := lim64 first (ld64 m (hc + 48)) (max_size pc),
        max_get_size := lim64 first (ld64 m (hc + 64)) (max_get_size pc),
        max_gets := lim32 first (ld32 m (hc + 56)) (max_gets pc),
        max_put_size := lim64 first (ld64 m (hc + 72)) (max_put_size pc),
        max_puts := lim32 first (ld32 m (hc + 60)) (max_puts pc)\<rparr>"

definition channel_ok :: "bool \<Rightarrow> memory \<Rightarrow> u64 \<Rightarrow> PreOpenedFileDesc \<Rightarrow> bool" where
  "channel_ok first m hc pc \<longleftrightarrow> first \<or>
     sint (ld64 m (hc + 48)) \<le> sint (max_size pc) \<and> sint (ld64 m (hc + 64)) \<le> sint (max_get_size pc) \<and>
     sint (ld32 m (hc + 56)) \<le> sint (max_gets pc) \<and> sint (ld64 m (hc + 72)) \<le> sint (max_put_size pc) \<and>
     sint (ld32 m (hc + 60)) \<le> sint (max_puts pc)"

text \<open>The channel as the user reads it.\<close>

definition shows_channel :: "memory \<Rightarrow> u64 \<Rightarrow> nat \<Rightarrow> PreOpenedFileDesc \<Rightarrow> bool" where
  "shows_channel m hc ch pc \<longleftrightarrow>
     ld32 m hc = ch_self_size pc \<and> ld32 m (hc + 16) = ch_type pc \<and> ld32 m (hc + 20) = mounted pc \<and>
     ld32 m (hc + 24) = of_nat ch \<and> ld64 m (hc + 32) = fsize pc \<and> ld32 m (hc + 40) = buffer pc \<and>
     ld32 m (hc + 44) = bsize pc \<and> ld64 m (hc + 48) = max_size pc \<and> ld32 m (hc + 56) = max_gets pc \<and>
     ld32 m (hc + 60) = max_puts pc \<and> ld64 m (hc + 64) = max_get_size pc \<and>
     ld64 m (hc + 72) = max_put_size pc"

lemma channel_loads:
  assumes "\<And>x. unat (x - hc) < 104 \<Longrightarrow> m' x = m x" "o' \<le> 72"
  shows "ld64 m' (hc + o') = ld64 m (hc + o')" "ld32 m' (hc + o') = ld32 m (hc + o')"
proof -
  have "unat o' \<le> 72" using assms(2) by (simp add: word_le_nat_alt)
  then have "unat (o' + of_nat k) < 104" if "k < 8" for k
    using that by (subst unat_plus_nowrap) (simp_all add: unat_of_nat)
  then have "m' (hc + o' + of_nat k) = m (hc + o' + of_nat k)" if "k < 8" for k
    using that by (intro assms(1)) (simp add: add.assoc)
  then show "ld64 m' (hc + o') = ld64 m (hc + o')" "ld32 m' (hc + o') = ld32 m (hc + o')"
    unfolding ld64_eq ld32_eq by (auto intro!: le_value_cong arg_cong [where f = ucast])
qed

lemma channel_cong:
  assumes "\<And>x. unat (x - hc) < 104 \<Longrightarrow> m' x = m x"
  shows "shows_channel m' hc ch pc = shows_channel m hc ch pc"
    "new_channel first m' hc pc = new_channel first m hc pc"
    "channel_ok first m' hc pc = channel_ok first m hc pc"
proof -
  have l: "ld64 m' (hc + o') = ld64 m (hc + o')" "ld32 m' (hc + o') = ld32 m (hc + o')" if "o' \<le> 72" for o'
    using channel_loads [of hc m' m, OF _ that] assms by blast+
  show "shows_channel m' hc ch pc = shows_channel m hc ch pc"
    "new_channel first m' hc pc = new_channel first m hc pc"
    "channel_ok first m' hc pc = channel_ok first m hc pc"
    using l(2) [of 0] by (simp_all add: shows_channel_def new_channel_def channel_ok_def l)
qed

lemma setup_channel_spec:
  obtains m' where
    "setup_channel first hc ch pc (m, r) = (new_channel first m hc pc, m', flag (channel_ok first m hc pc) r)"
    "\<And>x. 104 \<le> unat (x - hc) \<Longrightarrow> m' x = m x"
    "shows_channel m' hc ch (new_channel first m hc pc)"
proof -
  let ?n = "new_channel first m hc pc"
  define m' where "m' = st32 (hc + 24) (of_nat ch) (st32 (hc + 20) (mounted pc) (st32 (hc + 16) (ch_type pc)
     (st64 (hc + 32) (fsize pc) (st32 (hc + 40) (buffer pc) (st32 (hc + 44) (bsize pc)
     (st32 (hc + 60) (max_puts ?n) (st64 (hc + 72) (max_put_size ?n) (st32 (hc + 56) (max_gets ?n)
     (st64 (hc + 64) (max_get_size ?n) (st64 (hc + 48) (max_size ?n) (st32 hc (ch_self_size pc) m)))))))))))"
  have "setup_channel first hc ch pc (m, r) = (?n, m', flag (channel_ok first m hc pc) r)"
    by (simp add: setup_channel_def try_eq Let_def ldst new_channel_def m'_def channel_ok_def disj_conj_distribL)
  moreover have "m' x = m x" if "104 \<le> unat (x - hc)" for x
    using outside_sub [OF that] that by (simp add: m'_def st_outside)
  moreover have "shows_channel m' hc ch ?n"
    unfolding shows_channel_def by (simp add: m'_def ldst) (simp add: new_channel_def)
  ultimately show ?thesis using that by blast
qed

section \<open>All channels\<close>

fun new_channels :: "bool \<Rightarrow> memory \<Rightarrow> u64 \<Rightarrow> nat \<Rightarrow> PreOpenedFileDesc list \<Rightarrow> PreOpenedFileDesc list" where
  "new_channels first m hint ch [] = []"
| "new_channels first m hint ch (pc # pcs) =
     new_channel first m (at_channel hint ch) pc # new_channels first m hint (Suc ch) pcs"

fun channels_ok :: "bool \<Rightarrow> memory \<Rightarrow> u64 \<Rightarrow> nat \<Rightarrow> PreOpenedFileDesc list \<Rightarrow> bool" where
  "channels_ok first m hint ch [] = True"
| "channels_ok first m hint ch (pc # pcs) =
     (channel_ok first m (at_channel hint ch) pc \<and> channels_ok first m hint (Suc ch) pcs)"

lemma length_new_channels [simp]: "length (new_channels first m hint ch pcs) = length pcs"
  by (induction pcs arbitrary: ch) simp_all

lemma nth_new_channels:
  "i < length pcs \<Longrightarrow> new_channels first m hint ch pcs ! i = new_channel first m (at_channel hint (ch + i)) (pcs ! i)"
  by (induction pcs arbitrary: ch i) (auto simp: nth_Cons split: nat.splits)

lemma in_channel:
  assumes "ch < 5"
  shows "unat (x - at_channel hint ch) < 104 \<longleftrightarrow>
    496 + 104 * ch \<le> unat (x - hint) \<and> unat (x - hint) < 496 + 104 * Suc ch"
proof -
  have c: "at_channel hint ch = hint + of_nat (496 + 104 * ch)" by (simp add: at_channel_def)
  have "unat (of_nat (496 + 104 * ch) :: u64) = 496 + 104 * ch"
    using assms by (simp only: unat_of_nat) simp
  moreover have "x - at_channel hint ch = (x - hint) - of_nat (496 + 104 * ch)" unfolding c by simp
  ultimately show ?thesis using assms unat_lt64 [of "x - hint"] by (simp only: unat_sub_if') auto
qed

definition agree_outside :: "u64 \<Rightarrow> nat \<Rightarrow> nat \<Rightarrow> memory \<Rightarrow> memory \<Rightarrow> bool" where
  "agree_outside a lo hi m m' \<longleftrightarrow> (\<forall>x. unat (x - a) < lo \<or> hi \<le> unat (x - a) \<longrightarrow> m' x = m x)"

lemma same_channels:
  assumes "agree_outside hint lo (496 + 104 * ch) m m'" "ch + length pcs \<le> 5"
  shows "new_channels first m' hint ch pcs = new_channels first m hint ch pcs \<and>
    channels_ok first m' hint ch pcs = channels_ok first m hint ch pcs"
  using assms
proof (induction pcs arbitrary: ch)
  case (Cons p ps)
  have "m' x = m x" if "unat (x - at_channel hint ch) < 104" for x
    using that Cons.prems in_channel [of ch x hint] by (auto simp: agree_outside_def)
  moreover have "agree_outside hint lo (496 + 104 * Suc ch) m m'"
    using Cons.prems(1) by (auto simp: agree_outside_def)
  ultimately show ?case using channel_cong(2,3) [of "at_channel hint ch" m' m] Cons by simp
qed simp

lemma setup_channels_spec:
  assumes "ch + length pcs \<le> 5" "setup_channels first hint ch pcs (m, r) = (cs, m', r')"
  shows "cs = new_channels first m hint ch pcs \<and>
    r' = flag (channels_ok first m hint ch pcs) r \<and>
    agree_outside hint (496 + 104 * ch) (496 + 104 * (ch + length pcs)) m m' \<and>
    (\<forall>i < length pcs. shows_channel m' (at_channel hint (ch + i)) (ch + i) (new_channels first m hint ch pcs ! i))"
  using assms
proof (induction pcs arbitrary: ch m r cs)
  case (Cons pc pcs)
  let ?hc = "at_channel hint ch"
  let ?r1 = "flag (channel_ok first m ?hc pc) r"
  obtain m1 where m1: "setup_channel first ?hc ch pc (m, r) = (new_channel first m ?hc pc, m1, ?r1)"
    "\<And>x. 104 \<le> unat (x - ?hc) \<Longrightarrow> m1 x = m x" "shows_channel m1 ?hc ch (new_channel first m ?hc pc)"
    using setup_channel_spec [of first ?hc ch pc m r] by blast
  obtain cs2 where rest: "setup_channels first hint (Suc ch) pcs (m1, ?r1) = (cs2, m', r')" "cs = new_channel first m ?hc pc # cs2"
    using Cons.prems(2) m1(1) by (auto split: prod.splits)
  note ih = Cons.IH [OF _ rest(1)]
  have ch: "ch < 5" "Suc ch + length pcs \<le> 5" using Cons.prems(1) by simp_all
  have eq1: "agree_outside hint (496 + 104 * ch) (496 + 104 * Suc ch) m m1"
    unfolding agree_outside_def using m1(2) in_channel [OF ch(1)] by (meson not_le)
  have same: "new_channels first m1 hint (Suc ch) pcs = new_channels first m hint (Suc ch) pcs"
    "channels_ok first m1 hint (Suc ch) pcs = channels_ok first m hint (Suc ch) pcs"
    using same_channels [OF eq1 ch(2)] by simp_all
  have eq2: "agree_outside hint (496 + 104 * Suc ch) (496 + 104 * (Suc ch + length pcs)) m1 m'"
    using ih ch(2) by blast
  have "m' x = m1 x" if "unat (x - ?hc) < 104" for x
    using that in_channel [OF ch(1), of x hint] eq2 by (simp add: agree_outside_def)
  then have "shows_channel m' ?hc ch (new_channel first m ?hc pc)"
    using m1(3) channel_cong(1) [of ?hc m' m1] by simp
  moreover have "agree_outside hint (496 + 104 * ch) (496 + 104 * (ch + length (pc # pcs))) m m'"
    using eq1 eq2 by (simp add: agree_outside_def)
  ultimately show ?case
    using ih ch(2) rest(2) by (auto simp: same nth_Cons split: nat.splits)
qed (simp add: agree_outside_def)

section \<open>The whole policy\<close>

definition new_policy :: "bool \<Rightarrow> memory \<Rightarrow> u64 \<Rightarrow> SetupList \<Rightarrow> SetupList" where
  "new_policy first m hint p =
     p\<lparr>channels := new_channels first m hint 0 (channels p),
       max_cpu := lim32 first (ld32 m (at_max_cpu hint)) (max_cpu p),
       max_mem := limu first (ld32 m (at_max_mem hint)) (max_mem p),
       max_syscalls := lim32 first (ld32 m (at_max_syscalls hint)) (max_syscalls p),
       max_setup_calls := lim32 first (ld32 m (at_max_setup_calls hint)) (max_setup_calls p)\<rparr>"

definition policy_ok :: "bool \<Rightarrow> memory \<Rightarrow> u64 \<Rightarrow> SetupList \<Rightarrow> bool" where
  "policy_ok first m hint p \<longleftrightarrow> channels_ok first m hint 0 (channels p) \<and> (first \<or>
     sint (ld32 m (at_max_cpu hint)) \<le> sint (max_cpu p) \<and> ld32 m (at_max_mem hint) \<le> max_mem p \<and>
     sint (ld32 m (at_max_syscalls hint)) \<le> sint (max_syscalls p) \<and>
     sint (ld32 m (at_max_setup_calls hint)) \<le> sint (max_setup_calls p))"

text \<open>The policy as the user reads it.\<close>

definition shows_policy :: "memory \<Rightarrow> u64 \<Rightarrow> SetupList \<Rightarrow> bool" where
  "shows_policy m hint p \<longleftrightarrow>
     (\<forall>i < length (channels p). shows_channel m (at_channel hint i) i (channels p ! i)) \<and>
     ld32 m (at_self_size hint) = self_size p \<and> ld32 m (at_heap_ptr hint) = heap_ptr p \<and>
     ld32 m (at_max_mem hint) = max_mem p \<and> ld32 m (at_max_cpu hint) = max_cpu p \<and>
     ld32 m (at_max_syscalls hint) = max_syscalls p \<and>
     ld32 m (at_max_setup_calls hint) = max_setup_calls p \<and>
     ld_bytes m (at_content_type hint) CONTENT_TYPE_LEN = map of_char (strncpy [] (content_type p) CONTENT_TYPE_LEN) \<and>
     ld_bytes m (at_timestamp hint) TIMESTAMP_LEN = map of_char (strncpy [] (timestamp p) TIMESTAMP_LEN) \<and>
     ld_bytes m (at_user_etag hint) USER_TAG_LEN = map of_char (strncpy [] (user_etag p) USER_TAG_LEN) \<and>
     ld_bytes m (at_x_object_meta_tag hint) X_OBJECT_META_TAG_LEN =
       map of_char (strncpy [] (x_object_meta_tag p) X_OBJECT_META_TAG_LEN)"

definition counted :: "SetupList \<Rightarrow> SetupList" where
  "counted p = p\<lparr>cnt_syscalls := cnt_syscalls p - 1, cnt_setup_calls := cnt_setup_calls p + 1\<rparr>"

lemmas at_defs = at_self_size_def at_heap_ptr_def at_max_mem_def at_max_cpu_def at_max_syscalls_def
  at_max_setup_calls_def at_content_type_def at_timestamp_def at_x_object_meta_tag_def at_user_etag_def
  at_syscallback_def

lemma agree_ld32:
  assumes "agree_outside a lo hi m m'" "unat o' + 4 \<le> lo" "lo \<le> 2 ^ 32"
  shows "ld32 m' (a + o') = ld32 m (a + o')"
proof -
  have "unat (o' + of_nat k) < lo" if "k < 4" for k
    using that assms by (subst unat_plus_nowrap) (simp_all add: unat_of_nat)
  then show ?thesis unfolding ld32_eq using assms(1)
    by (intro arg_cong [where f = ucast] le_value_cong) (simp add: agree_outside_def add.assoc)
qed

lemma length_strncpy [simp]: "length (strncpy [] s n) = n"
  by (simp add: strncpy_def)

lemma ld_bytes_same [ldst]: "length bs \<le> 2 ^ 64 \<Longrightarrow> ld_bytes (st_bytes a bs m) a (length bs) = bs"
  by (rule nth_equalityI) (simp_all add: ld_bytes_def st_bytes_def unat_of_nat)

lemma ld_bytes_other [ldst]:
  assumes "length bs \<le> unat (b - a)" "n \<le> unat (a - b)" "n \<le> 2 ^ 64"
  shows "ld_bytes (st_bytes a bs m) b n = ld_bytes m b n"
  using not_in_other [OF assms(1,2)] unat_of_nat_off [OF _ assms(3)]
  by (simp add: ld_bytes_def st_outside(3))

lemma ld_st_chars [ldst]:
  "n \<le> 2 ^ 64 \<Longrightarrow> ld_bytes (st_chars a s n m) a n = map of_char (strncpy [] s n)"
  "k \<le> unat (b - a) \<Longrightarrow> n \<le> unat (a - b) \<Longrightarrow> n \<le> 2 ^ 64 \<Longrightarrow> ld_bytes (st_chars a s k m) b n = ld_bytes m b n"
  "k \<le> unat (b - a) \<Longrightarrow> 4 \<le> a - b \<Longrightarrow> ld32 (st_chars a s k m) b = ld32 m b"
  using ld_bytes_same [of "map of_char (strncpy [] s n)" a m] ld_bytes_other [of "map of_char (strncpy [] s k)" b a n m]
  by (simp_all add: st_chars_def ld_st_bytes_other)

text \<open>The stores outside the channels.\<close>

definition st_head :: "u64 \<Rightarrow> SetupList \<Rightarrow> memory \<Rightarrow> memory" where
  "st_head hint p m =
     st_chars (at_x_object_meta_tag hint) (x_object_meta_tag p) X_OBJECT_META_TAG_LEN
     (st_chars (at_user_etag hint) (user_etag p) USER_TAG_LEN
     (st_chars (at_timestamp hint) (timestamp p) TIMESTAMP_LEN
     (st_chars (at_content_type hint) (content_type p) CONTENT_TYPE_LEN
     (st32 (at_heap_ptr hint) (heap_ptr p) (st32 (at_self_size hint) (self_size p)
     (st32 (at_max_setup_calls hint) (max_setup_calls p) (st32 (at_max_syscalls hint) (max_syscalls p)
     (st32 (at_max_mem hint) (max_mem p) (st32 (at_max_cpu hint) (max_cpu p) m)))))))))"

lemma st_head_frame: "agree_outside hint 0 492 m (st_head hint p m)"
proof -
  have "st_head hint p m x = m x" if "492 \<le> unat (x - hint)" for x
    using outside_sub [OF that] that
    by (simp add: st_head_def st_outside st_chars_def at_defs attr_len_defs)
  then show ?thesis by (simp add: agree_outside_def)
qed

lemma st_head_shows:
  assumes "\<And>i. i < length (channels p) \<Longrightarrow> i < 5 \<and> shows_channel m (at_channel hint i) i (channels p ! i)"
  shows "shows_policy (st_head hint p m) hint p"
proof -
  have "shows_channel (st_head hint p m) (at_channel hint i) i (channels p ! i)" if "i < length (channels p)" for i
  proof -
    have i: "i < 5" "shows_channel m (at_channel hint i) i (channels p ! i)" using assms [OF that] by simp_all
    have "st_head hint p m x = m x" if "unat (x - at_channel hint i) < 104" for x
      using that in_channel [OF i(1)] st_head_frame [of hint m p] by (simp add: agree_outside_def)
    with i(2) channel_cong(1) show ?thesis by metis
  qed
  then show ?thesis
    by (simp add: shows_policy_def) (simp add: st_head_def at_defs attr_len_defs ldst)
qed

lemma TrapUserSetup_refused:
  assumes "policy_of (manifest w) = Inr p0" "NaClUserToSys (app w) hu = Inr hint"
    "sint (max_setup_calls p0) < sint (cnt_setup_calls p0 + 1)"
  shows "TrapUserSetupHandle w hu = Inr (- OUT_OF_LIMITS, w\<lparr>manifest := set_policy (counted p0) (manifest w)\<rparr>)"
  using assms by (simp add: TrapUserSetupHandle_def counted_def Let_def)

lemma TrapUserSetup_eq:
  assumes pol: "policy_of (manifest w) = Inr p0" "length (channels p0) = 5"
    and hint: "NaClUserToSys (app w) hu = Inr hint"
    and lim: "sint (cnt_setup_calls p0 + 1) \<le> sint (max_setup_calls p0)"
    and defs: "first = (cnt_setup_calls p0 + 1 = 1)" "p = new_policy first (mem w) hint (counted p0)"
  obtains m' where
    "TrapUserSetupHandle w hu =
       rbind (UpdateSyscallback (w\<lparr>manifest := set_policy p (manifest w), mem := m'\<rparr>) hint) (\<lambda>(r, w').
         Inr (if r = ERR_CODE then ERR_CODE else flag (policy_ok first (mem w) hint (counted p0)) OK_CODE, w'))"
    "agree_outside hint 0 1016 (mem w) m'" "shows_policy m' hint p"
    "ld32 m' (at_syscallback hint) = ld32 (mem w) (at_syscallback hint)"
proof -
  let ?m = "mem w"
  obtain cs m1 r1 where sc: "setup_channels first hint 0 (channels p0) (?m, OK_CODE) = (cs, m1, r1)"
    by (cases "setup_channels first hint 0 (channels p0) (?m, OK_CODE)") auto
  note sp = setup_channels_spec [OF _ sc, unfolded pol(2), simplified]
  have m1: "agree_outside hint 496 1016 ?m m1" using sp by simp
  have ld: "ld32 m1 (hint + o') = ld32 ?m (hint + o')" if "unat o' + 4 \<le> 496" for o'
    using agree_ld32 [OF m1 that] by simp
  have f0: "cnt_setup_calls p0 = 0 \<longleftrightarrow> first" using defs(1) by simp
  have ok: "policy_ok first ?m hint (counted p0) \<longleftrightarrow> (((channels_ok first ?m hint 0 (channels p0) \<and>
      (first \<or> sint (ld32 ?m (at_max_cpu hint)) \<le> sint (max_cpu p0))) \<and>
      (first \<or> ld32 ?m (at_max_mem hint) \<le> max_mem p0)) \<and>
      (first \<or> sint (ld32 ?m (at_max_syscalls hint)) \<le> sint (max_syscalls p0))) \<and>
      (first \<or> sint (ld32 ?m (at_max_setup_calls hint)) \<le> sint (max_setup_calls p0))"
    by (auto simp: policy_ok_def counted_def)
  have sm: "set_policy q (set_policy q' mf) = set_policy q mf" for q q' mf
    by (cases mf) (simp_all add: set_policy_def)
  have "TrapUserSetupHandle w hu =
       rbind (UpdateSyscallback (w\<lparr>manifest := set_policy p (manifest w), mem := st_head hint p m1\<rparr>) hint) (\<lambda>(r, w').
         Inr (if r = ERR_CODE then ERR_CODE else flag (policy_ok first ?m hint (counted p0)) OK_CODE, w'))"
    unfolding ok using pol hint lim sc sp f0
    by (simp cong: if_cong add: TrapUserSetupHandle_def Let_def CHANNELS_COUNT_def NetworkOutputChannel_def counted_def
        try_eq ldst ld at_defs defs(2) new_policy_def st_head_def sm)
  moreover have "agree_outside hint 0 1016 ?m (st_head hint p m1)"
    using m1 st_head_frame [of hint m1 p] by (simp add: agree_outside_def)
  moreover have "shows_policy (st_head hint p m1) hint p"
    using sp pol(2) by (intro st_head_shows) (simp add: defs new_policy_def counted_def)
  moreover have "ld32 (st_head hint p m1) (at_syscallback hint) = ld32 ?m (at_syscallback hint)"
    by (simp add: st_head_def at_defs attr_len_defs ldst ld)
  ultimately show ?thesis using that by blast
qed

end
