(* ===== verification/TrapSafety.thy ===== *)
theory TrapSafety
  imports TrapSetup
begin

text \<open>
  What one trap call does to the policy, the memory and the syscallback, and what holds after any
  sequence of calls, whatever the user program stores in its memory in between.
\<close>

section \<open>Reading and writing channels\<close>

lemma policy_of_set [simp]: "policy_of mf = Inr p \<Longrightarrow> policy_of (set_policy q mf) = Inr q"
  by (auto simp: policy_of_def set_policy_def split: option.splits)

lemma set_policy_set [simp]: "set_policy q (set_policy p mf) = set_policy q mf"
  by (cases mf) (simp_all add: set_policy_def)

lemma put_channel_eq:
  "policy_of (manifest w) = Inr p \<Longrightarrow>
     put_channel ch fd w = w\<lparr>manifest := set_policy (p\<lparr>channels := (channels p)[ch := fd]\<rparr>) (manifest w)\<rparr>"
  by (auto simp: put_channel_def policy_of_def set_policy_def split: option.splits)

lemma channel_of_eq:
  "policy_of (manifest w) = Inr p \<Longrightarrow> ch < length (channels p) \<Longrightarrow> channel_of w ch = Inr (channels p ! ch)"
  by (simp add: channel_of_def)

text \<open>The size that is granted: what is left of the limit, or the size asked for.\<close>

definition granted :: "i64 \<Rightarrow> i32 \<Rightarrow> i32" where
  "granted tail sz = (if sint tail < sint sz then ucast tail else sz)"

definition get_charged :: "PreOpenedFileDesc \<Rightarrow> i32 \<Rightarrow> PreOpenedFileDesc" where
  "get_charged fd sz = fd\<lparr>cnt_gets := cnt_gets fd + 1, cnt_get_size := cnt_get_size fd + scast sz\<rparr>"

definition put_charged :: "PreOpenedFileDesc \<Rightarrow> i32 \<Rightarrow> PreOpenedFileDesc" where
  "put_charged fd sz = fd\<lparr>cnt_puts := cnt_puts fd + 1, cnt_put_size := cnt_put_size fd + scast sz\<rparr>"

lemma TrapRead_cases:
  assumes "TrapReadHandle h w desc buf sz off = Inr (r, w')" "policy_of (manifest w) = Inr p" "length (channels p) = 5"
  obtains "w' = w"
  | fd s m' where "unat desc < 2" "fd = channels p ! unat desc" "mounted fd = LOADED"
      "sint (cnt_gets fd) < sint (max_gets fd)" "s = granted (max_get_size fd - cnt_get_size fd) sz" "1 \<le> sint s"
      "w' = w\<lparr>manifest := set_policy (p\<lparr>channels := (channels p)[unat desc := get_charged fd s]\<rparr>) (manifest w), mem := m'\<rparr>"
      "os_pread h (handle fd) (scast s) off = None \<and> m' = mem w \<or>
       (\<exists>bs. os_pread h (handle fd) (scast s) off = Some bs \<and> m' = st_bytes (buf + mem_start (app w)) bs (mem w))"
proof -
  let ?fd = "channels p ! unat desc"
  let ?s = "granted (max_get_size ?fd - cnt_get_size ?fd) sz"
  obtain sb where sb: "NaClUserToSys (app w) buf = Inr sb"
    using assms(1) by (cases "NaClUserToSys (app w) buf") (simp_all add: TrapReadHandle_def)
  then have sb': "sb = buf + mem_start (app w)" by (simp add: NaClUserToSys_def split: if_splits)
  show thesis
  proof (cases "w' = w")
    case False
    have d: "unat desc < 2" using assms(1) sb False
      by (auto simp: TrapReadHandle_def channel_defs split: if_splits)
    then have c: "channel_of w (unat desc) = Inr ?fd" using channel_of_eq [OF assms(2)] assms(3) by simp
    have g: "mounted ?fd = LOADED" "sint (cnt_gets ?fd) < sint (max_gets ?fd)" "1 \<le> sint ?s"
      using assms(1) sb c False
      by (auto simp: TrapReadHandle_def Let_def granted_def split: if_splits)
    have "Inr (r, w') = (case os_pread h (handle ?fd) (scast ?s) off of
        None \<Rightarrow> Inr (- 1, put_channel (unat desc) (get_charged ?fd ?s) w)
      | Some bs \<Rightarrow> Inr (of_nat (length bs), (put_channel (unat desc) (get_charged ?fd ?s) w)\<lparr>mem := st_bytes sb bs (mem w)\<rparr>))"
      using assms(1) sb c False
      by (auto simp: TrapReadHandle_def Let_def granted_def get_charged_def put_channel_eq [OF assms(2)] split: if_splits option.splits)
    then show ?thesis using that(2) [OF d refl g(1,2) refl g(3)] sb'
      by (auto simp: put_channel_eq [OF assms(2)] split: option.splits)
  qed (rule that(1))
qed

lemma TrapWrite_cases:
  assumes "TrapWriteHandle h w desc buf sz off = Inr (r, w')" "policy_of (manifest w) = Inr p" "length (channels p) = 5"
  obtains "w' = w"
  | fd s wr where "unat desc = 1" "fd = channels p ! 1" "mounted fd = LOADED"
      "sint (cnt_puts fd) < sint (max_puts fd)" "s = granted (max_put_size fd - cnt_put_size fd) sz" "1 \<le> sint s"
      "w' = w\<lparr>manifest := set_policy (p\<lparr>channels := (channels p)[1 := put_charged fd s]\<rparr>) (manifest w),
              written := written w @ wr\<rparr>"
proof -
  let ?fd = "channels p ! 1"
  let ?s = "granted (max_put_size ?fd - cnt_put_size ?fd) sz"
  obtain sb where sb: "NaClUserToSys (app w) buf = Inr sb"
    using assms(1) by (cases "NaClUserToSys (app w) buf") (simp_all add: TrapWriteHandle_def)
  show thesis
  proof (cases "w' = w")
    case False
    have d: "unat desc = 1" using assms(1) sb False
      by (auto simp: TrapWriteHandle_def channel_defs split: if_splits)
    then have c: "channel_of w (unat desc) = Inr ?fd" using channel_of_eq [OF assms(2)] assms(3) by simp
    have g: "mounted ?fd = LOADED" "sint (cnt_puts ?fd) < sint (max_puts ?fd)" "1 \<le> sint ?s"
      using assms(1) sb c False
      by (auto simp: TrapWriteHandle_def Let_def granted_def split: if_splits)
    let ?w = "put_channel 1 (put_charged ?fd ?s) w"
    let ?bs = "ld_bytes (mem ?w) sb (unat ?s)"
    have "Inr (r, w') = (case os_pwrite h (handle ?fd) ?bs off of
        None \<Rightarrow> Inr (- 1, ?w)
      | Some n \<Rightarrow> Inr (of_nat n, ?w\<lparr>written := written ?w @ [(handle ?fd, off, take n ?bs)]\<rparr>))"
      using assms(1) sb c d False
      by (auto simp: TrapWriteHandle_def Let_def granted_def put_charged_def put_channel_eq [OF assms(2)] split: if_splits option.splits)
    then show ?thesis using that(2) [OF d refl g(1,2) refl g(3), of "[]"] that(2) [OF d refl g(1,2) refl g(3)]
      by (auto simp: put_channel_eq [OF assms(2)] split: option.splits)
  qed (rule that(1))
qed

section \<open>Budgets\<close>

text \<open>
  Reading and writing are metered the same way: a number of calls and a number of bytes, each with a
  limit, and a charge for a granted call. Limits may be lowered at any time.
\<close>

lemma sint_add_small:
  "- (2 ^ (LENGTH('a) - 1)) \<le> sint a + sint b \<Longrightarrow> sint a + sint b < 2 ^ (LENGTH('a) - 1) \<Longrightarrow>
     sint (a + b :: 'a::len word) = sint a + sint b"
  by (simp add: sint_word_ariths(1) signed_take_bit_int_eq_self)

lemma sint_diff_small:
  "- (2 ^ (LENGTH('a) - 1)) \<le> sint a - sint b \<Longrightarrow> sint a - sint b < 2 ^ (LENGTH('a) - 1) \<Longrightarrow>
     sint (a - b :: 'a::len word) = sint a - sint b"
  by (simp add: sint_word_ariths(2) signed_take_bit_int_eq_self)

lemma sint_ucast_small:
  fixes t :: i64
  assumes "- (2 ^ 31) \<le> sint t" "sint t < 2 ^ 31"
  shows "sint (ucast t :: i32) = sint t"
proof -
  have "ucast t = (word_of_int (sint t) :: i32)" 
    by (rule bit_eqI) (simp only: bit_ucast_iff bit_word_of_int_iff bit_sint_iff, auto)
  then have "sint (ucast t :: i32) = signed_take_bit 31 (sint t)" by (simp only: sint_sbintrunc') simp
  then show ?thesis using assms by (simp add: signed_take_bit_int_eq_self)
qed

locale metered =
  fixes calls lim :: "'c \<Rightarrow> i32" and bytes blim :: "'c \<Rightarrow> i64" and charge :: "'c \<Rightarrow> i32 \<Rightarrow> 'c"
  assumes charge_laws: "calls (charge c s) = calls c + 1" "bytes (charge c s) = bytes c + scast s"
      "lim (charge c s) = lim c" "blim (charge c s) = blim c"
begin

definition within :: "'c \<Rightarrow> 'c \<Rightarrow> bool" where
  "within c0 c \<longleftrightarrow> sint (lim c) \<le> sint (lim c0) \<and> sint (blim c) \<le> sint (blim c0) \<and>
     sint (calls c) \<le> max (sint (calls c0)) (sint (lim c0)) \<and>
     (0 \<le> sint (blim c) \<and> sint (blim c0) < 2 ^ 31 \<longrightarrow> 0 \<le> sint (bytes c) \<and> sint (bytes c) \<le> sint (blim c0))"

lemma start_within: "bytes c = 0 \<Longrightarrow> within c c"
  by (simp add: within_def)

lemma lower_within:
  assumes "within c0 c" "calls c' = calls c" "bytes c' = bytes c"
    "sint (lim c') \<le> sint (lim c)" "sint (blim c') \<le> sint (blim c)"
  shows "within c0 c'"
  using assms by (auto simp: within_def)

lemma granted_le:
  fixes b l :: i64
  assumes "0 \<le> sint b" "sint b < 2 ^ 31" "0 \<le> sint l" "sint l < 2 ^ 31" "1 \<le> sint (granted (l - b) sz)"
  shows "sint b + sint (granted (l - b) sz) \<le> sint l"
proof -
  have d: "sint (l - b) = sint l - sint b" using assms by (intro sint_diff_small) simp_all
  show ?thesis
  proof (cases "sint (l - b) < sint sz")
    case True
    have "sint (ucast (l - b) :: i32) = sint (l - b)" using assms d by (intro sint_ucast_small) simp_all
    with True d show ?thesis by (simp add: granted_def)
  next
    case False
    with d show ?thesis by (simp add: granted_def)
  qed
qed

lemma charge_within:
  assumes w: "within c0 c" and c: "sint (calls c) < sint (lim c)"
    and s: "s = granted (blim c - bytes c) sz" "1 \<le> sint s"
  shows "within c0 (charge c s)"
proof -
  have "sint (calls c + 1) = sint (calls c) + 1"
    using c sint_less [of "lim c"] sint_greater_eq [of "calls c"] by (subst sint_add_small) simp_all
  moreover have "sint (bytes c + scast s) = sint (bytes c) + sint s \<and> sint (bytes c) + sint s \<le> sint (blim c)"
    if "0 \<le> sint (blim c)" "sint (blim c0) < 2 ^ 31"
  proof -
    have b: "0 \<le> sint (bytes c)" "sint (bytes c) < 2 ^ 31" "sint (blim c) < 2 ^ 31" using that w by (auto simp: within_def)
    have le: "sint (bytes c) + sint s \<le> sint (blim c)" using granted_le [OF b(1,2) that(1) b(3)] s by simp
    have "sint (scast s :: i64) = sint s" using sint_less [of s] sint_greater_eq [of s] by (simp add: signed_scast_eq signed_take_bit_int_eq_self)
    then show ?thesis using b s(2) le by (subst sint_add_small) simp_all
  qed
  ultimately show ?thesis using w c s(2) by (auto simp: within_def charge_laws)
qed

end

interpretation getm: metered cnt_gets max_gets cnt_get_size max_get_size get_charged
  by unfold_locales (simp_all add: get_charged_def)

interpretation putm: metered cnt_puts max_puts cnt_put_size max_put_size put_charged
  by unfold_locales (simp_all add: put_charged_def)

section \<open>The policy over time\<close>

text \<open>
  \<open>channel_within c0 c\<close>: the channel \<open>c\<close> is what may become of the channel \<open>c0\<close>: the same file, limits that
  only went down, and counters within the limits of \<open>c0\<close>; the byte counters as long as the limit
  was not made negative.
\<close>

definition channel_within :: "PreOpenedFileDesc \<Rightarrow> PreOpenedFileDesc \<Rightarrow> bool" where
  "channel_within c0 c \<longleftrightarrow>
     ch_self_size c = ch_self_size c0 \<and> ch_name c = ch_name c0 \<and> ch_type c = ch_type c0 \<and>
     mounted c = mounted c0 \<and> handle c = handle c0 \<and> fsize c = fsize c0 \<and> buffer c = buffer c0 \<and>
     bsize c = bsize c0 \<and> sint (max_size c) \<le> sint (max_size c0) \<and>
     sint (max_gets c) \<le> sint (max_gets c0) \<and> sint (max_get_size c) \<le> sint (max_get_size c0) \<and>
     sint (cnt_gets c) \<le> max (sint (cnt_gets c0)) (sint (max_gets c0)) \<and>
     (0 \<le> sint (max_get_size c) \<and> sint (max_get_size c0) < 2 ^ 31 \<longrightarrow>
        0 \<le> sint (cnt_get_size c) \<and> sint (cnt_get_size c) \<le> sint (max_get_size c0)) \<and>
     sint (max_puts c) \<le> sint (max_puts c0) \<and> sint (max_put_size c) \<le> sint (max_put_size c0) \<and>
     sint (cnt_puts c) \<le> max (sint (cnt_puts c0)) (sint (max_puts c0)) \<and>
     (0 \<le> sint (max_put_size c) \<and> sint (max_put_size c0) < 2 ^ 31 \<longrightarrow>
        0 \<le> sint (cnt_put_size c) \<and> sint (cnt_put_size c) \<le> sint (max_put_size c0))"

definition policy_within :: "SetupList \<Rightarrow> SetupList \<Rightarrow> bool" where
  "policy_within p0 p \<longleftrightarrow>
     length (channels p) = 5 \<and> (\<forall>i < 5. channel_within (channels p0 ! i) (channels p ! i)) \<and>
     sint (max_cpu p) \<le> sint (max_cpu p0) \<and> max_mem p \<le> max_mem p0 \<and>
     sint (max_syscalls p) \<le> sint (max_syscalls p0) \<and>
     sint (max_setup_calls p) \<le> sint (max_setup_calls p0) \<and>
     self_size p = self_size p0 \<and> heap_ptr p = heap_ptr p0 \<and> content_type p = content_type p0 \<and>
     timestamp p = timestamp p0 \<and> x_object_meta_tag p = x_object_meta_tag p0 \<and> user_etag p = user_etag p0"

lemma channel_within_metered:
  "channel_within c0 c \<longleftrightarrow>
     ch_self_size c = ch_self_size c0 \<and> ch_name c = ch_name c0 \<and> ch_type c = ch_type c0 \<and>
     mounted c = mounted c0 \<and> handle c = handle c0 \<and> fsize c = fsize c0 \<and> buffer c = buffer c0 \<and>
     bsize c = bsize c0 \<and> sint (max_size c) \<le> sint (max_size c0) \<and> getm.within c0 c \<and> putm.within c0 c"
  by (auto simp: channel_within_def getm.within_def putm.within_def)

lemma channel_within_get:
  assumes "channel_within c0 c" "sint (cnt_gets c) < sint (max_gets c)"
    "s = granted (max_get_size c - cnt_get_size c) sz" "1 \<le> sint s"
  shows "channel_within c0 (get_charged c s)"
proof -
  have "getm.within c0 (get_charged c s)"
    using getm.charge_within [OF _ assms(2-4)] assms(1) by (simp add: channel_within_metered)
  moreover have "putm.within c0 (get_charged c s)"
    using putm.lower_within [of c0 c "get_charged c s"] assms(1) by (simp add: channel_within_metered get_charged_def)
  ultimately show ?thesis using assms(1) by (simp add: channel_within_metered get_charged_def)
qed

lemma channel_within_put:
  assumes "channel_within c0 c" "sint (cnt_puts c) < sint (max_puts c)"
    "s = granted (max_put_size c - cnt_put_size c) sz" "1 \<le> sint s"
  shows "channel_within c0 (put_charged c s)"
proof -
  have "putm.within c0 (put_charged c s)"
    using putm.charge_within [OF _ assms(2-4)] assms(1) by (simp add: channel_within_metered)
  moreover have "getm.within c0 (put_charged c s)"
    using getm.lower_within [of c0 c "put_charged c s"] assms(1) by (simp add: channel_within_metered put_charged_def)
  ultimately show ?thesis using assms(1) by (simp add: channel_within_metered put_charged_def)
qed

lemma channel_within_new:
  assumes "channel_within c0 c"
  shows "channel_within c0 (new_channel first m hc c)"
proof -
  have "getm.within c0 (new_channel first m hc c)" "putm.within c0 (new_channel first m hc c)"
    using getm.lower_within [of c0 c "new_channel first m hc c"] putm.lower_within [of c0 c "new_channel first m hc c"] assms
    by (simp_all add: channel_within_metered new_channel_def lim_le)
  moreover have "sint (max_size (new_channel first m hc c)) \<le> sint (max_size c0)"
    using assms lim_le(1) [of first "ld64 m (hc + 48)" "max_size c"]
    by (simp add: channel_within_metered new_channel_def)
  ultimately show ?thesis using assms by (simp add: channel_within_metered) (simp add: new_channel_def)
qed

lemma policy_within_channel:
  assumes "policy_within p0 p" "i < 5" "channel_within (channels p0 ! i) c"
  shows "policy_within p0 (p\<lparr>channels := (channels p)[i := c]\<rparr>)"
  using assms by (simp add: policy_within_def nth_list_update_if)

lemma policy_within_new:
  assumes "policy_within p0 p"
  shows "policy_within p0 (new_policy first m hint (counted p))"
  using assms lim_le(2) [of first "ld32 m (at_max_cpu hint)" "max_cpu p"]
    lim_le(2) [of first "ld32 m (at_max_syscalls hint)" "max_syscalls p"]
    lim_le(2) [of first "ld32 m (at_max_setup_calls hint)" "max_setup_calls p"]
    lim_le(3) [of first "ld32 m (at_max_mem hint)" "max_mem p"]
  by (auto simp add: policy_within_def new_policy_def counted_def nth_new_channels channel_within_new)

section \<open>One call\<close>

definition text_address :: "NaClApp \<Rightarrow> i32 \<Rightarrow> bool" where
  "text_address nap cb \<longleftrightarrow> cb AND 31 = 0 \<and>
     (dynamic_text_start nap \<le> scast cb \<and> scast cb < dynamic_text_end nap \<or>
      sint NACL_TRAMPOLINE_END \<le> sint cb \<and> scast cb < static_text_end nap)"

lemma UpdateSyscallback_eq:
  assumes "policy_of (manifest w) = Inr p" "cb = ld32 (mem w) (at_syscallback hint)"
  shows "UpdateSyscallback w hint =
    (if cb \<noteq> 0 \<and> text_address (app w) cb
     then rbind (NaClUserToSys (app w) (scast cb)) (\<lambda>g.
       Inr (OK_CODE, w\<lparr>manifest := set_policy (p\<lparr>syscallback := cb\<rparr>) (manifest w), g_syscallback := g\<rparr>))
     else Inr (if cb = 0 then OK_CODE else ERR_CODE,
       w\<lparr>g_syscallback := 0, manifest := set_policy (p\<lparr>syscallback := 0\<rparr>) (manifest w)\<rparr>))"
  using assms
  by (auto simp add: UpdateSyscallback_def Let_def OP_ALIGNEMENT_def OK_CODE_def ERR_CODE_def text_address_def)

text \<open>What a call can do: nothing to the policy, a charge, or an exchange of limits.\<close>

lemma TrapHandler_cases:
  assumes "TrapHandler h w args = Inr (out, w')" "policy_of (manifest w) = Inr p"
  obtains "w' = w"
  | code where "w' = w\<lparr>app := (app w)\<lparr>exit_status := code\<rparr>\<rparr>"
  | hu r where "TrapUserSetupHandle w hu = Inr (r, w')"
  | d b s off r where "TrapReadHandle h w d b s off = Inr (r, w')"
  | d b s off r where "TrapWriteHandle h w d b s off = Inr (r, w')"
proof -
  have m: "manifest w \<noteq> None" using assms(2) by (auto simp: policy_of_def split: option.splits)
  then obtain sa where sa: "NaClUserToSys (app w) (ucast args) = Inr sa"
    using assms(1) by (auto simp: TrapHandler_def rbind_eq_Inr)
  define arg where "arg i = ld64 (mem w) (sa + 8 * i)" for i
  note T = assms(1) [unfolded TrapHandler_def Let_def sa rbind_simps, folded arg_def] m
  consider "arg 0 = TrapExit" | "arg 0 = TrapUserSetup" | "arg 0 = TrapRead" | "arg 0 = TrapWrite"
    | "arg 0 \<notin> {TrapExit, TrapUserSetup, TrapRead, TrapWrite}" by blast
  then show thesis
  proof cases
    case 1
    then show ?thesis using T that(2) by (auto simp: TrapExitHandle_def longjmp_def)
  next
    case 2
    then show ?thesis using T that(3) by (auto simp: rbind_eq_Inr trap_call_defs)
  next
    case 3
    then show ?thesis using T that(4) by (auto simp: rbind_eq_Inr trap_call_defs)
  next
    case 4
    then show ?thesis using T that(5) by (auto simp: rbind_eq_Inr trap_call_defs)
  next
    case 5
    then show ?thesis using T that(1) by simp
  qed
qed

text \<open>The exchange of limits.\<close>

lemma TrapUserSetup_cases:
  assumes "TrapUserSetupHandle w hu = Inr (r, w')" "policy_of (manifest w) = Inr p" "length (channels p) = 5"
  obtains "w' = w\<lparr>manifest := set_policy (counted p) (manifest w)\<rparr>"
  | first hint q m' cb g where "hint = hu + mem_start (app w)" "NaClUserToSys (app w) hu = Inr hint"
      "q = new_policy first (mem w) hint (counted p)"
      "agree_outside hint 0 1016 (mem w) m'"
      "manifest w' = set_policy (q\<lparr>syscallback := cb\<rparr>) (manifest w)" "mem w' = m'" "g_syscallback w' = g" "app w' = app w"
      "cb = 0 \<and> g = 0 \<or> text_address (app w) cb \<and> NaClUserToSys (app w) (scast cb) = Inr g"
      "hostlog w' = hostlog w" "user_ctx w' = user_ctx w"
proof -
  obtain hint where h: "NaClUserToSys (app w) hu = Inr hint"
    using assms(1,2) by (auto simp: TrapUserSetupHandle_def rbind_eq_Inr)
  then have h': "hint = hu + mem_start (app w)" by (simp add: NaClUserToSys_def split: if_splits)
  show thesis
  proof (cases "sint (max_setup_calls p) < sint (cnt_setup_calls p + 1)")
    case True
    then show ?thesis using TrapUserSetup_refused [OF assms(2) h True] assms(1) that(1) by simp
  next
    case False
    define first where "first = (cnt_setup_calls p + 1 = 1)"
    define q where "q = new_policy first (mem w) hint (counted p)"
    obtain m' where m': "TrapUserSetupHandle w hu =
         rbind (UpdateSyscallback (w\<lparr>manifest := set_policy q (manifest w), mem := m'\<rparr>) hint) (\<lambda>(r, w').
           Inr (if r = ERR_CODE then ERR_CODE else flag (policy_ok first (mem w) hint (counted p)) OK_CODE, w'))"
      "agree_outside hint 0 1016 (mem w) m'"
      using TrapUserSetup_eq [OF assms(2,3) h _ first_def q_def] False by (metis not_less)
    let ?w = "w\<lparr>manifest := set_policy q (manifest w), mem := m'\<rparr>"
    obtain r' where u: "UpdateSyscallback ?w hint = Inr (r', w')"
      using assms(1) m'(1) by (auto simp: rbind_eq_Inr)
    have "policy_of (manifest ?w) = Inr q" using assms(2) by simp
    note uc = UpdateSyscallback_eq [OF this refl, of hint]
    obtain cb g where "manifest w' = set_policy (q\<lparr>syscallback := cb\<rparr>) (manifest w)" "mem w' = m'"
      "g_syscallback w' = g" "app w' = app w"
      "cb = 0 \<and> g = 0 \<or> text_address (app w) cb \<and> NaClUserToSys (app w) (scast cb) = Inr g"
      "hostlog w' = hostlog w" "user_ctx w' = user_ctx w"
      using u uc by (auto simp: rbind_eq_Inr split: if_splits)
    then show ?thesis using that(2) [OF h' h q_def m'(2)] by blast
  qed
qed

definition callback_ok :: "NaClApp \<Rightarrow> i32 \<Rightarrow> i64 \<Rightarrow> bool" where
  "callback_ok nap cb g \<longleftrightarrow>
     cb = 0 \<and> g = 0 \<or> text_address nap cb \<and> NaClUserToSys nap (scast cb) = Inr g"

definition trap_inv :: "SetupList \<Rightarrow> world \<Rightarrow> bool" where
  "trap_inv p0 w \<longleftrightarrow> (\<exists>p. policy_of (manifest w) = Inr p \<and> policy_within p0 p \<and>
     callback_ok (app w) (syscallback p) (g_syscallback w))"

lemma callback_ok_exit [simp]: "callback_ok (nap\<lparr>exit_status := c\<rparr>) cb g = callback_ok nap cb g"
  by (simp add: callback_ok_def text_address_def NaClUserToSys_def)

lemma policy_within_other [simp]:
  "policy_within p0 (p\<lparr>syscallback := cb\<rparr>) = policy_within p0 p"
  "policy_within p0 (counted p) = policy_within p0 p"
  by (simp_all add: policy_within_def counted_def)

lemma TrapHandler_inv:
  assumes "trap_inv p0 w" "TrapHandler h w args = Inr (out, w')"
  shows "trap_inv p0 w'"
proof -
  obtain p where p: "policy_of (manifest w) = Inr p" "policy_within p0 p"
    and cb: "callback_ok (app w) (syscallback p) (g_syscallback w)"
    using assms(1) by (auto simp: trap_inv_def)
  have len: "length (channels p) = 5" using p(2) by (simp add: policy_within_def)
  have within: "channel_within (channels p0 ! i) (channels p ! i)" if "i < 5" for i
    using p(2) that by (simp add: policy_within_def)
  from assms(2) p(1) show ?thesis
  proof (cases rule: TrapHandler_cases)
    case 1
    then show ?thesis using assms(1) by simp
  next
    case (2 code)
    then show ?thesis using p cb by (simp add: trap_inv_def)
  next
    case (3 hu r)
    from 3 p(1) len show ?thesis
    proof (cases rule: TrapUserSetup_cases)
      case 1
      then show ?thesis using p cb by (simp add: trap_inv_def counted_def) (simp flip: counted_def)
    next
      case (2 first hint q m' cb g)
      then show ?thesis using p policy_within_new [OF p(2)] by (simp add: trap_inv_def callback_ok_def)
    qed
  next
    case (4 d b s off r)
    from 4 p(1) len show ?thesis
    proof (cases rule: TrapRead_cases)
      case (2 fd s m')
      then have "channel_within (channels p0 ! unat d) (get_charged fd s)"
        using channel_within_get within by simp
      then have "policy_within p0 (p\<lparr>channels := (channels p)[unat d := get_charged fd s]\<rparr>)"
        using 2(1) by (intro policy_within_channel p) simp_all
      then show ?thesis using 2 p cb by (simp add: trap_inv_def)
    qed (use assms in simp)
  next
    case (5 d b s off r)
    from 5 p(1) len show ?thesis
    proof (cases rule: TrapWrite_cases)
      case (2 fd s wr)
      then have "channel_within (channels p0 ! 1) (put_charged fd s)"
        using channel_within_put within by simp
      then have "policy_within p0 (p\<lparr>channels := (channels p)[1 := put_charged fd s]\<rparr>)"
        by (intro policy_within_channel p) simp_all
      then show ?thesis using 2 p cb by (simp add: trap_inv_def)
    qed (use assms in simp)
  qed
qed

lemma in_sandbox:
  assumes "NaClUserToSys nap u = Inr a" "addr_bits nap = 32"
  shows "a = u + mem_start nap" "unat u < 2 ^ 32"
proof -
  show "a = u + mem_start nap" using assms by (simp add: NaClUserToSys_def split: if_splits)
  have "u < push_bit 32 1" using assms by (simp add: NaClUserToSys_def not_le split: if_splits)
  then show "unat u < 2 ^ 32" by (simp add: word_less_nat_alt)
qed

lemma outside_guard:
  fixes x base u :: u64
  assumes "2 ^ 32 + 2 ^ 31 \<le> unat (x - base)" "unat u < 2 ^ 32" "n \<le> 2 ^ 31"
  shows "n \<le> unat (x - (u + base))"
  using outside_sub [OF assms(1), of u n] assms(2,3) by (simp add: add.commute)

lemma unat_scast_pos:
  assumes "0 \<le> sint (s :: i32)"
  shows "unat (scast s :: u64) = nat (sint s)"
proof -
  have "unat (word_of_int (sint s) :: u64) = nat (take_bit 64 (sint s))" by (simp only: unsigned_of_int) simp
  then show ?thesis using assms sint_less [of s] by (simp only: scast_eq) (simp add: take_bit_int_eq_self)
qed

lemma TrapHandler_frame:
  assumes run: "TrapHandler h w args = Inr (out, w')" and p: "policy_of (manifest w) = Inr p" "length (channels p) = 5"
    and bits: "addr_bits (app w) = 32"
    and pread: "\<And>fd n off bs. os_pread h fd n off = Some bs \<Longrightarrow> length bs \<le> unat n"
    and x: "2 ^ 32 + 2 ^ 31 \<le> unat (x - mem_start (app w))"
  shows "mem w' x = mem w x"
  using run p(1)
proof (cases rule: TrapHandler_cases)
  case (3 hu r)
  from 3 p show ?thesis
  proof (cases rule: TrapUserSetup_cases)
    case (2 first hint q m' cb g)
    have "1016 \<le> unat (x - hint)"
      using outside_guard [OF x in_sandbox(2) [OF 2(2) bits], of 1016] 2(1) by simp
    then show ?thesis using 2(4,6) by (simp add: agree_outside_def)
  qed simp
next
  case (4 d b s off r)
  obtain a where a: "NaClUserToSys (app w) b = Inr a" using 4 by (auto simp: TrapReadHandle_def rbind_eq_Inr)
  from 4 p show ?thesis
  proof (cases rule: TrapRead_cases)
    case (2 fd s' m')
    have "m' x = mem w x" if "os_pread h (handle fd) (scast s') off = Some bs"
      "m' = st_bytes (b + mem_start (app w)) bs (mem w)" for bs
    proof -
      have "unat (scast s' :: u64) < 2 ^ 31"
        using 2(6) sint_less [of s'] by (simp add: unat_scast_pos)
      then have "length bs \<le> 2 ^ 31" using pread [OF that(1)] by simp
      then have "length bs \<le> unat (x - (b + mem_start (app w)))"
        using outside_guard [OF x in_sandbox(2) [OF a bits]] by simp
      then show ?thesis using that(2) by (simp add: st_outside)
    qed
    then show ?thesis using 2(7,8) by auto
  qed simp
next
  case (5 d b s off r)
  from 5 p show ?thesis by (cases rule: TrapWrite_cases) simp_all
qed simp_all

end
