(* ===== verification/Syscalls.thy ===== *)
theory Syscalls
  imports TrapSafety
begin

text \<open>
  The system calls of the user program (\<^verbatim>\<open>src/service_runtime/nacl_syscall_handlers.c\<close>) and the
  routine that receives them (\<^verbatim>\<open>src/service_runtime/nacl_syscall_hook.c\<close>): the break, mapping and
  unmapping memory, exit, thread-local storage and the trap. Locks and reference counts are left
  out. The memory calls made are recorded in \<open>hostlog\<close>.
\<close>

section \<open>Helpers\<close>

definition kMaxUsableFileSize :: u64 where "kMaxUsableFileSize = drop_bit 1 (- 1)"

definition size_min :: "u64 \<Rightarrow> u64 \<Rightarrow> u64" where "size_min a b = (if a < b then a else b)"

definition AddrRangeContainsExecutablePages :: "NaClApp \<Rightarrow> u64 \<Rightarrow> bool" where
  "AddrRangeContainsExecutablePages nap usraddr \<longleftrightarrow> NaClTruncAllocPage usraddr < dynamic_text_end nap"

definition NaClCommonUtilUpdateAddrMap ::
  "(nat \<Rightarrow> bool) \<Rightarrow> NaClApp \<Rightarrow> u64 \<Rightarrow> u64 \<Rightarrow> int \<Rightarrow> nat option \<Rightarrow> i64 \<Rightarrow> i64 \<Rightarrow> bool \<Rightarrow> NaClApp result" where
  "NaClCommonUtilUpdateAddrMap mal nap sysaddr n sysprot backing_desc backing_bytes offset_bytes delete_mem =
     rbind (NaClSysToUser nap sysaddr) (\<lambda>usraddr.
     rbind (if backing_desc \<noteq> None
            then if delete_mem then Inl LogFatal
                 else NaClMemObjMake mal backing_desc backing_bytes offset_bytes
            else Inr None) (\<lambda>nmo.
     rbind (NaClVmmapUpdate mal (mem_map nap) (drop_bit NACL_PAGESHIFT usraddr)
              (drop_bit NACL_PAGESHIFT n) sysprot nmo delete_mem) (\<lambda>vm.
       Inr (nap\<lparr>mem_map := vm\<rparr>))))"

text \<open>The test for memory that is allocated in advance.\<close>

definition whole_chunk :: "world \<Rightarrow> bool result" where
  "whole_chunk w =
    (if user_side_flag (app w) \<and> manifest w \<noteq> None
     then rbind (policy_of (manifest w)) (\<lambda>p. Inr (max_mem p \<noteq> 0))
     else Inr False)"

section \<open>The break\<close>

text \<open>Extending the entry at the iterator and making the new pages accessible.\<close>

definition extend_break ::
  "posix \<Rightarrow> world \<Rightarrow> NaClVmmapIter \<Rightarrow> NaClVmmapEntry \<Rightarrow> u64 \<Rightarrow> u64 \<Rightarrow> world result" where
  "extend_break px w iter ent last_internal_page new_break =
    (let start_new_region = push_bit NACL_PAGESHIFT (page_num ent + npages ent);
         ent' = ent\<lparr>npages := last_internal_page - page_num ent + 1\<rparr>;
         region_size = push_bit NACL_PAGESHIFT (last_internal_page + 1) - start_new_region;
         vm = set_entry (vmmap iter) (entry_ix iter) ent';
         w = w\<lparr>app := (app w)\<lparr>mem_map := vm\<rparr>\<rparr> in
     rbind (whole_chunk w) (\<lambda>whole.
     rbind (if whole then Inr w
            else rbind (NaClUserToSys (app w) start_new_region) (\<lambda>sysaddr.
              let prt = PROT_READ OR PROT_WRITE in
              if px_mprotect px sysaddr region_size prt \<noteq> None then Inl LogFatal
              else Inr (w\<lparr>hostlog := hostlog w @ [Mprotect sysaddr region_size prt]\<rparr>))) (\<lambda>w.
       Inr (w\<lparr>app := (app w)\<lparr>break_addr := new_break\<rparr>\<rparr>))))"

text \<open>Whether the pages up to the new break reach the entry after the one at the iterator.\<close>

definition brk_runs_into :: "NaClVmmapIter \<Rightarrow> u64 \<Rightarrow> bool result" where
  "brk_runs_into iter last_internal_page =
    (let iter2 = NaClVmmapIterIncr iter in
     if NaClVmmapIterAtEnd iter2 then Inr False
     else rbind (deref (vmentry (vmmap iter2)) (entry_ix iter2)) (\<lambda>next_ent.
       Inr (page_num next_ent \<le> last_internal_page)))"

text \<open>From the entry that contains the current break on.\<close>

definition brk_at_entry ::
  "posix \<Rightarrow> world \<Rightarrow> NaClVmmapIter \<Rightarrow> NaClVmmapEntry \<Rightarrow> u64 \<Rightarrow> world result" where
  "brk_at_entry px w iter ent new_break =
    (let usr_new_last_data_page = drop_bit NACL_PAGESHIFT (new_break - 1);
         last_internal_page = drop_bit NACL_PAGESHIFT (NaClRoundAllocPage new_break - 1) in
     if usr_new_last_data_page < page_num ent + npages ent
     then Inr (w\<lparr>app := (app w)\<lparr>break_addr := new_break\<rparr>\<rparr>)
     else rbind (brk_runs_into iter last_internal_page) (\<lambda>ran_into.
       if ran_into then Inr w else extend_break px w iter ent last_internal_page new_break))"

definition NaClSysSysbrk :: "posix \<Rightarrow> world \<Rightarrow> u64 \<Rightarrow> (i32 \<times> world) result" where
  "NaClSysSysbrk px w new_break =
    (let nap = app w; returns = (\<lambda>w. Inr (ucast (break_addr (app w)), w)) in
     if NaClUserToSysAddr nap new_break = kNaClBadAddress then returns w
     else if new_break < data_end nap then returns w
     else if new_break \<le> break_addr nap then returns (w\<lparr>app := nap\<lparr>break_addr := new_break\<rparr>\<rparr>)
     else rbind (NaClUserToSys nap (break_addr nap)) (\<lambda>sys_break.
       let usr_last_data_page = drop_bit NACL_PAGESHIFT (break_addr nap - 1) in
       rbind (NaClVmmapFindPageIter (mem_map nap) usr_last_data_page) (\<lambda>iter.
       if NaClVmmapIterAtEnd iter then Inl LogFatal
       else rbind (deref (vmentry (vmmap iter)) (entry_ix iter)) (\<lambda>ent.
         rbind (brk_at_entry px (w\<lparr>app := nap\<lparr>mem_map := vmmap iter\<rparr>\<rparr>) iter ent new_break) returns))))"

section \<open>Mapping\<close>

text \<open>The last steps of \<open>NaClCommonSysMmapIntern\<close>; \<open>UINT32_MAX\<close> is \<open>2 ^ 32 - 1\<close>.\<close>

definition mmap_return :: "u64 \<Rightarrow> world \<Rightarrow> (i32 \<times> world) result" where
  "mmap_return map_result w =
    (if 0xffffffff < map_result \<and> \<not> NaClPtrIsNegErrno map_result then Inl LogFatal
     else Inr (ucast map_result, w))"

text \<open>
  The sizes of the file: of the whole file, from the offset on, and the latter rounded to pages of
  the host and to allocation pages; or the error to return.
\<close>

definition mmap_file_sizes ::
  "posix \<Rightarrow> NaClHostDesc option \<Rightarrow> i64 \<Rightarrow> (u64 + i64 \<times> i64 \<times> i64 \<times> u64) result" where
  "mmap_file_sizes px dsc off =
    (case dsc of
       None \<Rightarrow> Inr (Inr (kMaxUsableFileSize, kMaxUsableFileSize, kMaxUsableFileSize, kMaxUsableFileSize))
     | Some self \<Rightarrow>
         (case NaClDescIoDescFstat px self of
            (rv, None) \<Rightarrow> Inr (Inl (word_of_int rv))
          | (rv, Some stbuf) \<Rightarrow>
              if rv \<noteq> 0 then Inr (Inl (word_of_int rv))
              else
                let file_size = nacl_abi_st_size stbuf in
                if sint file_size < sint off then Inr (Inl (word_of_int (- NACL_ABI_EINVAL)))
                else
                  let file_bytes = file_size - off;
                      host_rounded = (if sint kMaxUsableFileSize < sint file_bytes
                                      then kMaxUsableFileSize else NaClRoundHostAllocPage file_bytes) in
                  if \<not> sint host_rounded \<le> sint kMaxUsableFileSize then Inl AssertFailed
                  else
                    let alloc_rounded = NaClRoundAllocPage host_rounded in
                    if alloc_rounded = 0 \<and> host_rounded \<noteq> 0
                    then Inr (Inl (word_of_int (- NACL_ABI_ENOMEM)))
                    else Inr (Inr (file_size, file_bytes, host_rounded, alloc_rounded))))"

text \<open>Choosing the address: fixed, anywhere, or near a hint. The result 0 is no space.\<close>

definition mmap_choose :: "NaClVmmap \<Rightarrow> int \<Rightarrow> u64 \<Rightarrow> u64 \<Rightarrow> (u64 option \<times> NaClVmmap) result" where
  "mmap_choose vm flags usraddr alloc_rounded_length =
    (let np = drop_bit NACL_PAGESHIFT alloc_rounded_length;
         found = (\<lambda>(usrpage, vm). Inr (if usrpage = 0 then None else Some (push_bit NACL_PAGESHIFT usrpage), vm)) in
     if flags AND NACL_ABI_MAP_FIXED \<noteq> 0 then Inr (Some usraddr, vm)
     else if usraddr = 0 then rbind (NaClVmmapFindMapSpace vm np) found
     else rbind (NaClVmmapFindMapSpaceAboveHint vm usraddr np) (\<lambda>(usrpage, vm).
            if usrpage = 0 then rbind (NaClVmmapFindMapSpace vm np) found else found (usrpage, vm)))"

text \<open>The part \<open>[0, length)\<close>; \<open>d\<close> is the number of the descriptor.\<close>

definition mmap_main ::
  "posix \<Rightarrow> (nat \<Rightarrow> bool) \<Rightarrow> bool \<Rightarrow> nat option \<Rightarrow> NaClHostDesc option \<Rightarrow> world \<Rightarrow> u64 \<Rightarrow> u64 \<Rightarrow> int \<Rightarrow> int \<Rightarrow>
     i64 \<Rightarrow> i64 \<Rightarrow> i64 \<Rightarrow> (u64 \<times> world) result" where
  "mmap_main px mal whole d dsc w sysaddr n prt flags off file_size file_bytes =
    (if 0 < n then
       rbind (case dsc of
                None \<Rightarrow> NaClDescIoDescMapAnon px whole sysaddr n prt flags off (hostlog w)
              | Some self \<Rightarrow>
                  NaClDescIoDescMap px whole (Some self) sysaddr (size_min n file_bytes) prt flags off (hostlog w))
       (\<lambda>(map_result, log).
       let w = w\<lparr>hostlog := log\<rparr> in
       if NaClPtrIsNegErrno map_result then Inl LogFatal
       else if map_result \<noteq> sysaddr then Inl LogFatal
       else rbind (if prt = NACL_ABI_PROT_NONE
                   then NaClCommonUtilUpdateAddrMap mal (app w) sysaddr n PROT_NONE None file_size off False
                   else NaClCommonUtilUpdateAddrMap mal (app w) sysaddr n (NaClProtMap prt) d file_size off False)
              (\<lambda>nap. Inr (map_result, w\<lparr>app := nap\<rparr>)))
     else Inr (sysaddr, w))"

text \<open>The zero-filled part \<open>[length, start_of_inaccessible)\<close>; a left value ends the call.\<close>

definition mmap_zero_fill ::
  "posix \<Rightarrow> (nat \<Rightarrow> bool) \<Rightarrow> bool \<Rightarrow> world \<Rightarrow> u64 \<Rightarrow> u64 \<Rightarrow> u64 \<Rightarrow> int \<Rightarrow> (u64 \<times> world + world) result" where
  "mmap_zero_fill px mal whole w sysaddr n start_of_inaccessible prt =
    (if n < start_of_inaccessible then
       let map_len = start_of_inaccessible - n in
       rbind (NaClHostDescMap px whole None (sysaddr + n) map_len prt
                (NACL_ABI_MAP_ANONYMOUS OR NACL_ABI_MAP_PRIVATE) 0 (hostlog w)) (\<lambda>(map_result, log).
       let w = w\<lparr>hostlog := log\<rparr> in
       if NaClPtrIsNegErrno map_result then Inr (Inl (map_result, w))
       else rbind (NaClCommonUtilUpdateAddrMap mal (app w) (sysaddr + n) map_len (NaClProtMap prt) None 0 0 False)
              (\<lambda>nap. Inr (Inr (w\<lparr>app := nap\<rparr>))))
     else Inr (Inr w))"

text \<open>The inaccessible part \<open>[start_of_inaccessible, alloc_rounded_length)\<close>; a failure is only logged.\<close>

definition mmap_inaccessible ::
  "posix \<Rightarrow> (nat \<Rightarrow> bool) \<Rightarrow> bool \<Rightarrow> world \<Rightarrow> u64 \<Rightarrow> u64 \<Rightarrow> u64 \<Rightarrow> world result" where
  "mmap_inaccessible px mal whole w sysaddr start_of_inaccessible alloc_rounded_length =
    (if start_of_inaccessible < alloc_rounded_length then
       let map_len = alloc_rounded_length - start_of_inaccessible in
       rbind (NaClHostDescMap px whole None (sysaddr + start_of_inaccessible) map_len NACL_ABI_PROT_NONE
                (NACL_ABI_MAP_ANONYMOUS OR NACL_ABI_MAP_PRIVATE) 0 (hostlog w)) (\<lambda>(map_result, log).
       let w = w\<lparr>hostlog := log\<rparr> in
       rbind (NaClCommonUtilUpdateAddrMap mal (app w) (sysaddr + start_of_inaccessible) map_len PROT_NONE None 0 0 False)
         (\<lambda>nap. Inr (w\<lparr>app := nap\<rparr>)))
     else Inr w)"

definition mmap_allowed_flags :: int where
  "mmap_allowed_flags =
     NACL_ABI_MAP_FIXED OR NACL_ABI_MAP_SHARED OR NACL_ABI_MAP_PRIVATE OR NACL_ABI_MAP_ANONYMOUS"

text \<open>From the choice of the address on.\<close>

definition mmap_at ::
  "posix \<Rightarrow> (nat \<Rightarrow> bool) \<Rightarrow> nat option \<Rightarrow> NaClHostDesc option \<Rightarrow> world \<Rightarrow> u64 \<Rightarrow> u64 \<Rightarrow> u64 \<Rightarrow> u64 \<Rightarrow> int \<Rightarrow> int \<Rightarrow>
     i64 \<Rightarrow> i64 \<Rightarrow> i64 \<Rightarrow> (i32 \<times> world) result" where
  "mmap_at px mal d dsc w usraddr n start_of_inaccessible alloc_rounded_length prt flags off file_size file_bytes =
    (let einval = mmap_return (word_of_int (- NACL_ABI_EINVAL)) w;
         endaddr = usraddr + alloc_rounded_length in
     if push_bit (addr_bits (app w)) 1 \<le> usraddr then einval
     else if endaddr < usraddr then einval
     else if push_bit (addr_bits (app w)) 1 < endaddr then einval
     else if AddrRangeContainsExecutablePages (app w) usraddr then einval
     else
       let flags = flags OR NACL_ABI_MAP_FIXED; prt = prt AND NOT NACL_ABI_PROT_EXEC in
       if (flags AND NACL_ABI_MAP_SHARED = 0) = (flags AND NACL_ABI_MAP_PRIVATE = 0) then einval
       else rbind (NaClUserToSys (app w) usraddr) (\<lambda>sysaddr.
         rbind (whole_chunk w) (\<lambda>whole.
         rbind (mmap_main px mal whole d dsc w sysaddr n prt flags off file_size file_bytes) (\<lambda>(_, w).
         rbind (mmap_zero_fill px mal whole w sysaddr n start_of_inaccessible prt) (\<lambda>r.
           case r of
             Inl (map_result, w) \<Rightarrow> mmap_return map_result w
           | Inr w \<Rightarrow>
               rbind (mmap_inaccessible px mal whole w sysaddr start_of_inaccessible alloc_rounded_length) (\<lambda>w.
                 mmap_return usraddr w))))))"

definition NaClCommonSysMmapIntern ::
  "posix \<Rightarrow> (nat \<Rightarrow> bool) \<Rightarrow> world \<Rightarrow> u64 \<Rightarrow> u64 \<Rightarrow> int \<Rightarrow> int \<Rightarrow> int \<Rightarrow> i64 \<Rightarrow> (i32 \<times> world) result" where
  "NaClCommonSysMmapIntern px mal w start n prt flags0 d off =
    (let usraddr = start;
         flags = (if flags0 AND NOT mmap_allowed_flags \<noteq> 0 then flags0 AND mmap_allowed_flags else flags0);
         ddesc = (if flags AND NACL_ABI_MAP_ANONYMOUS \<noteq> 0 then None else NaClGetDesc (app w) d);
         einval = mmap_return (word_of_int (- NACL_ABI_EINVAL)) w in
     if flags AND NACL_ABI_MAP_ANONYMOUS = 0 \<and> ddesc = None
     then mmap_return (word_of_int (- NACL_ABI_EBADF)) w
     else if \<not> NaClIsAllocPageMultiple usraddr then einval
     else if sint off < 0 then einval
     else if \<not> NaClIsAllocPageMultiple off then einval
     else if n = 0 then einval
     else
       let alloc_rounded_length = NaClRoundAllocPage n;
           dsc = map_option (\<lambda>i. descs w ! i) ddesc in
       rbind (mmap_file_sizes px dsc off) (\<lambda>sizes.
       case sizes of
         Inl map_result \<Rightarrow> mmap_return map_result w
       | Inr (file_size, file_bytes, host_rounded_file_bytes, alloc_rounded_file_bytes) \<Rightarrow>
           let n = size_min alloc_rounded_length host_rounded_file_bytes;
               start_of_inaccessible = size_min alloc_rounded_length alloc_rounded_file_bytes in
           rbind (mmap_choose (mem_map (app w)) flags usraddr alloc_rounded_length) (\<lambda>(chosen, vm).
           let w = w\<lparr>app := (app w)\<lparr>mem_map := vm\<rparr>\<rparr> in
           case chosen of
             None \<Rightarrow> mmap_return (word_of_int (- NACL_ABI_ENOMEM)) w
           | Some usraddr \<Rightarrow>
               mmap_at px mal ddesc dsc w usraddr n start_of_inaccessible alloc_rounded_length prt flags off
                 file_size file_bytes)))"

definition NaClSysMmap ::
  "posix \<Rightarrow> (nat \<Rightarrow> bool) \<Rightarrow> world \<Rightarrow> u64 \<Rightarrow> u64 \<Rightarrow> int \<Rightarrow> int \<Rightarrow> int \<Rightarrow> u64 \<Rightarrow> (i32 \<times> world) result" where
  "NaClSysMmap px mal w start n prt flags d offp =
    (if offp = 0 then Inr (word_of_int (- NACL_ABI_EINVAL), w)
     else
       let sysaddr = NaClUserToSysAddrRange (app w) offp 8 in
       if sysaddr = kNaClBadAddress then Inr (word_of_int (- NACL_ABI_EFAULT), w)
       else NaClCommonSysMmapIntern px mal w start n prt flags d (ld64 (mem w) sysaddr))"

definition NaClSysMunmap ::
  "posix \<Rightarrow> (nat \<Rightarrow> bool) \<Rightarrow> world \<Rightarrow> u64 \<Rightarrow> u64 \<Rightarrow> (i32 \<times> world) result" where
  "NaClSysMunmap px mal w start n0 =
    (let fails = (\<lambda>e w. Inr (word_of_int (- e), w)) in
     if \<not> NaClIsAllocPageMultiple start then fails NACL_ABI_EINVAL w
     else if n0 = 0 then fails NACL_ABI_EINVAL w
     else
       let n = NaClRoundAllocPage n0;
           sysaddr = NaClUserToSysAddrRange (app w) start n in
       if sysaddr = kNaClBadAddress then fails NACL_ABI_EFAULT w
       else if AddrRangeContainsExecutablePages (app w) start then fails NACL_ABI_EINVAL w
       else
         let flags = MAP_PRIVATE OR MAP_ANONYMOUS OR MAP_FIXED in
         rbind (whole_chunk w) (\<lambda>whole.
         let (failed, w) =
               (if whole then (None, w)
                else (case px_mmap px sysaddr n PROT_NONE flags (- 1) 0 of Inl e \<Rightarrow> Some e | Inr _ \<Rightarrow> None,
                      w\<lparr>hostlog := hostlog w @ [Mmap sysaddr n PROT_NONE flags (- 1) 0]\<rparr>)) in
         case failed of
           Some e \<Rightarrow> fails (NaClXlateErrno e) w
         | None \<Rightarrow>
             rbind (NaClSysToUser (app w) sysaddr) (\<lambda>usraddr.
             rbind (NaClVmmapUpdate mal (mem_map (app w)) (drop_bit NACL_PAGESHIFT usraddr)
                      (drop_bit NACL_PAGESHIFT n) 0 None True) (\<lambda>vm.
               Inr (0, w\<lparr>app := (app w)\<lparr>mem_map := vm\<rparr>\<rparr>)))))"

section \<open>Exit and thread-local storage\<close>

definition NaClSysExit :: "world \<Rightarrow> i32 \<Rightarrow> outcome \<times> world" where
  "NaClSysExit w status = (longjmp status, w\<lparr>app := (app w)\<lparr>exit_status := sint status\<rparr>\<rparr>)"

definition NaClSysTls_Init :: "world \<Rightarrow> u64 \<Rightarrow> i32 \<times> world" where
  "NaClSysTls_Init w thread_ptr =
    (let addr = NaClUserToSysAddrRange (app w) thread_ptr 4 in
     if addr = kNaClBadAddress then (word_of_int (- NACL_ABI_EFAULT), w)
     else (0, w\<lparr>app := (app w)\<lparr>sys_tls := addr\<rparr>\<rparr>))"

definition NaClSysTls_Get :: "world \<Rightarrow> i32 result" where
  "NaClSysTls_Get w = rbind (NaClSysToUser (app w) (sys_tls (app w))) (\<lambda>a. Inr (ucast a))"

section \<open>Decoders and the table\<close>

datatype handler =
    NotImplementedDecoder | TrapDecoder | NaClSysSysbrkDecoder | NaClSysMmapDecoder | NaClSysMunmapDecoder
  | NaClSysExitDecoder | NaClSysTls_InitDecoder | NaClSysTls_GetDecoder | NaClSysMutex_CreateDecoder

definition NACL_MAX_SYSCALLS :: nat where "NACL_MAX_SYSCALLS = 110"
definition Trap_num :: nat where "Trap_num = 0"
definition NACL_sys_sysbrk :: nat where "NACL_sys_sysbrk = 20"
definition NACL_sys_mmap :: nat where "NACL_sys_mmap = 21"
definition NACL_sys_munmap :: nat where "NACL_sys_munmap = 22"
definition NACL_sys_exit :: nat where "NACL_sys_exit = 30"
definition NACL_sys_mutex_create :: nat where "NACL_sys_mutex_create = 70"
definition NACL_sys_tls_init :: nat where "NACL_sys_tls_init = 82"
definition NACL_sys_tls_get :: nat where "NACL_sys_tls_get = 84"

lemmas sysnum_defs = Trap_num_def NACL_sys_sysbrk_def NACL_sys_mmap_def NACL_sys_munmap_def
  NACL_sys_exit_def NACL_sys_mutex_create_def NACL_sys_tls_init_def NACL_sys_tls_get_def

definition NaClAddSyscall :: "nat \<Rightarrow> handler \<Rightarrow> handler list \<Rightarrow> handler list result" where
  "NaClAddSyscall num fn table =
    (if length table \<le> num then Inl OutOfBounds
     else if table ! num \<noteq> NotImplementedDecoder then Inl LogFatal
     else Inr (table[num := fn]))"

definition NaClSyscallTableInit :: "handler list result" where
  "NaClSyscallTableInit =
     rbind (NaClAddSyscall Trap_num TrapDecoder (replicate NACL_MAX_SYSCALLS NotImplementedDecoder)) (\<lambda>t.
     rbind (NaClAddSyscall NACL_sys_sysbrk NaClSysSysbrkDecoder t) (\<lambda>t.
     rbind (NaClAddSyscall NACL_sys_exit NaClSysExitDecoder t) (\<lambda>t.
     rbind (NaClAddSyscall NACL_sys_tls_init NaClSysTls_InitDecoder t) (\<lambda>t.
     rbind (NaClAddSyscall NACL_sys_tls_get NaClSysTls_GetDecoder t) (\<lambda>t.
     rbind (NaClAddSyscall NACL_sys_mutex_create NaClSysMutex_CreateDecoder t) (\<lambda>t.
     rbind (NaClAddSyscall NACL_sys_mmap NaClSysMmapDecoder t) (\<lambda>t.
     NaClAddSyscall NACL_sys_munmap NaClSysMunmapDecoder t)))))))"

text \<open>
  The decoders read their arguments, 32 bits each, where \<open>syscall_args\<close> points. The descriptor of
  \<open>mmap\<close> is always -1.
\<close>

definition run_handler ::
  "posix \<Rightarrow> (nat \<Rightarrow> bool) \<Rightarrow> io \<Rightarrow> world \<Rightarrow> handler \<Rightarrow> (outcome \<times> world) result" where
  "run_handler px mal h w fn =
    (let p = (\<lambda>i. ld32 (mem w) (syscall_args w + 4 * i));
         returns = (\<lambda>(r, w). Inr (Returns r, w)) in
     case fn of
       NotImplementedDecoder \<Rightarrow> Inr (Returns (word_of_int (- NACL_ABI_ENOSYS)), w)
     | TrapDecoder \<Rightarrow> TrapHandler h w (p 0)
     | NaClSysSysbrkDecoder \<Rightarrow> rbind (NaClSysSysbrk px w (ucast (p 0))) returns
     | NaClSysMmapDecoder \<Rightarrow>
         rbind (NaClSysMmap px mal w (ucast (p 0)) (ucast (p 1)) (sint (p 2)) (sint (p 3)) (- 1) (ucast (p 5))) returns
     | NaClSysMunmapDecoder \<Rightarrow> rbind (NaClSysMunmap px mal w (ucast (p 0)) (ucast (p 1))) returns
     | NaClSysExitDecoder \<Rightarrow> Inr (NaClSysExit w (p 0))
     | NaClSysTls_InitDecoder \<Rightarrow> returns (NaClSysTls_Init w (ucast (p 0)))
     | NaClSysTls_GetDecoder \<Rightarrow> rbind (NaClSysTls_Get w) (\<lambda>r. Inr (Returns r, w))
     | NaClSysMutex_CreateDecoder \<Rightarrow> Inr (Returns 1, w))"

section \<open>Entering and leaving the runtime\<close>

definition NACL_USERRET_FIX :: u64 where "NACL_USERRET_FIX = 0x8"
definition NACL_SYSARGS_FIX :: u64 where "NACL_SYSARGS_FIX = - 0x18"
definition NACL_SYSCALLRET_FIX :: u64 where "NACL_SYSCALLRET_FIX = 0x10"

definition NaClGetThreadCtxSp :: "NaClThreadContext \<Rightarrow> u64" where
  "NaClGetThreadCtxSp th_ctx = rsp th_ctx"

definition NaClSetThreadCtxSp :: "NaClThreadContext \<Rightarrow> u64 \<Rightarrow> NaClThreadContext" where
  "NaClSetThreadCtxSp th_ctx sp = th_ctx\<lparr>rsp := sp\<rparr>"

definition NaClThreadContextCtor ::
  "NaClApp \<Rightarrow> u64 \<Rightarrow> u64 \<Rightarrow> u32 \<Rightarrow> NaClThreadContext result" where
  "NaClThreadContextCtor nap pc stack_ptr idx =
     rbind (NaClUserToSys nap pc) (\<lambda>sys_pc.
       Inr \<lparr>rax = 0, rbx = 0, rcx = 0, rdx = 0, rbp = stack_ptr, rsi = 0, rdi = 0, rsp = stack_ptr,
            r8 = 0, r9 = 0, r10 = 0, r11 = 0, r12 = 0, r13 = 0, r14 = 0, r15 = mem_start nap,
            prog_ctr = sys_pc, new_prog_ctr = 0, ctx_sysret = word_of_int (- NACL_ABI_EINVAL),
            tls_base = 0, tls_idx = idx\<rparr>)"

text \<open>The switch itself loads the registers from the context.\<close>

definition NaClSwitchToApp :: "world \<Rightarrow> u64 \<Rightarrow> world" where
  "NaClSwitchToApp w pc =
     w\<lparr>user_ctx := (user_ctx w)\<lparr>new_prog_ctr := pc, ctx_sysret := ucast (sysret w)\<rparr>\<rparr>"

text \<open>The clock is read at the start, as part of \<open>h\<close>, and again at the end.\<close>

definition hook_leave :: "i64 \<Rightarrow> u64 \<Rightarrow> world \<Rightarrow> (outcome \<times> world) result" where
  "hook_leave clk user_ret w =
    (let user_ret = NaClSandboxCodeAddr (app w) user_ret in
     rbind (ResumeCpuClock clk (manifest w)) (\<lambda>mf.
       let w = w\<lparr>manifest := mf, app := (app w)\<lparr>user_side_flag := False\<rparr>\<rparr> in
       Inr (Returns (sysret w), NaClSwitchToApp w user_ret)))"

text \<open>Running the handler of a number, and leaving; an exit jumps to \<open>main\<close> from inside the handler.\<close>

definition hook_dispatch ::
  "posix \<Rightarrow> (nat \<Rightarrow> bool) \<Rightarrow> handler list \<Rightarrow> io \<Rightarrow> i64 \<Rightarrow> u64 \<Rightarrow> u64 \<Rightarrow> u64 \<Rightarrow> world \<Rightarrow> (outcome \<times> world) result" where
  "hook_dispatch px mal table h clk sysnum args user_ret w =
    (if NACL_MAX_SYSCALLS \<le> unat sysnum
     then hook_leave clk user_ret (w\<lparr>sysret := word_of_int (- NACL_ABI_EINVAL)\<rparr>)
     else if length table \<le> unat sysnum then Inl OutOfBounds
     else rbind (run_handler px mal h (w\<lparr>syscall_args := args\<rparr>) (table ! unat sysnum)) (\<lambda>(out, w).
       case out of
         LongJmp code \<Rightarrow> Inr (LongJmp code, w)
       | Returns r \<Rightarrow> hook_leave clk user_ret (w\<lparr>sysret := r\<rparr>)))"

definition NaClSyscallCSegHook ::
  "posix \<Rightarrow> (nat \<Rightarrow> bool) \<Rightarrow> handler list \<Rightarrow> io \<Rightarrow> i64 \<Rightarrow> world \<Rightarrow> (outcome \<times> world) result" where
  "NaClSyscallCSegHook px mal table h clk w =
    (let w = w\<lparr>app := (app w)\<lparr>user_side_flag := True\<rparr>\<rparr> in
     rbind (PauseCpuClock (os_clock h) (manifest w)) (\<lambda>mf.
     rbind (AccountingSyscallsInc mf) (\<lambda>(_, mf).
       let w = w\<lparr>manifest := mf\<rparr>;
           sp_user = NaClGetThreadCtxSp (user_ctx w);
           sp_sys = NaClUserToSysStackAddr (app w) sp_user;
           tramp_ret = NaClUserToSysStackAddr (app w) (ld64 (mem w) sp_sys);
           sysnum = drop_bit NACL_SYSCALL_BLOCK_SHIFT (tramp_ret - (mem_start (app w) + NACL_SYSCALL_START_ADDR));
           user_ret = ld64 (mem w) (sp_sys + NACL_USERRET_FIX);
           sp_sys = sp_sys + NACL_SYSARGS_FIX;
           sp_user = sp_user + NACL_SYSCALLRET_FIX;
           w = w\<lparr>user_ctx := NaClSetThreadCtxSp (user_ctx w) sp_user\<rparr> in
       hook_dispatch px mal table h clk sysnum sp_sys user_ret w)))"

end
