(* ===== verification/SyscallSafety.thy ===== *)
theory SyscallSafety
  imports Syscalls
begin

text \<open>
  What the memory system calls may do: every call to the operating system stays in the sandbox above
  the code and never asks for executable memory, the memory map changes only there, and its
  invariant is kept.
\<close>

section \<open>Calls to the operating system\<close>

fun call_ok :: "nat \<Rightarrow> nat \<Rightarrow> hcall \<Rightarrow> bool" where
  "call_ok lo hi (Mmap a n prt fl d off) = (lo \<le> unat a \<and> unat a + unat n \<le> hi \<and> prt AND PROT_EXEC = 0)"
| "call_ok lo hi (Mprotect a n prt) = (lo \<le> unat a \<and> unat a + unat n \<le> hi \<and> prt AND PROT_EXEC = 0)"
| "call_ok lo hi (Munmap a n) = False"

lemma call_ok_mono: "call_ok lo hi c \<Longrightarrow> lo' \<le> lo \<Longrightarrow> hi \<le> hi' \<Longrightarrow> call_ok lo' hi' c"
  by (cases c) auto

lemma rw_not_exec: "NaClProtMap (prt AND (NACL_ABI_PROT_READ OR NACL_ABI_PROT_WRITE)) AND PROT_EXEC = 0"
proof -
  have "bit_to (prt AND (NACL_ABI_PROT_READ OR NACL_ABI_PROT_WRITE)) NACL_ABI_PROT_EXEC PROT_EXEC = 0"
    by (simp add: bit_to_def abi_defs and.assoc)
  then show ?thesis by (simp add: NaClProtMap_def bit_to_def PROT_READ_def PROT_WRITE_def PROT_EXEC_def)
qed

definition extends :: "nat \<Rightarrow> nat \<Rightarrow> hcall list \<Rightarrow> hcall list \<Rightarrow> bool" where
  "extends lo hi log log' \<longleftrightarrow> (\<exists>cs. log' = log @ cs \<and> (\<forall>c\<in>set cs. call_ok lo hi c))"

lemma extends_refl [simp]: "extends lo hi log log"
  by (simp add: extends_def)

lemma extends_trans: "extends lo hi a b \<Longrightarrow> extends lo hi b c \<Longrightarrow> extends lo hi a c"
  by (auto simp: extends_def)

lemma extends_mono: "extends lo hi a b \<Longrightarrow> lo' \<le> lo \<Longrightarrow> hi \<le> hi' \<Longrightarrow> extends lo' hi' a b"
  using call_ok_mono by (fastforce simp: extends_def)

lemma extends_one: "call_ok lo hi c \<Longrightarrow> extends lo hi log (log @ [c])"
  by (simp add: extends_def)

lemma HostDescMap_log:
  assumes "NaClHostDescMap px whole d a n prt fl off log = Inr (st, log')"
    "lo \<le> unat a" "unat a + unat n \<le> hi"
  shows "extends lo hi log log'"
  using assms rw_not_exec [of prt]
  by (auto simp: NaClHostDescMap_def Let_def extends_one split: if_splits sum.splits)

text \<open>What a pointer loop keeps, whether or not it ends by itself.\<close>

lemma ptr_loop_keeps:
  assumes "ptr_loop k step f p e s = Inr r" "I p s"
    and "\<And>p s s'. I p s \<Longrightarrow> p < e \<Longrightarrow> f p s = Inr (Inr s') \<Longrightarrow> I (p + step) s'"
    and "\<And>p s x. I p s \<Longrightarrow> p < e \<Longrightarrow> f p s = Inr (Inl x) \<Longrightarrow> Q x"
  shows "case r of Inl x \<Rightarrow> Q x | Inr s' \<Rightarrow> \<exists>p. I p s'"
  using assms(1,2)
proof (induction k arbitrary: p s)
  case (Suc k)
  show ?case
  proof (cases "p < e")
    case True
    then obtain x where x: "f p s = Inr x" "(case x of Inl r \<Rightarrow> Inr (Inl r) | Inr s \<Rightarrow> ptr_loop k step f (p + step) e s) = Inr r"
      using Suc.prems(1) by (auto simp: rbind_eq_Inr)
    show ?thesis
    proof (cases x)
      case (Inl y)
      with x assms(4) [OF Suc.prems(2) True] show ?thesis by auto
    next
      case (Inr s')
      with x assms(3) [OF Suc.prems(2) True] show ?thesis using Suc.IH by auto
    qed
  next
    case False
    with Suc.prems show ?thesis by auto
  qed
qed simp

lemma IoDescMap_log:
  assumes run: "NaClDescIoDescMap px whole self start n prt flags off log = Inr (v, log')"
    and fixd: "flags AND NACL_ABI_MAP_FIXED \<noteq> 0" and room: "unat start + unat n + 2 ^ 16 \<le> 2 ^ 64"
  shows "extends (unat start) (unat start + unat n) log log'"
proof (cases "NOT (NACL_ABI_PROT_READ OR NACL_ABI_PROT_WRITE) AND prt \<noteq> 0")
  case True
  with run show ?thesis by (simp add: NaClDescIoDescMap_def)
next
  case False
  let ?e = "start + n"
  let ?X = "extends (unat start) (unat start + unat n) log"
  let ?f = "io_map_page px whole self ?e prt (flags OR NACL_ABI_MAP_FIXED)"
  have e: "unat ?e = unat start + unat n" using room by (intro unat_plus_nowrap) simp
  define I where "I p s \<longleftrightarrow> unat start \<le> unat p \<and> ?X (snd s)" for p :: u64 and s :: "i64 \<times> hcall list"
  obtain r where r: "ptr_loop loop_rounds NACL_MAP_PAGESIZE ?f start ?e (off, log) = Inr r"
    "(case r of Inl x \<Rightarrow> Inr x | Inr (_, log) \<Rightarrow> Inr (start, log)) = (Inr (v, log') :: (u64 \<times> hcall list) result)"
    using run False fixd
    by (auto simp: NaClDescIoDescMap_def Let_def rbind_eq_Inr and.commute)
  have body: "?X log2" if "I p (o1, log1)" "p < ?e"
      "NaClHostDescMap px whole self p ms prt (flags OR NACL_ABI_MAP_FIXED) o1 log1 = Inr (st, log2)"
      "ms \<le> ?e - p" for p ms o1 log1 st log2
  proof -
    have "unat (?e - p) = unat ?e - unat p" using that(2) by (intro unat_minus_le) simp
    then have "unat p + unat ms \<le> unat start + unat n"
      using that(2,4) e by (simp add: word_le_nat_alt word_less_nat_alt)
    then have "extends (unat start) (unat start + unat n) log1 log2"
      using that(1) by (intro HostDescMap_log [OF that(3)]) (auto simp: I_def)
    with that(1) show ?thesis by (auto simp: I_def intro: extends_trans)
  qed
  have adv: "unat start \<le> unat (p + NACL_MAP_PAGESIZE)" if "unat start \<le> unat p" "p < ?e" for p
  proof -
    have "unat p + unat NACL_MAP_PAGESIZE < 2 ^ 64"
      using that(2) e room by (simp add: word_less_nat_alt config_defs)
    then have "unat (p + NACL_MAP_PAGESIZE) = unat p + unat NACL_MAP_PAGESIZE" by (intro unat_plus_nowrap) simp
    with that(1) show ?thesis by simp
  qed
  have "case r of Inl x \<Rightarrow> ?X (snd x) | Inr s' \<Rightarrow> \<exists>p. I p s'"
  proof (rule ptr_loop_keeps [OF r(1), where I = I])
    show "I start (off, log)" by (simp add: I_def)
    show "I (p + NACL_MAP_PAGESIZE) s'" if "I p s" "p < ?e" "?f p s = Inr (Inr s')" for p s s'
      using that adv [of p] body [of p "fst s" "snd s"]
      by (cases s) (auto simp: io_map_page_def Let_def rbind_eq_Inr I_def split: if_splits)
    show "?X (snd x)" if "I p s" "p < ?e" "?f p s = Inr (Inl x)" for p s x
      using that body [of p "fst s" "snd s"]
      by (cases s) (auto simp: io_map_page_def Let_def rbind_eq_Inr split: if_splits)
  qed
  with r(2) show ?thesis by (auto simp: I_def split: sum.splits)
qed

section \<open>Steps of the memory map\<close>

definition not_exec :: "(int \<times> 'a) option \<Rightarrow> bool" where
  "not_exec v \<longleftrightarrow> (case v of None \<Rightarrow> True | Some (pr, _) \<Rightarrow> pr AND PROT_EXEC = 0)"

definition map_step :: "nat \<Rightarrow> NaClVmmap \<Rightarrow> NaClVmmap \<Rightarrow> bool" where
  "map_step lo vm vm' \<longleftrightarrow> vm_inv vm' \<and>
     (\<forall>p. vm_pages vm' p = vm_pages vm p \<or> lo \<le> unat p * 2 ^ 12 \<and> not_exec (vm_pages vm' p))"

lemma map_step_refl [simp]: "vm_inv vm \<Longrightarrow> map_step lo vm vm"
  by (simp add: map_step_def)

lemma map_step_trans: "map_step lo a b \<Longrightarrow> map_step lo b c \<Longrightarrow> map_step lo a c"
  unfolding map_step_def by metis

lemma map_step_mono: "map_step lo a b \<Longrightarrow> lo' \<le> lo \<Longrightarrow> map_step lo' a b"
  using order_trans by (auto simp: map_step_def)

lemma map_step_inv: "map_step lo a b \<Longrightarrow> vm_inv b"
  by (simp add: map_step_def)

lemma page_below:
  "lo \<le> unat pn * 4096 \<Longrightarrow> pn \<le> p \<Longrightarrow> lo \<le> unat p * 4096" for pn p :: u64
  by (simp add: word_le_nat_alt)

lemma Update_empty:
  assumes "vm_inv self" "nvalid self = 0" "NaClVmmapUpdate mal self pn np pr nmo True = Inr self'"
  shows "vm_inv self' \<and> vm_pages self' = vm_pages self"
proof -
  obtain s where s: "NaClVmmapMakeSorted self = Inr s" "vm_inv s" "mset (ents s) = mset (ents self)"
    using MakeSorted_spec [OF assms(1)] by metis
  have "ents self = []" using assms(2) by (simp add: ents_def)
  moreover from this s(2,3) have "nvalid s = 0" by (metis length_ents list.size(3) mset_zero_iff vm_inv_def)
  moreover from this have "update_loop mal pn (pn + np) s 0 = Inr s" by (subst update_loop.simps) simp
  ultimately have "self' = s"
    using assms(3) s(1) by (simp add: NaClVmmapUpdate_def NaClVmmapRemoveMarked_def split: if_splits)
  with s(2,3) \<open>ents self = []\<close> show ?thesis by (simp add: vm_pages_def)
qed

lemma Update_step:
  assumes "NaClVmmapUpdate mal self pn np pr nmo rm = Inr self'" "vm_inv self" "\<forall>n. mal n"
    "unat pn + unat np \<le> 2 ^ 31" "lo \<le> unat pn * 2 ^ 12" "rm \<or> pr AND PROT_EXEC = 0"
  shows "map_step lo self self'"
proof -
  have "\<not> 0 < np \<Longrightarrow> False" using assms(1) by (auto simp: NaClVmmapUpdate_def rbind_eq_Inr)
  then have np: "0 < unat np" by (auto simp: word_less_nat_alt)
  show ?thesis
  proof (cases rm)
    case False
    then show ?thesis
      using Update_map [OF assms(2,3) np assms(4), of pr nmo] assms(1,5,6)
      by (auto simp: map_step_def not_exec_def new_page_def page_below)
  next
    case True
    consider (other) "\<exists>p. \<not> (pn \<le> p \<and> p < pn + np) \<and> vm_pages self p \<noteq> None" | (empty) "nvalid self = 0"
      | (all) "\<forall>p. vm_pages self p \<noteq> None \<longrightarrow> pn \<le> p \<and> p < pn + np" "nvalid self \<noteq> 0" by blast
    then show ?thesis
    proof cases
      case other
      then show ?thesis
        using Update_unmap(1) [OF assms(2,3) np assms(4) other, of pr nmo] assms(1,5) True
        by (auto simp: map_step_def not_exec_def page_below)
    next
      case empty
      then show ?thesis using Update_empty [OF assms(2) empty] assms(1) True by (simp add: map_step_def)
    next
      case all
      then show ?thesis using Update_unmap(2) [OF assms(2,3) np assms(4) all] assms(1) True by simp
    qed
  qed
qed

section \<open>Steps of the application\<close>

definition sys_ok :: "NaClApp \<Rightarrow> bool" where
  "sys_ok nap \<longleftrightarrow> addr_bits nap = 32 \<and> unat (mem_start nap) + 2 ^ 32 + 2 ^ 16 \<le> 2 ^ 64 \<and> vm_inv (mem_map nap) \<and>
     dynamic_text_end nap < data_end nap \<and> data_end nap \<le> break_addr nap \<and> unat (break_addr nap) < 2 ^ 32 \<and>
     2 ^ 12 dvd unat (dynamic_text_end nap) \<and>
     (\<forall>p. unat (dynamic_text_end nap) \<le> unat p * 2 ^ 12 \<longrightarrow> not_exec (vm_pages (mem_map nap) p))"

lemma sys_ok_app: "sys_ok nap \<Longrightarrow> app_ok nap"
  by (simp add: sys_ok_def app_ok_def)

text \<open>Nothing but the memory map from \<open>lo\<close> on, the break and the log of calls changes.\<close>

definition grows :: "nat \<Rightarrow> nat \<Rightarrow> world \<Rightarrow> world \<Rightarrow> bool" where
  "grows lo hi w w' \<longleftrightarrow>
     (\<exists>vm b log. w' = w\<lparr>app := (app w)\<lparr>mem_map := vm, break_addr := b\<rparr>, hostlog := log\<rparr> \<and>
        data_end (app w) \<le> b \<and> unat b < 2 ^ 32 \<and> map_step lo (mem_map (app w)) vm \<and>
        extends (unat (mem_start (app w)) + lo) (unat (mem_start (app w)) + hi) (hostlog w) log)"

lemma grows_frame:
  assumes "grows lo hi w w'"
  shows "manifest w' = manifest w" "mem w' = mem w" "g_syscallback w' = g_syscallback w" "written w' = written w"
    "descs w' = descs w" "user_ctx w' = user_ctx w" "syscall_args w' = syscall_args w" "sysret w' = sysret w"
    "addr_bits (app w') = addr_bits (app w)" "mem_start (app w') = mem_start (app w)"
    "dynamic_text_end (app w') = dynamic_text_end (app w)" "data_end (app w') = data_end (app w)"
    "static_text_end (app w') = static_text_end (app w)" "bundle_size (app w') = bundle_size (app w)"
    "dynamic_text_start (app w') = dynamic_text_start (app w)" "user_side_flag (app w') = user_side_flag (app w)"
  using assms by (auto simp: grows_def)

lemma grows_refl: "sys_ok (app w) \<Longrightarrow> grows lo hi w w"
  unfolding grows_def
  by (rule exI [of _ "mem_map (app w)"], rule exI [of _ "break_addr (app w)"], rule exI [of _ "hostlog w"])
    (simp add: sys_ok_def)

lemma grows_trans: "grows lo hi a b \<Longrightarrow> grows lo hi b c \<Longrightarrow> grows lo hi a c"
  by (fastforce simp: grows_def intro: map_step_trans extends_trans)

lemma grows_mono: "grows lo hi a b \<Longrightarrow> lo' \<le> lo \<Longrightarrow> hi \<le> hi' \<Longrightarrow> grows lo' hi' a b"
  by (fastforce simp: grows_def intro: map_step_mono extends_mono)

lemma grows_ok: "grows lo hi w w' \<Longrightarrow> sys_ok (app w) \<Longrightarrow> sys_ok (app w')"
  unfolding grows_def sys_ok_def map_step_def by auto metis

lemma grows_app:
  "sys_ok (app w) \<Longrightarrow> map_step lo (mem_map (app w)) vm \<Longrightarrow> grows lo hi w (w\<lparr>app := (app w)\<lparr>mem_map := vm\<rparr>\<rparr>)"
  unfolding grows_def
  by (rule exI [of _ vm], rule exI [of _ "break_addr (app w)"], rule exI [of _ "hostlog w"])
    (simp add: sys_ok_def)

lemma grows_log:
  "sys_ok (app w) \<Longrightarrow> extends (unat (mem_start (app w)) + lo) (unat (mem_start (app w)) + hi) (hostlog w) log \<Longrightarrow>
     grows lo hi w (w\<lparr>hostlog := log\<rparr>)"
  unfolding grows_def
  by (rule exI [of _ "mem_map (app w)"], rule exI [of _ "break_addr (app w)"], rule exI [of _ log])
    (simp add: sys_ok_def)

lemma grows_break:
  "sys_ok (app w) \<Longrightarrow> data_end (app w) \<le> b \<Longrightarrow> unat b < 2 ^ 32 \<Longrightarrow> grows lo hi w (w\<lparr>app := (app w)\<lparr>break_addr := b\<rparr>\<rparr>)"
  unfolding grows_def
  by (rule exI [of _ "mem_map (app w)"], rule exI [of _ b], rule exI [of _ "hostlog w"])
    (simp add: sys_ok_def)

section \<open>The parts of a mapping\<close>

lemma UpdateAddrMap_step:
  assumes run: "NaClCommonUtilUpdateAddrMap mal (app w) (u + mem_start (app w)) n pr d bb ob False = Inr nap"
    and ok: "sys_ok (app w)" "\<forall>n. mal n" and pr: "pr AND PROT_EXEC = 0"
    and u: "lo \<le> unat u" "2 ^ 12 dvd lo" "unat u + unat n \<le> 2 ^ 32"
  shows "grows lo hi w (w\<lparr>app := nap\<rparr>)"
proof -
  obtain u' nmo vm where r: "NaClSysToUser (app w) (u + mem_start (app w)) = Inr u'"
    "NaClVmmapUpdate mal (mem_map (app w)) (drop_bit NACL_PAGESHIFT u') (drop_bit NACL_PAGESHIFT n) pr nmo False = Inr vm"
    "nap = (app w)\<lparr>mem_map := vm\<rparr>"
    using run by (auto simp: NaClCommonUtilUpdateAddrMap_def rbind_eq_Inr)
  have "u' = u" using user_sys_user(3) [OF sys_ok_app [OF ok(1)] r(1)] by simp
  moreover have "unat u div 2 ^ 12 + unat n div 2 ^ 12 \<le> 2 ^ 31" using u(3) by simp
  moreover have "lo \<le> unat u div 2 ^ 12 * 2 ^ 12" using u(1,2) by (metis div_le_mono dvd_div_mult_self mult_le_mono1)
  ultimately have "map_step lo (mem_map (app w)) vm"
    using ok pr by (intro Update_step [OF r(2)]) (auto simp: sys_ok_def drop_bit_eq_div unat_div config_defs)
  with ok(1) r(3) show ?thesis by (simp add: grows_app)
qed

lemma ProtMap_not_exec: "prt AND NACL_ABI_PROT_EXEC = 0 \<Longrightarrow> NaClProtMap prt AND PROT_EXEC = 0"
  by (simp add: NaClProtMap_def bit_to_def PROT_READ_def PROT_WRITE_def PROT_EXEC_def)

lemma unat_sys:
  assumes "sys_ok nap" "unat u + unat k \<le> 2 ^ 32"
  shows "unat (u + mem_start nap + k) = unat (mem_start nap) + unat u + unat k"
proof -
  have "unat (u + mem_start nap) = unat u + unat (mem_start nap)"
    using assms by (intro unat_plus_nowrap) (simp add: sys_ok_def)
  moreover have "unat (u + mem_start nap + k) = unat (u + mem_start nap) + unat k"
    using assms calculation by (intro unat_plus_nowrap) (simp add: sys_ok_def)
  ultimately show ?thesis by simp
qed

lemmas unat_sys0 = unat_sys [where k = 0, simplified]

lemma mmap_main_step:
  assumes run: "mmap_main px mal whole d dsc w (u + mem_start (app w)) n prt flags off fs fb = Inr (r, w')"
    and ok: "sys_ok (app w)" "\<forall>n. mal n" and prt: "prt AND NACL_ABI_PROT_EXEC = 0"
    and fl: "flags AND NACL_ABI_MAP_FIXED \<noteq> 0"
    and u: "2 ^ 12 dvd unat u" "unat u + unat n \<le> hi" "hi \<le> 2 ^ 32"
  shows "grows (unat u) hi w w'"
proof (cases "0 < n")
  case True
  define m where "m = (case dsc of None \<Rightarrow> n | _ \<Rightarrow> size_min n fb)"
  have m: "unat m \<le> unat n" by (auto simp: m_def size_min_def word_less_nat_alt split: option.split)
  obtain v log pr d' nap where r:
    "NaClDescIoDescMap px whole dsc (u + mem_start (app w)) m prt flags off (hostlog w) = Inr (v, log)"
    "NaClCommonUtilUpdateAddrMap mal (app w) (u + mem_start (app w)) n pr d' fs off False = Inr nap"
    "pr AND PROT_EXEC = 0" "w' = w\<lparr>hostlog := log, app := nap\<rparr>"
    using run True ProtMap_not_exec [OF prt]
    by (cases dsc) (auto simp: mmap_main_def Let_def rbind_eq_Inr NaClDescIoDescMapAnon_def m_def PROT_NONE_def
        split: if_splits)
  have s: "unat (u + mem_start (app w)) = unat (mem_start (app w)) + unat u"
    using unat_sys0 [OF ok(1)] u(2,3) by simp
  have "extends (unat (mem_start (app w)) + unat u) (unat (mem_start (app w)) + unat u + unat m) (hostlog w) log"
    using IoDescMap_log [OF r(1) fl] s m u(2,3) ok(1) by (simp add: sys_ok_def)
  then have log: "grows (unat u) hi w (w\<lparr>hostlog := log\<rparr>)"
    using ok(1) m u(2) by (intro grows_log) (auto elim: extends_mono)
  have "grows (unat u) hi (w\<lparr>hostlog := log\<rparr>) (w\<lparr>hostlog := log, app := nap\<rparr>)"
    using r(2,3) ok u UpdateAddrMap_step [where w = "w\<lparr>hostlog := log\<rparr>" and u = u and lo = "unat u"] by simp
  with log show ?thesis unfolding r(4) by (rule grows_trans)
next
  case False
  with run ok(1) show ?thesis by (simp add: mmap_main_def grows_refl)
qed

text \<open>One anonymous mapping at an offset, and its entry in the memory map.\<close>

lemma anon_part:
  assumes "NaClHostDescMap px whole None (u + mem_start (app w) + k) n prt fl 0 (hostlog w) = Inr (v, log)"
    and ok: "sys_ok (app w)" and u: "unat u + unat k + unat n \<le> hi" "hi \<le> 2 ^ 32"
  shows "grows (unat u) hi w (w\<lparr>hostlog := log\<rparr>)"
proof (rule grows_log [OF ok])
  have "unat (u + mem_start (app w) + k) = unat (mem_start (app w)) + unat u + unat k"
    using u by (intro unat_sys [OF ok]) simp
  then show "extends (unat (mem_start (app w)) + unat u) (unat (mem_start (app w)) + hi) (hostlog w) log"
    using u by (intro HostDescMap_log [OF assms(1)]) simp_all
qed

lemma anon_entry:
  assumes "NaClCommonUtilUpdateAddrMap mal (app w) (u + mem_start (app w) + k) n pr None 0 0 False = Inr nap"
    and ok: "sys_ok (app w)" "\<forall>n. mal n" "pr AND PROT_EXEC = 0"
    and u: "2 ^ 12 dvd unat u" "unat u + unat k + unat n \<le> hi" "hi \<le> 2 ^ 32"
  shows "grows (unat u) hi w (w\<lparr>app := nap\<rparr>)"
proof -
  have "unat (u + k) = unat u + unat k" using u by (intro unat_plus_nowrap) simp
  then have "unat u \<le> unat (u + k)" "unat (u + k) + unat n \<le> 2 ^ 32" using u(2,3) by linarith+
  moreover have "NaClCommonUtilUpdateAddrMap mal (app w) (u + k + mem_start (app w)) n pr None 0 0 False = Inr nap"
    using assms(1) by (simp add: ac_simps)
  ultimately show ?thesis using UpdateAddrMap_step ok u(1) by blast
qed

lemma mmap_zero_fill_step:
  assumes run: "mmap_zero_fill px mal whole w (u + mem_start (app w)) n soi prt = Inr r"
    and ok: "sys_ok (app w)" "\<forall>n. mal n" and prt: "prt AND NACL_ABI_PROT_EXEC = 0"
    and u: "2 ^ 12 dvd unat u" "unat u + unat soi \<le> hi" "hi \<le> 2 ^ 32"
  shows "grows (unat u) hi w (case r of Inl (_, w') \<Rightarrow> w' | Inr w' \<Rightarrow> w')"
proof (cases "n < soi")
  case True
  have len: "unat u + unat n + unat (soi - n) \<le> hi"
    using True u(2) by (simp add: word_less_nat_alt unat_minus_le word_le_nat_alt)
  obtain v log where h: "NaClHostDescMap px whole None (u + mem_start (app w) + n) (soi - n) prt
      (NACL_ABI_MAP_ANONYMOUS OR NACL_ABI_MAP_PRIVATE) 0 (hostlog w) = Inr (v, log)"
    and rest: "r = Inl (v, w\<lparr>hostlog := log\<rparr>) \<or> (\<exists>nap. r = Inr (w\<lparr>hostlog := log, app := nap\<rparr>) \<and>
      NaClCommonUtilUpdateAddrMap mal (app w) (u + mem_start (app w) + n) (soi - n) (NaClProtMap prt) None 0 0 False
        = Inr nap)"
    using run True by (auto simp: mmap_zero_fill_def Let_def rbind_eq_Inr split: if_splits)
  from anon_part [OF h ok(1) len u(3)] have log: "grows (unat u) hi w (w\<lparr>hostlog := log\<rparr>)" .
  from rest show ?thesis
  proof (elim disjE exE conjE)
    fix nap
    assume "r = Inr (w\<lparr>hostlog := log, app := nap\<rparr>)"
      "NaClCommonUtilUpdateAddrMap mal (app w) (u + mem_start (app w) + n) (soi - n) (NaClProtMap prt) None 0 0 False
         = Inr nap"
    with anon_entry [where w = "w\<lparr>hostlog := log\<rparr>"] ok u len ProtMap_not_exec [OF prt] log
    show ?thesis by (auto intro: grows_trans)
  qed (simp add: log)
next
  case False
  with run ok(1) show ?thesis by (auto simp: mmap_zero_fill_def grows_refl)
qed

lemma mmap_inaccessible_step:
  assumes run: "mmap_inaccessible px mal whole w (u + mem_start (app w)) soi n = Inr w'"
    and ok: "sys_ok (app w)" "\<forall>n. mal n"
    and u: "2 ^ 12 dvd unat u" "unat u + unat n \<le> hi" "hi \<le> 2 ^ 32"
  shows "grows (unat u) hi w w'"
proof (cases "soi < n")
  case True
  have len: "unat u + unat soi + unat (n - soi) \<le> hi"
    using True u(2) by (simp add: word_less_nat_alt unat_minus_le word_le_nat_alt)
  obtain v log nap where h: "NaClHostDescMap px whole None (u + mem_start (app w) + soi) (n - soi) NACL_ABI_PROT_NONE
      (NACL_ABI_MAP_ANONYMOUS OR NACL_ABI_MAP_PRIVATE) 0 (hostlog w) = Inr (v, log)"
    "NaClCommonUtilUpdateAddrMap mal (app w) (u + mem_start (app w) + soi) (n - soi) PROT_NONE None 0 0 False = Inr nap"
    "w' = w\<lparr>hostlog := log, app := nap\<rparr>"
    using run True by (auto simp: mmap_inaccessible_def Let_def rbind_eq_Inr split: if_splits)
  from anon_part [OF h(1) ok(1) len u(3)] have log: "grows (unat u) hi w (w\<lparr>hostlog := log\<rparr>)" .
  with anon_entry [where w = "w\<lparr>hostlog := log\<rparr>"] h(2) ok u len
  show ?thesis unfolding h(3) by (auto simp: PROT_NONE_def intro: grows_trans)
next
  case False
  with run ok(1) show ?thesis by (simp add: mmap_inaccessible_def grows_refl)
qed

section \<open>Mapping and unmapping\<close>

lemma mmap_return_world: "mmap_return v w = Inr (r, w') \<Longrightarrow> w' = w"
  by (simp add: mmap_return_def split: if_splits)

lemma no_wrap: "\<not> u + n < u \<Longrightarrow> unat (u + n) = unat u + unat n" for u n :: u64
  using unat_lt64 [of n] by (auto simp: unat_plus_if' word_less_nat_alt split: if_splits)

lemma above_code: "\<not> AddrRangeContainsExecutablePages nap u \<Longrightarrow> unat (dynamic_text_end nap) \<le> unat u"
  using alloc.trunc_le [of u] by (simp add: AddrRangeContainsExecutablePages_def word_le_nat_alt word_less_nat_alt)

lemma mmap_at_step:
  assumes run: "mmap_at px mal d dsc w u n soi len prt flags off fs fb = Inr (r, w')"
    and ok: "sys_ok (app w)" "\<forall>n. mal n" and u: "2 ^ 12 dvd unat u" "n \<le> len" "soi \<le> len"
  shows "grows (unat (dynamic_text_end (app w))) (2 ^ 32) w w'"
proof (cases "w' = w")
  case True
  then show ?thesis by (simp add: grows_refl [OF ok(1)])
next
  case False
  let ?sys = "u + mem_start (app w)"
  define p f where "p = prt AND NOT NACL_ABI_PROT_EXEC" and "f = flags OR NACL_ABI_MAP_FIXED"
  obtain whole v1 w1 r2 where r: "\<not> u + len < u" "\<not> push_bit 32 1 < u + len"
    "\<not> AddrRangeContainsExecutablePages (app w) u"
    "mmap_main px mal whole d dsc w ?sys n p f off fs fb = Inr (v1, w1)"
    "mmap_zero_fill px mal whole w1 ?sys n soi p = Inr r2"
    "(case r2 of Inl (v2, w2) \<Rightarrow> mmap_return v2 w2
      | Inr w2 \<Rightarrow> rbind (mmap_inaccessible px mal whole w2 ?sys soi len) (mmap_return u)) = Inr (r, w')"
    using run False ok(1) user_sys_user(1) [OF sys_ok_app [OF ok(1)]]
    by (auto simp: mmap_at_def Let_def rbind_eq_Inr sys_ok_def p_def f_def dest: mmap_return_world
        split: if_splits)
  have p: "p AND NACL_ABI_PROT_EXEC = 0" by (simp add: p_def and.assoc)
  have f: "f AND NACL_ABI_MAP_FIXED \<noteq> 0" by (simp add: f_def bit.conj_disj_distrib2 or_eq_0_iff abi_defs)
  have len: "unat u + unat len \<le> 2 ^ 32" using r(2) no_wrap [OF r(1)] by (simp add: word_less_nat_alt)
  then have le: "unat u + unat n \<le> 2 ^ 32" "unat u + unat soi \<le> 2 ^ 32" using u(2,3) by (simp_all add: word_le_nat_alt)
  have g1: "grows (unat u) (2 ^ 32) w w1" by (rule mmap_main_step [OF r(4) ok p f u(1) le(1)]) simp
  note ok1 = grows_ok [OF g1 ok(1)] and ms1 = grows_frame(10) [OF g1]
  have "grows (unat u) (2 ^ 32) w1 (case r2 of Inl (_, w2) \<Rightarrow> w2 | Inr w2 \<Rightarrow> w2)"
    by (rule mmap_zero_fill_step [OF _ ok1 ok(2) p u(1) le(2)]) (use r(5) ms1 in auto)
  then have g2: "grows (unat u) (2 ^ 32) w (case r2 of Inl (_, w2) \<Rightarrow> w2 | Inr w2 \<Rightarrow> w2)"
    using g1 by (rule grows_trans [rotated])
  have "grows (unat u) (2 ^ 32) w w'"
  proof (cases r2)
    case (Inr w2)
    note ok2 = grows_ok [OF g2 ok(1)] and ms2 = grows_frame(10) [OF g2]
    have "grows (unat u) (2 ^ 32) w2 w'"
      by (rule mmap_inaccessible_step [OF _ _ ok(2) u(1) len]) (use r(6) ms2 ok2 Inr in \<open>auto simp: rbind_eq_Inr dest: mmap_return_world\<close>)
    with g2 Inr show ?thesis by (auto intro: grows_trans)
  qed (use r(6) g2 in \<open>auto dest: mmap_return_world\<close>)
  then show ?thesis by (rule grows_mono) (use above_code [OF r(3)] in auto)
qed

lemma choose_spec:
  assumes run: "mmap_choose vm flags u len = Inr (c, vm')" and inv: "vm_inv vm" and u: "2 ^ 16 dvd unat u" "unat len \<le> 2 ^ 32"
  shows "vm_inv vm' \<and> vm_pages vm' = vm_pages vm \<and> (\<forall>a. c = Some a \<longrightarrow> 2 ^ 12 dvd unat a)"
proof -
  define np where "np = drop_bit NACL_PAGESHIFT len"
  have np: "unat np \<le> 2 ^ 31" using u(2) by (simp add: np_def drop_bit_eq_div unat_div config_defs)
  have shift: "2 ^ 12 dvd unat (push_bit NACL_PAGESHIFT x)" for x :: u64
    by (simp add: config_defs push_bit_eq_mult unat_word_ariths dvd_mod)
  have u12: "2 ^ 12 dvd unat u" using u(1) by (rule dvd_trans [rotated]) (simp add: le_imp_power_dvd)
  have any: "vm_inv m2 \<and> vm_pages m2 = vm_pages m1" if "NaClVmmapFindMapSpace m1 np = Inr (x, m2)" "vm_inv m1" for m1 m2 x
    using FindMapSpace_spec [OF that(2) np] that(1) by auto
  have hint: "vm_inv m2 \<and> vm_pages m2 = vm_pages m1" if "NaClVmmapFindMapSpaceAboveHint m1 u np = Inr (x, m2)" "vm_inv m1"
    for m1 m2 x using FindMapSpaceAboveHint_spec [OF that(2) np, of u] that(1) by auto
  from run show ?thesis
    using inv u12 any hint shift unfolding mmap_choose_def Let_def np_def [symmetric]
    by (auto simp: rbind_eq_Inr split: if_splits)
qed

lemma choose_step:
  "mmap_choose vm flags u len = Inr (c, vm') \<Longrightarrow> vm_inv vm \<Longrightarrow> 2 ^ 16 dvd unat u \<Longrightarrow> unat len \<le> 2 ^ 32 \<Longrightarrow> map_step lo vm vm'"
  using choose_spec by (simp add: map_step_def)

lemma size_min_le: "size_min a b \<le> a" 
  by (simp add: size_min_def word_le_nat_alt word_less_nat_alt)

lemma MmapIntern_cases:
  assumes run: "NaClCommonSysMmapIntern px mal w start n prt flags d off = Inr (r, w')"
  obtains (early) "w' = w"
  | (late) fl c vm ddesc dsc hr ar fs fb where "NaClIsAllocPageMultiple start"
      "mmap_choose (mem_map (app w)) fl start (NaClRoundAllocPage n) = Inr (c, vm)"
      "case c of None \<Rightarrow> w' = w\<lparr>app := (app w)\<lparr>mem_map := vm\<rparr>\<rparr>
        | Some u \<Rightarrow> mmap_at px mal ddesc dsc (w\<lparr>app := (app w)\<lparr>mem_map := vm\<rparr>\<rparr>) u
            (size_min (NaClRoundAllocPage n) hr) (size_min (NaClRoundAllocPage n) ar)
            (NaClRoundAllocPage n) prt fl off fs fb = Inr (r, w')"
proof (cases "w' = w")
  case False
  define fl where "fl = (if flags AND NOT mmap_allowed_flags \<noteq> 0 then flags AND mmap_allowed_flags else flags)"
  define ddesc where "ddesc = (if fl AND NACL_ABI_MAP_ANONYMOUS \<noteq> 0 then None else NaClGetDesc (app w) d)"
  define dsc where "dsc = map_option (\<lambda>i. descs w ! i) ddesc"
  define len where "len = NaClRoundAllocPage n"
  let ?w1 = "\<lambda>vm. w\<lparr>app := (app w)\<lparr>mem_map := vm\<rparr>\<rparr>"
  obtain sizes where st: "NaClIsAllocPageMultiple start" "mmap_file_sizes px dsc off = Inr sizes"
    and rest: "(case sizes of Inl map_result \<Rightarrow> mmap_return map_result w
       | Inr (file_size, file_bytes, hr, ar) \<Rightarrow>
           rbind (mmap_choose (mem_map (app w)) fl start len) (\<lambda>(chosen, vm).
           case chosen of
             None \<Rightarrow> mmap_return (word_of_int (- NACL_ABI_ENOMEM)) (?w1 vm)
           | Some usraddr \<Rightarrow>
               mmap_at px mal ddesc dsc (?w1 vm) usraddr (size_min len hr) (size_min len ar) len prt fl off
                 file_size file_bytes)) = Inr (r, w')"
    using run False unfolding NaClCommonSysMmapIntern_def Let_def fl_def [symmetric] ddesc_def [symmetric]
      dsc_def [symmetric] len_def [symmetric]
    by (auto simp: rbind_eq_Inr dest: mmap_return_world split: if_split_asm)
  show ?thesis
  proof (cases sizes)
    case (Inl v)
    with rest False show ?thesis by (auto dest: mmap_return_world)
  next
    case (Inr sz)
    obtain fs fb hr ar where sz: "sz = (fs, fb, hr, ar)" by (cases sz)
    with Inr rest obtain c vm where c: "mmap_choose (mem_map (app w)) fl start len = Inr (c, vm)"
      "(case c of None \<Rightarrow> mmap_return (word_of_int (- NACL_ABI_ENOMEM)) (?w1 vm)
        | Some u \<Rightarrow> mmap_at px mal ddesc dsc (?w1 vm) u (size_min len hr) (size_min len ar) len prt fl off fs fb)
        = Inr (r, w')"
      by (auto simp: rbind_eq_Inr)
    show ?thesis
      by (rule late [OF st(1) c(1) [unfolded len_def]], cases c) (use c(2) in \<open>auto simp: len_def dest: mmap_return_world\<close>)
  qed
qed

lemma MmapIntern_step:
  assumes run: "NaClCommonSysMmapIntern px mal w start n prt flags d off = Inr (r, w')"
    and ok: "sys_ok (app w)" "\<forall>n. mal n" and n: "unat n \<le> 2 ^ 32"
  shows "grows (unat (dynamic_text_end (app w))) (2 ^ 32) w w'"
proof -
  have "unat (NaClRoundAllocPage n) = round_up 16 (unat n)" using n by (intro alloc.unat_rnd) simp
  then have len: "unat (NaClRoundAllocPage n) \<le> 2 ^ 32" using round_up_least [of 16 "2 ^ 32"] n by simp
  have inv: "vm_inv (mem_map (app w))" using ok(1) by (simp add: sys_ok_def)
  from run show ?thesis
  proof (cases rule: MmapIntern_cases)
    case early
    then show ?thesis by (simp add: grows_refl [OF ok(1)])
  next
    case (late fl c vm ddesc dsc hr ar fs fb)
    have st16: "2 ^ 16 dvd unat start" using late(1) alloc.is_mult_dvd by blast
    let ?w1 = "w\<lparr>app := (app w)\<lparr>mem_map := vm\<rparr>\<rparr>"
    have g1: "grows (unat (dynamic_text_end (app w))) (2 ^ 32) w ?w1"
      by (rule grows_app [OF ok(1) choose_step [OF late(2) inv st16 len]])
    show ?thesis
    proof (cases c)
      case None
      with late(3) g1 show ?thesis by simp
    next
      case (Some u)
      then have "2 ^ 12 dvd unat u" using choose_spec [OF late(2) inv st16 len] by blast
      then have "grows (unat (dynamic_text_end (app ?w1))) (2 ^ 32) ?w1 w'"
        using late(3) Some mmap_at_step [OF _ grows_ok [OF g1 ok(1)] ok(2) _ size_min_le size_min_le] by auto
      with g1 show ?thesis by (auto intro: grows_trans)
    qed
  qed
qed

lemma Mmap_step:
  assumes "NaClSysMmap px mal w start n prt flags d offp = Inr (r, w')"
    and "sys_ok (app w)" "\<forall>n. mal n" "unat n \<le> 2 ^ 32"
  shows "grows (unat (dynamic_text_end (app w))) (2 ^ 32) w w'"
  using assms(1) MmapIntern_step [OF _ assms(2-4)] grows_refl [OF assms(2)]
  by (auto simp: NaClSysMmap_def Let_def split: if_splits)

lemma Munmap_step:
  assumes run: "NaClSysMunmap px mal w start n0 = Inr (r, w')" and ok: "sys_ok (app w)" "\<forall>n. mal n"
  shows "grows (unat (dynamic_text_end (app w))) (2 ^ 32) w w'"
proof (cases "w' = w")
  case True
  then show ?thesis by (simp add: grows_refl [OF ok(1)])
next
  case False
  define n where "n = NaClRoundAllocPage n0"
  define sysaddr where "sysaddr = NaClUserToSysAddrRange (app w) start n"
  define fl where "fl = MAP_PRIVATE OR MAP_ANONYMOUS OR MAP_FIXED"
  define w1 where "w1 = w\<lparr>hostlog := hostlog w @ [Mmap sysaddr n PROT_NONE fl (- 1) 0]\<rparr>"
  obtain w2 where r: "NaClIsAllocPageMultiple start" "sysaddr \<noteq> kNaClBadAddress"
    "\<not> AddrRangeContainsExecutablePages (app w) start" "w2 = w \<or> w2 = w1"
    "w' = w2 \<or> (\<exists>u vm. NaClSysToUser (app w) sysaddr = Inr u \<and>
       NaClVmmapUpdate mal (mem_map (app w)) (drop_bit NACL_PAGESHIFT u) (drop_bit NACL_PAGESHIFT n) 0 None True = Inr vm \<and>
       w' = w2\<lparr>app := (app w)\<lparr>mem_map := vm\<rparr>\<rparr>)"
    using run False
    by (auto simp: NaClSysMunmap_def Let_def rbind_eq_Inr n_def sysaddr_def fl_def w1_def
        split: if_splits option.splits sum.splits)
  have fit: "unat start + unat n < 2 ^ 32" and sys: "unat sysaddr = unat (mem_start (app w)) + unat start"
    using nap.accepts [OF sys_ok_app [OF ok(1)]] nap.result [OF sys_ok_app [OF ok(1)]] r(2) ok(1)
    by (auto simp: sysaddr_def sys_ok_def)
  have lo: "unat (dynamic_text_end (app w)) \<le> unat start" by (rule above_code [OF r(3)])
  have "grows (unat (dynamic_text_end (app w))) (2 ^ 32) w w1"
    unfolding w1_def using sys fit lo
    by (intro grows_log [OF ok(1)] extends_one) (simp add: PROT_NONE_def)
  then have g: "grows (unat (dynamic_text_end (app w))) (2 ^ 32) w w2" using r(4) grows_refl [OF ok(1)] by auto
  have st: "2 ^ 12 dvd unat start"
    using r(1) unfolding alloc.is_mult_dvd by (rule dvd_trans [rotated]) (simp add: le_imp_power_dvd)
  have "grows (unat (dynamic_text_end (app w))) (2 ^ 32) w2 w'"
    if u: "NaClSysToUser (app w) sysaddr = Inr u" "w' = w2\<lparr>app := (app w)\<lparr>mem_map := vm\<rparr>\<rparr>"
      "NaClVmmapUpdate mal (mem_map (app w)) (drop_bit NACL_PAGESHIFT u) (drop_bit NACL_PAGESHIFT n) 0 None True = Inr vm"
    for u vm
  proof -
    have "unat u + unat (mem_start (app w)) = unat sysaddr"
      using user_sys_user(3) [OF sys_ok_app [OF ok(1)] u(1)] ok(1) unat_sys0 [OF ok(1), of u] by (simp add: sys_ok_def)
    then have "u = start" using sys by (simp add: word_unat_eq_iff)
    moreover have "unat (dynamic_text_end (app w)) \<le> unat start div 4096 * 4096" using st lo by simp
    ultimately have "map_step (unat (dynamic_text_end (app w))) (mem_map (app w)) vm"
      using ok fit by (intro Update_step [OF u(3)]) (auto simp: sys_ok_def drop_bit_eq_div unat_div config_defs)
    then show ?thesis using grows_app [of w2] grows_ok [OF g ok(1)] r(4) u(2) by (auto simp: w1_def)
  qed
  with r(5) g show ?thesis by (auto intro: grows_trans)
qed

section \<open>The break\<close>

lemma order_ents:
  assumes "\<forall>e \<in> set es. ent_ok e" "sorted_wrt (\<lambda>e f. e_end e \<le> e_start f) es"
  shows "ents_ok es \<and> sorted (map e_start es)"
  using assms
proof (induction es)
  case (Cons e es)
  have lt: "e_start e < e_start f" if "f \<in> set es" for f using Cons.prems that by (force simp: ent_ok_def)
  then have "e \<notin> set es" by blast
  with Cons lt show ?case by (fastforce simp: ents_ok_def apart_def less_imp_le)
qed (simp add: ents_ok_def)

text \<open>Extending an entry up to a page below the next entry.\<close>

lemma extend_entry:
  assumes inv: "vm_inv s" "is_sorted s" and k: "k < nvalid s" and e: "ents s ! k = e"
    and l: "e_end e \<le> unat l" "unat l < 2 ^ 31" and nxt: "Suc k < nvalid s \<Longrightarrow> unat l < e_start (ents s ! Suc k)"
  defines "s' \<equiv> set_entry s k (e\<lparr>npages := l - page_num e + 1\<rparr>)"
  shows "vm_inv s'" "vm_pages s' p = (if e_end e \<le> unat p \<and> unat p \<le> unat l then Some (page_of e p) else vm_pages s p)"
proof -
  let ?e = "e\<lparr>npages := l - page_num e + 1\<rparr>" and ?es = "ents s"
  have ok: "ents_ok ?es" "sorted_wrt (\<lambda>e f. e_end e \<le> e_start f) ?es" and sh: "vm_shape s"
    using inv sorted_order by (auto simp: vm_inv_def)
  have n: "length ?es = nvalid s" using sh by simp
  have eok: "ent_ok e" using ok(1) k e n by (auto simp: ents_ok_def)
  have "unat (l - page_num e) = unat l - e_start e"
    using eok l by (simp add: e_start_def unat_minus_le word_le_nat_alt ent_ok_def)
  moreover from this have "unat (l - page_num e + 1) = unat (l - page_num e) + unat (1 :: u64)"
    using l(2) by (intro unat_plus_nowrap) simp
  ultimately have se: "e_start ?e = e_start e" "e_end ?e = Suc (unat l)"
    using eok l by (simp_all add: e_start_def e_end_def ent_ok_def)
  have e'ok: "ent_ok ?e" using eok se l by (simp add: ent_ok_def)
  have s': "vm_shape s'" "ents s' = ?es[k := ?e]" unfolding s'_def by (rule set_entry_shape [OF sh k])+
  have above: "unat l < e_start (?es ! j)" if "k < j" "j < nvalid s" for j
  proof (cases "j = Suc k")
    case False
    then have "e_end (?es ! Suc k) \<le> e_start (?es ! j)" "ent_ok (?es ! Suc k)"
      using that ok n by (auto simp: sorted_wrt_iff_nth_less ents_ok_def)
    with nxt that False show ?thesis by (simp add: ent_ok_def)
  qed (use nxt that in simp)
  have "sorted_wrt (\<lambda>e f. e_end e \<le> e_start f) (?es[k := ?e])"
    using ok(2) above k e n se by (auto simp: sorted_wrt_iff_nth_less nth_list_update Suc_le_eq)
  moreover have "\<forall>f \<in> set (?es[k := ?e]). ent_ok f"
    using ok(1) e'ok set_update_subset_insert [of ?es k ?e] by (auto simp: ents_ok_def)
  ultimately have ok': "ents_ok (ents s')" "sorted (map e_start (ents s'))" using order_ents s'(2) by auto
  with s'(1) show "vm_inv s'" by (simp add: vm_inv_def)
  have cov: "covers ?e p \<longleftrightarrow> e_start e \<le> unat p \<and> unat p \<le> unat l" by (simp add: covers_def se less_Suc_eq_le)
  have pg: "page_of ?e p = page_of e p" by (simp add: page_of_def)
  have in': "?e \<in> set (?es[k := ?e])" and in1: "e \<in> set ?es" using k n e by (auto simp: set_update_memI)
  show "vm_pages s' p = (if e_end e \<le> unat p \<and> unat p \<le> unat l then Some (page_of e p) else vm_pages s p)"
  proof (cases "covers ?e p")
    case True
    then have "vm_pages s' p = Some (page_of e p)"
      using pages_eq_Some [OF ok'(1)] in' pg s'(2) by (auto simp: vm_pages_def)
    moreover have "vm_pages s p = Some (page_of e p)" if "unat p < e_end e"
      using True that cov in1 pages_eq_Some [OF ok(1)] by (auto simp: vm_pages_def covers_def)
    ultimately show ?thesis using True cov by auto
  next
    case False
    have "vm_pages s' p = vm_pages s p"
      unfolding vm_pages_def
    proof (rule pages_eqI [OF ok'(1) ok(1)])
      have ne: "f = ?e \<or> (f \<in> set ?es)" if "f \<in> set (?es[k := ?e])" for f
        using that set_update_subset_insert [of ?es k ?e] by auto
      have "\<not> covers e p" using False cov l(1) by (auto simp: covers_def)
      then have "f \<in> set (?es[k := ?e])" if "f \<in> set ?es" "covers f p" for f
        using that e by (metis in_set_conv_nth length_list_update nth_list_update_neq)
      then show "(\<exists>e \<in> set (ents s'). covers e p \<and> x = page_of e p) \<longleftrightarrow> (\<exists>e \<in> set ?es. covers e p \<and> x = page_of e p)" for x
        using False ne s'(2) by metis
    qed
    then show ?thesis using False cov l eok by (auto simp: ent_ok_def)
  qed
qed

lemma FindPageIter_spec:
  assumes run: "NaClVmmapFindPageIter vm p = Inr iter" and inv: "vm_inv vm"
  shows "vm_inv (vmmap iter)" "is_sorted (vmmap iter)" "vm_pages (vmmap iter) = vm_pages vm"
    "\<not> NaClVmmapIterAtEnd iter \<Longrightarrow> deref (vmentry (vmmap iter)) (entry_ix iter) = Inr e \<Longrightarrow>
       entry_ix iter < nvalid (vmmap iter) \<and> ents (vmmap iter) ! entry_ix iter = e \<and> covers e p"
proof -
  obtain s where s: "NaClVmmapMakeSorted vm = Inr s" "vm_inv s" "is_sorted s" "mset (ents s) = mset (ents vm)"
    using MakeSorted_spec [OF inv] by metis
  obtain r where r: "find_page_ix s p = Inr r"
    "case r of None \<Rightarrow> \<forall>e \<in> set (ents s). \<not> covers e p
     | Some k \<Rightarrow> k < nvalid s \<and> vmentry s ! k = Some (ents s ! k) \<and> covers (ents s ! k) p"
    using find_page_ix_spec [OF s(2,3)] by blast
  have it: "iter = \<lparr>vmmap = s, entry_ix = (case r of None \<Rightarrow> nvalid s | Some k \<Rightarrow> k)\<rparr>"
    using run s(1) r(1) by (simp add: NaClVmmapFindPageIter_def)
  show "vm_inv (vmmap iter)" "is_sorted (vmmap iter)" using s it by simp_all
  show "vm_pages (vmmap iter) = vm_pages vm"
    using pages_mset [OF _ s(4)] s(2) it by (simp add: vm_pages_def vm_inv_def)
  show "entry_ix iter < nvalid (vmmap iter) \<and> ents (vmmap iter) ! entry_ix iter = e \<and> covers e p"
    if "\<not> NaClVmmapIterAtEnd iter" "deref (vmentry (vmmap iter)) (entry_ix iter) = Inr e"
    using that r(2) it s(2) deref_ents [of s]
    by (cases r) (auto simp: NaClVmmapIterAtEnd_def vm_inv_def)
qed

text \<open>The pages of the new break.\<close>

lemma break_pages:
  fixes nb :: u64
  assumes "0 < unat nb" "unat nb < 2 ^ 32"
  defines "l \<equiv> drop_bit NACL_PAGESHIFT (NaClRoundAllocPage nb - 1)"
  shows "unat l < 2 ^ 20" "unat (drop_bit NACL_PAGESHIFT (nb - 1)) \<le> unat l"
proof -
  have ru: "unat (NaClRoundAllocPage nb) = round_up 16 (unat nb)"
    using assms by (intro alloc.unat_rnd) simp
  have up: "round_up 16 (unat nb) \<le> 2 ^ 32" "unat nb \<le> round_up 16 (unat nb)"
    using assms(2) round_up_least [of 16 "2 ^ 32" "unat nb"] round_up_ge by simp_all
  have l: "unat l = (round_up 16 (unat nb) - 1) div 4096"
    using ru up assms(1) by (simp add: l_def drop_bit_eq_div unat_div config_defs unat_minus_le word_le_nat_alt)
  have "unat (drop_bit NACL_PAGESHIFT (nb - 1)) = (unat nb - 1) div 4096"
    using assms(1) by (simp add: drop_bit_eq_div unat_div config_defs unat_minus_le word_le_nat_alt)
  with l up show "unat (drop_bit NACL_PAGESHIFT (nb - 1)) \<le> unat l" by (simp add: div_le_mono)
  show "unat l < 2 ^ 20" using l up(1) by (simp add: less_mult_imp_div_less)
qed

lemma unat_shift: "unat p \<le> 2 ^ 20 \<Longrightarrow> unat (push_bit NACL_PAGESHIFT p) = unat p * 4096" for p :: u64
  by (simp add: config_defs push_bit_eq_mult unat_word_ariths)

lemma extend_break_step:
  assumes run: "extend_break px w iter e l nb = Inr w'"
    and ok: "sys_ok (app w)" "data_end (app w) \<le> nb" "unat nb < 2 ^ 32"
    and step: "map_step lo (mem_map (app w)) (set_entry (vmmap iter) (entry_ix iter) (e\<lparr>npages := l - page_num e + 1\<rparr>))"
    and e: "ent_ok e" "e_end e \<le> unat l" "unat l < 2 ^ 20" "lo \<le> e_end e * 4096"
  shows "grows lo (2 ^ 32) w w'"
proof -
  define vm where "vm = set_entry (vmmap iter) (entry_ix iter) (e\<lparr>npages := l - page_num e + 1\<rparr>)"
  define st where "st = push_bit NACL_PAGESHIFT (page_num e + npages e)"
  define len where "len = push_bit NACL_PAGESHIFT (l + 1) - st"
  let ?w1 = "w\<lparr>app := (app w)\<lparr>mem_map := vm\<rparr>\<rparr>"
  have g1: "grows lo (2 ^ 32) w ?w1" using step ok(1) by (simp add: grows_app vm_def)
  obtain whole w2 where x: "(if whole then Inr ?w1 else rbind (NaClUserToSys (app ?w1) st) (\<lambda>a.
      let prt = PROT_READ OR PROT_WRITE in
      if px_mprotect px a len prt \<noteq> None then Inl LogFatal
      else Inr (?w1\<lparr>hostlog := hostlog ?w1 @ [Mprotect a len prt]\<rparr>))) = Inr w2"
    and w': "w' = w2\<lparr>app := (app w2)\<lparr>break_addr := nb\<rparr>\<rparr>"
    using run unfolding extend_break_def Let_def vm_def [symmetric] st_def [symmetric] len_def [symmetric]
    by (auto simp: rbind_eq_Inr)
  have r: "w2 = ?w1 \<or> (\<exists>a prt. NaClUserToSys (app ?w1) st = Inr a \<and> prt = PROT_READ OR PROT_WRITE \<and>
      w2 = ?w1\<lparr>hostlog := hostlog w @ [Mprotect a len prt]\<rparr>)"
    using x by (auto simp: Let_def rbind_eq_Inr split: if_splits)
  have st: "unat st = e_end e * 4096" using e unat_ent_end [OF e(1)] by (simp add: st_def unat_shift)
  have l1: "unat (l + 1) = unat l + 1"
    using e(3) unat_plus_nowrap [of l 1] by simp
  then have "unat (push_bit NACL_PAGESHIFT (l + 1)) = (unat l + 1) * 4096" using e(3) by (simp add: unat_shift)
  then have len: "unat st + unat len \<le> 2 ^ 32"
    using st e by (simp add: len_def unat_minus_le word_le_nat_alt)
  have "grows lo (2 ^ 32) ?w1 w2"
    using r
  proof (elim disjE exE conjE)
    fix a prt
    assume a: "NaClUserToSys (app ?w1) st = Inr a" and prt: "prt = PROT_READ OR PROT_WRITE"
      and w2: "w2 = ?w1\<lparr>hostlog := hostlog w @ [Mprotect a len prt]\<rparr>"
    have "a = st + mem_start (app w)" using user_sys_user(1) [OF sys_ok_app [OF grows_ok [OF g1 ok(1)]]] a by auto
    then have "unat a = unat (mem_start (app w)) + unat st" using unat_sys0 [OF ok(1), of st] len by simp
    then have "call_ok (unat (mem_start (app w)) + lo) (unat (mem_start (app w)) + 2 ^ 32) (Mprotect a len prt)"
      using len st e(4) prt by (simp add: PROT_READ_def PROT_WRITE_def PROT_EXEC_def)
    then show ?thesis
      unfolding w2 using grows_ok [OF g1 ok(1)] grows_log [of ?w1] extends_one by fastforce
  qed (use grows_ok [OF g1 ok(1)] in \<open>simp add: grows_refl\<close>)
  note g2 = grows_trans [OF g1 this]
  have "grows lo (2 ^ 32) w2 w'"
    unfolding w' using ok grows_ok [OF g2 ok(1)] grows_frame(12) [OF g2] by (intro grows_break) simp_all
  with g2 show ?thesis by (rule grows_trans)
qed

lemma extend_map_step:
  assumes it: "NaClVmmapFindPageIter (mem_map nap) p0 = Inr iter" "\<not> NaClVmmapIterAtEnd iter"
      "deref (vmentry (vmmap iter)) (entry_ix iter) = Inr e"
    and ok: "sys_ok nap" "p0 = drop_bit NACL_PAGESHIFT (break_addr nap - 1)"
    and l: "e_end e \<le> unat l" "unat l < 2 ^ 20"
    and nxt: "\<And>f. \<not> NaClVmmapIterAtEnd (NaClVmmapIterIncr iter) \<Longrightarrow>
       deref (vmentry (vmmap iter)) (Suc (entry_ix iter)) = Inr f \<Longrightarrow> l < page_num f"
  shows "map_step (unat (dynamic_text_end nap)) (vmmap iter)
           (set_entry (vmmap iter) (entry_ix iter) (e\<lparr>npages := l - page_num e + 1\<rparr>))"
    and "ent_ok e" "unat (dynamic_text_end nap) \<le> e_end e * 4096"
proof -
  have inv: "vm_inv (mem_map nap)" using ok(1) by (simp add: sys_ok_def)
  note f = FindPageIter_spec [OF it(1) inv]
  let ?s = "vmmap iter" and ?k = "entry_ix iter" and ?T = "unat (dynamic_text_end nap)"
  have k: "?k < nvalid ?s" "ents ?s ! ?k = e" "covers e p0" using f(4) [OF it(2,3)] by auto
  have sh: "vm_shape ?s" "ents_ok (ents ?s)" using f(1) by (simp_all add: vm_inv_def)
  show eok: "ent_ok e" using sh k ents_ok_nth by fastforce
  have T: "?T < unat (break_addr nap)" "4096 dvd ?T"
    using ok(1) by (auto simp: sys_ok_def word_less_nat_alt word_le_nat_alt)
  have "unat p0 = (unat (break_addr nap) - 1) div 4096"
    using T(1) ok(2) by (simp add: drop_bit_eq_div unat_div config_defs unat_minus_le word_le_nat_alt)
  moreover have "?T div 4096 * 4096 = ?T" using T(2) by simp
  moreover have "?T div 4096 \<le> (unat (break_addr nap) - 1) div 4096" using T(1) by (intro div_le_mono) simp
  ultimately have p0: "?T \<le> unat p0 * 4096" by (metis mult_le_mono1)
  then show e4: "?T \<le> e_end e * 4096" using k(3) by (simp add: covers_def)
  have "vm_pages (mem_map nap) p0 = Some (page_of e p0)"
    using f(3) k pages_eq_Some [OF sh(2), of p0] sh(1) by (auto simp: vm_pages_def)
  moreover have "not_exec (vm_pages (mem_map nap) p0)" using ok(1) p0 by (simp add: sys_ok_def)
  ultimately have nx: "not_exec (Some (page_of e p))" for p by (simp add: not_exec_def page_of_def)
  have "unat l < e_start (ents ?s ! Suc ?k)" if "Suc ?k < nvalid ?s"
    using nxt [of "ents ?s ! Suc ?k"] deref_ents [OF sh(1) that] that
    by (simp add: NaClVmmapIterAtEnd_def NaClVmmapIterIncr_def word_less_nat_alt e_start_def)
  note x = extend_entry [OF f(1,2) k(1,2) l(1) _ this]
  have "?T \<le> unat p * 4096" if "e_end e \<le> unat p" for p :: u64 using that e4 by simp
  then show "map_step ?T ?s (set_entry ?s ?k (e\<lparr>npages := l - page_num e + 1\<rparr>))"
    using x nx l(2) by (auto simp: map_step_def)
qed

lemma Sysbrk_cases:
  assumes "NaClSysSysbrk px w nb = Inr (r, w')"
  obtains (same) "w' = w"
  | (shrink) "NaClUserToSysAddr (app w) nb \<noteq> kNaClBadAddress" "data_end (app w) \<le> nb"
      "w' = w\<lparr>app := (app w)\<lparr>break_addr := nb\<rparr>\<rparr>"
  | (found) iter e where "NaClUserToSysAddr (app w) nb \<noteq> kNaClBadAddress" "data_end (app w) \<le> nb"
      "NaClVmmapFindPageIter (mem_map (app w)) (drop_bit NACL_PAGESHIFT (break_addr (app w) - 1)) = Inr iter"
      "\<not> NaClVmmapIterAtEnd iter" "deref (vmentry (vmmap iter)) (entry_ix iter) = Inr e"
      "brk_at_entry px (w\<lparr>app := (app w)\<lparr>mem_map := vmmap iter\<rparr>\<rparr>) iter e nb = Inr w'"
proof (cases "NaClUserToSysAddr (app w) nb = kNaClBadAddress \<or> nb < data_end (app w)")
  case True
  then have "w' = w" using assms unfolding NaClSysSysbrk_def Let_def by (elim disjE) (simp_all split: if_split_asm)
  then show ?thesis by (rule same)
next
  case False
  then have pre: "NaClUserToSysAddr (app w) nb \<noteq> kNaClBadAddress" "\<not> nb < data_end (app w)" by blast+
  then have le: "data_end (app w) \<le> nb" by (simp only: not_less)
  show ?thesis
  proof (cases "nb \<le> break_addr (app w)")
    case True
    then have "w' = w\<lparr>app := (app w)\<lparr>break_addr := nb\<rparr>\<rparr>"
      using assms pre by (simp add: NaClSysSysbrk_def Let_def)
    then show ?thesis by (rule shrink [OF pre(1) le])
  next
    case False
    obtain iter where it: "\<not> NaClVmmapIterAtEnd iter"
      "NaClVmmapFindPageIter (mem_map (app w)) (drop_bit NACL_PAGESHIFT (break_addr (app w) - 1)) = Inr iter"
      "rbind (deref (vmentry (vmmap iter)) (entry_ix iter)) (\<lambda>ent.
         rbind (brk_at_entry px (w\<lparr>app := (app w)\<lparr>mem_map := vmmap iter\<rparr>\<rparr>) iter ent nb)
           (\<lambda>w. Inr (ucast (break_addr (app w)), w))) = Inr (r, w')"
      using assms unfolding NaClSysSysbrk_def Let_def if_not_P [OF pre(1)] if_not_P [OF pre(2)] if_not_P [OF False]
      unfolding rbind_eq_Inr [of "NaClUserToSys _ _"] rbind_eq_Inr [of "NaClVmmapFindPageIter _ _"]
      by (auto split: if_split_asm)
    then obtain e where "deref (vmentry (vmmap iter)) (entry_ix iter) = Inr e"
      "brk_at_entry px (w\<lparr>app := (app w)\<lparr>mem_map := vmmap iter\<rparr>\<rparr>) iter e nb = Inr w'"
      by (auto simp: rbind_eq_Inr)
    then show ?thesis by (rule found [OF pre(1) le it(2,1)])
  qed
qed

lemma brk_at_entry_step:
  assumes run: "brk_at_entry px w iter e nb = Inr w'"
    and it: "NaClVmmapFindPageIter (mem_map nap) (drop_bit NACL_PAGESHIFT (break_addr nap - 1)) = Inr iter"
      "\<not> NaClVmmapIterAtEnd iter" "deref (vmentry (vmmap iter)) (entry_ix iter) = Inr e"
    and w: "app w = nap\<lparr>mem_map := vmmap iter\<rparr>" and ok: "sys_ok nap" "sys_ok (app w)"
    and nb: "data_end nap \<le> nb" "0 < unat nb" "unat nb < 2 ^ 32"
  shows "grows (unat (dynamic_text_end nap)) (2 ^ 32) w w'"
proof -
  define l where "l = drop_bit NACL_PAGESHIFT (NaClRoundAllocPage nb - 1)"
  consider (within) "w' = w\<lparr>app := (app w)\<lparr>break_addr := nb\<rparr>\<rparr>" | (into) "w' = w"
    | (ext) "page_num e + npages e \<le> drop_bit NACL_PAGESHIFT (nb - 1)" "brk_runs_into iter l = Inr False"
        "extend_break px w iter e l nb = Inr w'"
    using run unfolding brk_at_entry_def Let_def l_def [symmetric]
    by (auto simp: rbind_eq_Inr not_less split: if_split_asm)
  then show ?thesis
  proof cases
    case within
    show ?thesis unfolding within by (rule grows_break [OF ok(2)]) (use nb w in simp_all)
  next
    case into
    then show ?thesis by (simp add: grows_refl ok(2))
  next
    case ext
    have eok: "ent_ok e"
      using FindPageIter_spec [OF it(1)] it(2,3) ok(1) ents_ok_nth [of "ents (vmmap iter)" "entry_ix iter"]
      by (auto simp: sys_ok_def vm_inv_def)
    note l = break_pages [OF nb(2,3), folded l_def]
    have le: "e_end e \<le> unat l" using ext(1) l(2) eok by simp
    have nxt: "l < page_num f" if "\<not> NaClVmmapIterAtEnd (NaClVmmapIterIncr iter)"
      "deref (vmentry (vmmap iter)) (Suc (entry_ix iter)) = Inr f" for f
      using ext(2) that by (auto simp: brk_runs_into_def NaClVmmapIterIncr_def Let_def not_le)
    note x = extend_map_step [OF it ok(1) refl le l(1) nxt]
    show ?thesis
      by (rule extend_break_step [OF ext(3) ok(2) _ nb(3) _ x(2) le l(1) x(3)]) (use x(1) nb(1) w in simp_all)
  qed
qed

lemma Sysbrk_step:
  assumes run: "NaClSysSysbrk px w nb = Inr (r, w')" and ok: "sys_ok (app w)"
  shows "grows (unat (dynamic_text_end (app w))) (2 ^ 32) w w'"
proof -
  have nb: "0 < unat nb \<and> unat nb < 2 ^ 32" if "NaClUserToSysAddr (app w) nb \<noteq> kNaClBadAddress"
    using that ok by (auto simp: NaClUserToSysAddr_def sys_ok_def word_le_nat_alt unat_gt_0 split: if_splits)
  from run show ?thesis
  proof (cases rule: Sysbrk_cases)
    case same
    then show ?thesis by (simp add: grows_refl ok)
  next
    case shrink
    then show ?thesis using nb by (simp add: grows_break ok)
  next
    case (found iter e)
    let ?w1 = "w\<lparr>app := (app w)\<lparr>mem_map := vmmap iter\<rparr>\<rparr>"
    have "map_step (unat (dynamic_text_end (app w))) (mem_map (app w)) (vmmap iter)"
      using FindPageIter_spec [OF found(3)] ok by (simp add: map_step_def sys_ok_def)
    then have g: "grows (unat (dynamic_text_end (app w))) (2 ^ 32) w ?w1" by (rule grows_app [OF ok])
    have "grows (unat (dynamic_text_end (app w))) (2 ^ 32) ?w1 w'"
      by (rule brk_at_entry_step [OF found(6,3-5) _ ok grows_ok [OF g ok] found(2)]) (use nb [OF found(1)] in simp_all)
    with g show ?thesis by (rule grows_trans)
  qed
qed

end
