(* ===== verification/Runtime.thy ===== *)
theory Runtime
  imports SyscallSafety
begin

text \<open>
  The user program and the runtime together: the user program changes its memory and registers as
  it likes and calls the runtime through the hook. What holds in every state such a run can reach.
\<close>

section \<open>What one system call keeps\<close>

text \<open>The places of the code and the data, which no call moves.\<close>

definition same_layout :: "NaClApp \<Rightarrow> NaClApp \<Rightarrow> bool" where
  "same_layout nap nap' \<longleftrightarrow>
     addr_bits nap' = addr_bits nap \<and> mem_start nap' = mem_start nap \<and>
     static_text_end nap' = static_text_end nap \<and> dynamic_text_start nap' = dynamic_text_start nap \<and>
     dynamic_text_end nap' = dynamic_text_end nap \<and> data_end nap' = data_end nap \<and>
     bundle_size nap' = bundle_size nap"

definition safe_step :: "world \<Rightarrow> world \<Rightarrow> bool" where
  "safe_step w w' \<longleftrightarrow> sys_ok (app w') \<and> same_layout (app w) (app w') \<and>
     map_step (unat (dynamic_text_end (app w))) (mem_map (app w)) (mem_map (app w')) \<and>
     extends (unat (mem_start (app w)) + unat (dynamic_text_end (app w))) (unat (mem_start (app w)) + 2 ^ 32)
       (hostlog w) (hostlog w')"

lemma safe_step_trans: "safe_step a b \<Longrightarrow> safe_step b c \<Longrightarrow> safe_step a c"
  unfolding safe_step_def same_layout_def by (auto intro: map_step_trans extends_trans)

lemma safe_step_same:
  assumes "sys_ok (app w)" "hostlog w' = hostlog w" "mem_map (app w') = mem_map (app w)"
    "break_addr (app w') = break_addr (app w)" "same_layout (app w) (app w')"
  shows "safe_step w w'"
  using assms by (simp add: safe_step_def same_layout_def sys_ok_def)

lemma grows_safe:
  assumes "grows (unat (dynamic_text_end (app w))) (2 ^ 32) w w'" "sys_ok (app w)"
  shows "safe_step w w'"
  using grows_ok [OF assms] assms(1) grows_frame [OF assms(1)]
  by (auto simp: safe_step_def same_layout_def grows_def)

lemma TrapHandler_other:
  assumes run: "TrapHandler h w args = Inr (out, w')" and p: "policy_of (manifest w) = Inr p" "length (channels p) = 5"
  shows "hostlog w' = hostlog w \<and> user_ctx w' = user_ctx w \<and> mem_map (app w') = mem_map (app w) \<and>
    break_addr (app w') = break_addr (app w) \<and> same_layout (app w) (app w')"
  using run p(1)
proof (cases rule: TrapHandler_cases)
  case (3 hu r)
  from 3 p show ?thesis by (cases rule: TrapUserSetup_cases) (simp_all add: same_layout_def)
next
  case (4 d b s off r)
  from 4 p show ?thesis by (cases rule: TrapRead_cases) (simp_all add: same_layout_def)
next
  case (5 d b s off r)
  from 5 p show ?thesis by (cases rule: TrapWrite_cases) (simp_all add: same_layout_def)
qed (simp_all add: same_layout_def)

definition pread_ok :: "io \<Rightarrow> bool" where
  "pread_ok h \<longleftrightarrow> (\<forall>fd n off bs. os_pread h fd n off = Some bs \<longrightarrow> length bs \<le> unat n)"

text \<open>The memory outside the sandbox and its upper guard region.\<close>

definition same_outside :: "world \<Rightarrow> world \<Rightarrow> bool" where
  "same_outside w w' \<longleftrightarrow> (\<forall>x. 2 ^ 32 + 2 ^ 31 \<le> unat (x - mem_start (app w)) \<longrightarrow> mem w' x = mem w x)"

lemma callback_layout: "same_layout nap nap' \<Longrightarrow> callback_ok nap' cb g = callback_ok nap cb g"
  by (simp add: same_layout_def callback_ok_def text_address_def NaClUserToSys_def)

lemma trap_inv_same:
  "trap_inv p0 w \<Longrightarrow> manifest w' = manifest w \<Longrightarrow> g_syscallback w' = g_syscallback w \<Longrightarrow> same_layout (app w) (app w') \<Longrightarrow>
     trap_inv p0 w'"
  by (simp add: trap_inv_def callback_layout)

text \<open>One step of the runtime: safe, within the policy, and confined to the memory of the user.\<close>

definition confined :: "SetupList \<Rightarrow> world \<Rightarrow> world \<Rightarrow> bool" where
  "confined p0 w w' \<longleftrightarrow> safe_step w w' \<and> trap_inv p0 w' \<and> same_outside w w'"

lemma confined_trans: "confined p0 a b \<Longrightarrow> confined p0 b c \<Longrightarrow> confined p0 a c"
  unfolding confined_def using safe_step_trans [of a b c]
  by (auto simp: same_outside_def safe_step_def same_layout_def)

lemma confined_same:
  assumes "trap_inv p0 w" "sys_ok (app w)" "hostlog w' = hostlog w" "mem_map (app w') = mem_map (app w)"
    "break_addr (app w') = break_addr (app w)" "same_layout (app w) (app w')" "mem w' = mem w"
    "manifest w' = manifest w" "g_syscallback w' = g_syscallback w"
  shows "confined p0 w w'"
  using safe_step_same [OF assms(2-6)] trap_inv_same [OF assms(1,8,9,6)] assms(7)
  by (simp add: confined_def same_outside_def)

lemma confined_grows:
  assumes "grows (unat (dynamic_text_end (app w))) (2 ^ 32) w w'" "trap_inv p0 w" "sys_ok (app w)"
  shows "confined p0 w w'"
  using grows_safe [OF assms(1,3)] trap_inv_same [OF assms(2)] grows_frame [OF assms(1)]
  by (auto simp: confined_def safe_step_def same_outside_def)

lemma confined_trap:
  assumes run: "TrapHandler h w args = Inr (out, w')" and inv: "trap_inv p0 w" "sys_ok (app w)" "pread_ok h"
  shows "confined p0 w w'"
proof -
  obtain p where p: "policy_of (manifest w) = Inr p" "length (channels p) = 5"
    using inv(1) by (auto simp: trap_inv_def policy_within_def)
  have "addr_bits (app w) = 32" using inv(2) by (simp add: sys_ok_def)
  then have "same_outside w w'"
    using TrapHandler_frame [OF run p] inv(3) by (simp add: same_outside_def pread_ok_def)
  moreover have "safe_step w w'" using TrapHandler_other [OF run p] inv(2) by (simp add: safe_step_same)
  ultimately show ?thesis using TrapHandler_inv [OF inv(1) run] by (simp add: confined_def)
qed

lemma run_handler_confined:
  assumes run: "run_handler px mal h w fn = Inr (out, w')" and mal: "\<forall>n. mal n"
    and inv: "trap_inv p0 w" "sys_ok (app w)" "pread_ok h"
  shows "confined p0 w w'"
proof (cases fn)
  case TrapDecoder
  then show ?thesis using run confined_trap [OF _ inv] by (simp add: run_handler_def)
next
  case NaClSysSysbrkDecoder
  then show ?thesis
    using run by (auto simp: run_handler_def rbind_eq_Inr intro: confined_grows [OF Sysbrk_step [OF _ inv(2)] inv(1,2)])
next
  case NaClSysMmapDecoder
  have len: "unat (ucast (x :: u32) :: u64) \<le> 2 ^ 32" for x :: u32
  proof -
    have "unat x < 2 ^ LENGTH(32)" by (rule unsigned_less)
    then show ?thesis by (simp add: unsigned_ucast_eq)
  qed
  from NaClSysMmapDecoder show ?thesis
    using run by (auto simp: run_handler_def rbind_eq_Inr intro: confined_grows [OF Mmap_step [OF _ inv(2) mal len] inv(1,2)])
next
  case NaClSysMunmapDecoder
  then show ?thesis
    using run by (auto simp: run_handler_def rbind_eq_Inr intro: confined_grows [OF Munmap_step [OF _ inv(2) mal] inv(1,2)])
next
  case NaClSysExitDecoder
  then show ?thesis using run inv
    by (auto simp: run_handler_def NaClSysExit_def longjmp_def same_layout_def intro!: confined_same)
next
  case NaClSysTls_InitDecoder
  then show ?thesis using run inv
    by (auto simp: run_handler_def NaClSysTls_Init_def Let_def same_layout_def intro!: confined_same split: if_splits)
next
  case NaClSysTls_GetDecoder
  then show ?thesis using run inv
    by (auto simp: run_handler_def rbind_eq_Inr same_layout_def intro!: confined_same)
qed (use run inv in \<open>auto simp: run_handler_def same_layout_def intro!: confined_same\<close>)

section \<open>The hook\<close>

text \<open>Updates of the counters that the limits do not mention.\<close>

lemma trap_inv_policy:
  assumes "trap_inv p0 w" "policy_of (manifest w) = Inr p" "\<And>p0. policy_within p0 q = policy_within p0 p"
    "syscallback q = syscallback p"
  shows "trap_inv p0 (w\<lparr>manifest := set_policy q (manifest w)\<rparr>)"
  using assms by (auto simp: trap_inv_def)

lemma clock_inv:
  assumes "trap_inv p0 w"
  shows "PauseCpuClock c (manifest w) = Inr mf \<Longrightarrow> trap_inv p0 (w\<lparr>manifest := mf\<rparr>)"
    "ResumeCpuClock c (manifest w) = Inr mf \<Longrightarrow> trap_inv p0 (w\<lparr>manifest := mf\<rparr>)"
    "AccountingSyscallsInc (manifest w) = Inr (v, mf) \<Longrightarrow> trap_inv p0 (w\<lparr>manifest := mf\<rparr>)"
proof -
  obtain p where p: "policy_of (manifest w) = Inr p" using assms by (auto simp: trap_inv_def)
  then obtain m where m: "manifest w = Some m" "user_setup m = Some p"
    by (auto simp: policy_of_def split: option.splits)
  note i = trap_inv_policy [OF assms p]
  show "trap_inv p0 (w\<lparr>manifest := mf\<rparr>)" if "PauseCpuClock c (manifest w) = Inr mf"
    using that p m(1) i by (auto simp: PauseCpuClock_def Let_def policy_within_def)
  show "trap_inv p0 (w\<lparr>manifest := mf\<rparr>)" if "ResumeCpuClock c (manifest w) = Inr mf"
    using that p m(1) i by (auto simp: ResumeCpuClock_def policy_within_def)
  have "mf = set_policy (p\<lparr>cnt_syscalls := cnt_syscalls p + 1\<rparr>) (manifest w)" if "AccountingSyscallsInc (manifest w) = Inr (v, mf)"
    using that p m by (simp add: AccountingSyscallsInc_def account_def set_policy_def)
  then show "trap_inv p0 (w\<lparr>manifest := mf\<rparr>)" if "AccountingSyscallsInc (manifest w) = Inr (v, mf)"
    using that i by (simp add: policy_within_def)
qed

lemma confined_manifest:
  "sys_ok (app w) \<Longrightarrow> trap_inv p0 (w\<lparr>manifest := mf\<rparr>) \<Longrightarrow> confined p0 w (w\<lparr>manifest := mf\<rparr>)"
  by (simp add: confined_def safe_step_same same_layout_def same_outside_def)

lemma confined_ok: "confined p0 w w' \<Longrightarrow> sys_ok (app w')" and confined_inv: "confined p0 w w' \<Longrightarrow> trap_inv p0 w'"
  by (simp_all add: confined_def safe_step_def)

lemma hook_leave_confined:
  assumes run: "hook_leave clk ur w = Inr (out, w')" and inv: "trap_inv p0 w" "sys_ok (app w)"
  shows "confined p0 w w'" "new_prog_ctr (user_ctx w') = NaClSandboxCodeAddr (app w) ur"
proof -
  obtain mf where mf: "ResumeCpuClock clk (manifest w) = Inr mf"
    "w' = NaClSwitchToApp (w\<lparr>manifest := mf, app := (app w)\<lparr>user_side_flag := False\<rparr>\<rparr>) (NaClSandboxCodeAddr (app w) ur)"
    using run by (auto simp: hook_leave_def Let_def rbind_eq_Inr)
  have 1: "confined p0 w (w\<lparr>manifest := mf\<rparr>)"
    using clock_inv(2) [OF inv(1) mf(1)] inv(2) by (rule confined_manifest [rotated])
  have "confined p0 (w\<lparr>manifest := mf\<rparr>) w'"
    using clock_inv(2) [OF inv(1) mf(1)] inv(2) mf(2)
    by (auto simp: NaClSwitchToApp_def same_layout_def intro!: confined_same)
  with 1 show "confined p0 w w'" by (rule confined_trans)
  show "new_prog_ctr (user_ctx w') = NaClSandboxCodeAddr (app w) ur"
    using mf(2) by (simp add: NaClSwitchToApp_def)
qed

lemma hook_dispatch_cases:
  assumes "hook_dispatch px mal table h clk n a ur w3 = Inr (out, w')"
  obtains (bad) "hook_leave clk ur (w3\<lparr>sysret := word_of_int (- NACL_ABI_EINVAL)\<rparr>) = Inr (out, w')"
    | (jump) fn code where "run_handler px mal h (w3\<lparr>syscall_args := a\<rparr>) fn = Inr (LongJmp code, w')" "out = LongJmp code"
    | (ret) fn r w4 where "run_handler px mal h (w3\<lparr>syscall_args := a\<rparr>) fn = Inr (Returns r, w4)"
        "hook_leave clk ur (w4\<lparr>sysret := r\<rparr>) = Inr (out, w')"
proof (cases "NACL_MAX_SYSCALLS \<le> unat n")
  case True
  then show ?thesis using assms bad by (simp add: hook_dispatch_def)
next
  case False
  then obtain o4 w4 where "run_handler px mal h (w3\<lparr>syscall_args := a\<rparr>) (table ! unat n) = Inr (o4, w4)"
    "(case o4 of LongJmp code \<Rightarrow> Inr (LongJmp code, w4) | Returns r \<Rightarrow> hook_leave clk ur (w4\<lparr>sysret := r\<rparr>)) = Inr (out, w')"
    using assms by (auto simp: hook_dispatch_def rbind_eq_Inr split: if_splits)
  then show ?thesis using jump ret by (cases o4) auto
qed

lemma hook_dispatch_confined:
  assumes run: "hook_dispatch px mal table h clk n a ur w = Inr (out, w')" and mal: "\<forall>n. mal n"
    and inv: "trap_inv p0 w" "sys_ok (app w)" "pread_ok h"
  shows "confined p0 w w' \<and> (\<forall>r. out = Returns r \<longrightarrow> new_prog_ctr (user_ctx w') = NaClSandboxCodeAddr (app w) ur)"
proof -
  have put: "confined p0 v (v\<lparr>syscall_args := b\<rparr>)" "confined p0 v (v\<lparr>sysret := c\<rparr>)" if "trap_inv p0 v" "sys_ok (app v)" for v b c
    using that by (auto simp: same_layout_def intro!: confined_same)
  from run show ?thesis
  proof (cases rule: hook_dispatch_cases)
    case bad
    note p = put(2) [OF inv(1,2), of "word_of_int (- NACL_ABI_EINVAL)"]
    from hook_leave_confined [OF bad confined_inv [OF p] confined_ok [OF p]] confined_trans [OF p] show ?thesis by simp
  next
    case (jump fn code)
    note p = put(1) [OF inv(1,2), of a]
    from run_handler_confined [OF jump(1) mal confined_inv [OF p] confined_ok [OF p] inv(3)] confined_trans [OF p] jump(2)
    show ?thesis by simp
  next
    case (ret fn r w4)
    note p = put(1) [OF inv(1,2), of a]
    note c4 = confined_trans [OF p run_handler_confined [OF ret(1) mal confined_inv [OF p] confined_ok [OF p] inv(3)]]
    note c5 = confined_trans [OF c4 put(2) [OF confined_inv [OF c4] confined_ok [OF c4], of r]]
    note l = hook_leave_confined [OF ret(2) confined_inv [OF c5] confined_ok [OF c5]]
    have "NaClSandboxCodeAddr (app w4) ur = NaClSandboxCodeAddr (app w) ur"
      using c4 by (simp add: confined_def safe_step_def same_layout_def NaClSandboxCodeAddr_def)
    with l confined_trans [OF c5 l(1)] show ?thesis by simp
  qed
qed

lemma hook_confined:
  assumes run: "NaClSyscallCSegHook px mal table h clk w = Inr (out, w')" and mal: "\<forall>n. mal n"
    and inv: "trap_inv p0 w" "sys_ok (app w)" "pread_ok h"
  shows "confined p0 w w' \<and> (\<forall>r. out = Returns r \<longrightarrow> (\<exists>ur. new_prog_ctr (user_ctx w') = NaClSandboxCodeAddr (app w) ur))"
proof -
  obtain mf1 v mf2 n a ur sp where mf: "PauseCpuClock (os_clock h) (manifest w) = Inr mf1" "AccountingSyscallsInc mf1 = Inr (v, mf2)"
    "hook_dispatch px mal table h clk n a ur (w\<lparr>app := (app w)\<lparr>user_side_flag := True\<rparr>, manifest := mf2,
       user_ctx := NaClSetThreadCtxSp (user_ctx w) sp\<rparr>) = Inr (out, w')"
    using run by (auto simp: NaClSyscallCSegHook_def Let_def rbind_eq_Inr)
  let ?w3 = "w\<lparr>app := (app w)\<lparr>user_side_flag := True\<rparr>, manifest := mf2, user_ctx := NaClSetThreadCtxSp (user_ctx w) sp\<rparr>"
  have t2: "trap_inv p0 (w\<lparr>manifest := mf2\<rparr>)"
    using clock_inv(3) [OF clock_inv(1) [OF inv(1) mf(1)]] mf(2) by simp
  have c2: "confined p0 w (w\<lparr>manifest := mf2\<rparr>)" by (rule confined_manifest [OF inv(2) t2])
  have c3: "confined p0 w ?w3"
    using c2 by (rule confined_trans) (use t2 inv(2) in \<open>auto simp: same_layout_def intro!: confined_same\<close>)
  note d = hook_dispatch_confined [OF mf(3) mal confined_inv [OF c3] confined_ok [OF c3] inv(3)]
  have "NaClSandboxCodeAddr (app ?w3) ur = NaClSandboxCodeAddr (app w) ur" by (simp add: NaClSandboxCodeAddr_def)
  with d confined_trans [OF c3, of w'] show ?thesis by auto
qed

section \<open>Runs\<close>

text \<open>
  A step is either the user program, which may change any byte of the sandbox and its registers, or
  a system call that comes back. The answers of the operating system are different in each call.
\<close>

inductive runtime_step :: "(nat \<Rightarrow> bool) \<Rightarrow> handler list \<Rightarrow> world \<Rightarrow> world \<Rightarrow> bool"
  for mal :: "nat \<Rightarrow> bool" and table :: "handler list" where
  user: "\<forall>x. 2 ^ 32 \<le> unat (x - mem_start (app w)) \<longrightarrow> m x = mem w x \<Longrightarrow>
    runtime_step mal table w (w\<lparr>mem := m, user_ctx := ctx\<rparr>)"
| call: "pread_ok h \<Longrightarrow> NaClSyscallCSegHook px mal table h clk w = Inr (Returns r, w') \<Longrightarrow> runtime_step mal table w w'"

inductive reachable :: "(nat \<Rightarrow> bool) \<Rightarrow> handler list \<Rightarrow> world \<Rightarrow> world \<Rightarrow> bool"
  for mal :: "nat \<Rightarrow> bool" and table :: "handler list" and w0 :: world where
  start: "reachable mal table w0 w0"
| step: "reachable mal table w0 w \<Longrightarrow> runtime_step mal table w w' \<Longrightarrow> reachable mal table w0 w'"

lemma runtime_step_confined:
  assumes "runtime_step mal table w w'" "\<forall>n. mal n" "trap_inv p0 w" "sys_ok (app w)"
  shows "confined p0 w w'"
  using assms(1)
proof cases
  case (user m ctx)
  have "same_outside w w'" using user by (auto simp: same_outside_def)
  moreover have "safe_step w w'" using user assms(4) by (intro safe_step_same) (simp_all add: same_layout_def)
  moreover have "trap_inv p0 w'" using user assms(3) by (simp add: trap_inv_def)
  ultimately show ?thesis by (simp add: confined_def)
next
  case (call h px clk r)
  from hook_confined [OF call(2) assms(2-4) call(1)] show ?thesis by blast
qed

lemma confined_refl: "trap_inv p0 w \<Longrightarrow> sys_ok (app w) \<Longrightarrow> confined p0 w w"
  by (intro confined_same) (simp_all add: same_layout_def)

lemma reachable_confined:
  assumes "reachable mal table w0 w" "\<forall>n. mal n" "trap_inv p0 w0" "sys_ok (app w0)"
  shows "confined p0 w0 w"
  using assms(1)
proof induction
  case start
  show ?case by (rule confined_refl [OF assms(3,4)])
next
  case (step w w')
  have "confined p0 w w'"
    by (rule runtime_step_confined [OF step.hyps(2) assms(2) confined_inv [OF step.IH] confined_ok [OF step.IH]])
  with step.IH show ?case by (rule confined_trans)
qed

text \<open>The policy a run starts with: all channels are constructed and nothing has been used.\<close>

definition fresh_policy :: "SetupList \<Rightarrow> bool" where
  "fresh_policy p \<longleftrightarrow> length (channels p) = 5 \<and> syscallback p = 0 \<and>
     (\<forall>c \<in> set (channels p). cnt_get_size c = 0 \<and> cnt_put_size c = 0)"

lemma fresh_inv:
  assumes "policy_of (manifest w) = Inr p0" "fresh_policy p0" "g_syscallback w = 0"
  shows "trap_inv p0 w"
proof -
  have "channel_within c c" if "c \<in> set (channels p0)" for c
    using that assms(2) by (simp add: channel_within_def fresh_policy_def)
  then have "policy_within p0 p0" using assms(2) by (simp add: policy_within_def fresh_policy_def)
  with assms show ?thesis by (simp add: trap_inv_def callback_ok_def fresh_policy_def)
qed

text \<open>The state a run starts in.\<close>

definition start_ok :: "SetupList \<Rightarrow> world \<Rightarrow> bool" where
  "start_ok p0 w \<longleftrightarrow> policy_of (manifest w) = Inr p0 \<and> fresh_policy p0 \<and> g_syscallback w = 0 \<and>
     sys_ok (app w) \<and> hostlog w = []"

lemma start_confined:
  "start_ok p0 w0 \<Longrightarrow> reachable mal table w0 w \<Longrightarrow> \<forall>n. mal n \<Longrightarrow> confined p0 w0 w"
  using reachable_confined fresh_inv by (auto simp: start_ok_def)

end
