(* ===== verification/Channels.thy ===== *)
theory Channels
  imports Runtime
begin

text \<open>
  Mounting the channels of the manifest before the user program starts
  (\<^verbatim>\<open>src/manifest/premap.c\<close>, \<^verbatim>\<open>preload.c\<close>, \<^verbatim>\<open>prefetch.c\<close>, \<^verbatim>\<open>mount_channel.c\<close>), allocating its memory in
  advance (\<^verbatim>\<open>manifest_setup.c\<close>), and the loop of \<^verbatim>\<open>main\<close> over the channels. The file system is a
  record of answers: \<open>fl_open\<close> gives a handle, negative when the file cannot be opened, and
  \<open>fl_content\<close> the file as it is once opened.
\<close>

section \<open>Opening\<close>

record files =
  fl_open :: "string \<Rightarrow> int \<Rightarrow> i32"
  fl_content :: "string \<Rightarrow> string option"
  fl_ftruncate :: "i32 \<Rightarrow> i64 \<Rightarrow> bool"

definition CHANNEL_OPEN_FLAGS :: "int list" where
  "CHANNEL_OPEN_FLAGS = [O_RDONLY, O_RDWR OR O_CREAT, O_RDWR OR O_CREAT, - 1, - 1]"

definition CHANNEL_MAP_FLAGS :: "int list" where
  "CHANNEL_MAP_FLAGS = [NACL_ABI_MAP_PRIVATE, NACL_ABI_MAP_SHARED, NACL_ABI_MAP_SHARED, - 1, - 1]"

definition CHANNEL_MAP_PROT :: "int list" where
  "CHANNEL_MAP_PROT =
     [NACL_ABI_PROT_READ, NACL_ABI_PROT_WRITE, NACL_ABI_PROT_READ OR NACL_ABI_PROT_WRITE, - 1, - 1]"

text \<open>\<open>GET_FLAGS\<close>\<close>

definition get_flags :: "int list \<Rightarrow> PreOpenedFileDesc \<Rightarrow> int result" where
  "get_flags flags channel =
     (if length flags \<le> unat (ch_type channel) then Inl CondAbort else Inr (flags ! unat (ch_type channel)))"

definition GetChannelOpenFlags :: "PreOpenedFileDesc \<Rightarrow> int result" where
  "GetChannelOpenFlags = get_flags CHANNEL_OPEN_FLAGS"

definition GetChannelMapFlags :: "PreOpenedFileDesc \<Rightarrow> int result" where
  "GetChannelMapFlags = get_flags CHANNEL_MAP_FLAGS"

definition GetChannelMapProt :: "PreOpenedFileDesc \<Rightarrow> int result" where
  "GetChannelMapProt = get_flags CHANNEL_MAP_PROT"

text \<open>Whether the file of a channel of this type may be extended.\<close>

definition extendable :: "PreOpenedFileDesc \<Rightarrow> bool" where
  "extendable channel \<longleftrightarrow> unat (ch_type channel) = OutputChannel \<or> unat (ch_type channel) = LogChannel"

definition PreallocateChannel_premap :: "files \<Rightarrow> PreOpenedFileDesc \<Rightarrow> PreOpenedFileDesc result" where
  "PreallocateChannel_premap fl channel =
    (if fsize channel \<noteq> max_size channel \<and> extendable channel
     then if fl_ftruncate fl (handle channel) (max_size channel)
          then Inr (channel\<lparr>fsize := max_size channel\<rparr>) else Inl CondAbort
     else Inr channel)"

definition PreallocateChannel_preload :: "files \<Rightarrow> PreOpenedFileDesc \<Rightarrow> PreOpenedFileDesc result" where
  "PreallocateChannel_preload fl channel =
    (if sint (fsize channel) < 1 \<and> extendable channel
     then if fl_ftruncate fl (handle channel) 0
          then Inr (channel\<lparr>fsize := max_size channel\<rparr>) else Inl CondAbort
     else Inr channel)"

text \<open>The steps both ways of mounting share: opening and measuring the file.\<close>

definition open_channel ::
  "files \<Rightarrow> (files \<Rightarrow> PreOpenedFileDesc \<Rightarrow> PreOpenedFileDesc result) \<Rightarrow> string \<Rightarrow> PreOpenedFileDesc \<Rightarrow> PreOpenedFileDesc result" where
  "open_channel fl prealloc name channel =
     rbind (GetChannelOpenFlags channel) (\<lambda>flags.
     let channel = channel\<lparr>handle := fl_open fl name flags\<rparr> in
     if sint (handle channel) < 0 then Inl CondAbort
     else
       let channel = channel\<lparr>fsize := GetFileSize (fl_content fl) name\<rparr> in
       rbind (prealloc fl channel) (\<lambda>channel.
         if sint (max_size channel) < sint (fsize channel) then Inl CondAbort else Inr channel))"

section \<open>Mounting\<close>

text \<open>\<open>sizeof(struct NaClDescIoDesc)\<close> is 40. The descriptor joins those of the world.\<close>

definition NaClDescIoDescMake :: "(nat \<Rightarrow> bool) \<Rightarrow> world \<Rightarrow> int \<Rightarrow> (nat \<times> world) result" where
  "NaClDescIoDescMake mal w fd =
    (if \<not> mal 40 then Inl LogFatal else Inr (length (descs w), w\<lparr>descs := descs w @ [\<lparr>hd_d = fd\<rparr>]\<rparr>))"

definition PremapChannel ::
  "posix \<Rightarrow> files \<Rightarrow> (nat \<Rightarrow> bool) \<Rightarrow> world \<Rightarrow> nat \<Rightarrow> (i32 \<times> world) result" where
  "PremapChannel px fl mal w ch =
     rbind (channel_of w ch) (\<lambda>channel.
     if \<not> mal 4 then Inl CondAbort
     else if mounted channel \<noteq> MAPPED then Inl CondAbort
     else case ch_name channel of
       None \<Rightarrow> Inl CondAbort
     | Some name \<Rightarrow>
         rbind (open_channel fl PreallocateChannel_premap name channel) (\<lambda>channel.
         rbind (NaClDescIoDescMake mal w (sint (handle channel))) (\<lambda>(d, w).
         case NaClSetAvail mal (app w) (Some d) of
           None \<Rightarrow> Inl Diverges
         | Some (Inl f) \<Rightarrow> Inl f
         | Some (Inr (desc, nap)) \<Rightarrow>
             rbind (GetChannelMapProt channel) (\<lambda>prt.
             rbind (GetChannelMapFlags channel) (\<lambda>flags.
             rbind (NaClCommonSysMmapIntern px mal (w\<lparr>app := nap\<rparr>) 0 (fsize channel) prt flags desc 0) (\<lambda>(b, w).
             let channel = channel\<lparr>buffer := b\<rparr> in
             if 0xFF000000 < (b :: u32) then Inl CondAbort
             else
               let channel = channel\<lparr>bsize := ucast (fsize channel), handle := - 1\<rparr> in
               Inr (0, put_channel ch channel w)))))))"

definition PreloadChannel :: "files \<Rightarrow> world \<Rightarrow> nat \<Rightarrow> (i32 \<times> world) result" where
  "PreloadChannel fl w ch =
     rbind (channel_of w ch) (\<lambda>channel.
     case ch_name channel of
       None \<Rightarrow> Inr (- 1, w)
     | Some name \<Rightarrow>
         if mounted channel \<noteq> LOADED then Inl CondAbort
         else rbind (open_channel fl PreallocateChannel_preload name channel) (\<lambda>channel.
           Inr (0, put_channel ch (channel\<lparr>bsize := - 1\<rparr>) w)))"

definition PrefetchChannel :: "world \<Rightarrow> nat \<Rightarrow> (i32 \<times> world) result" where
  "PrefetchChannel w ch = Inr (- 1, w)"

definition MountChannel ::
  "posix \<Rightarrow> files \<Rightarrow> (nat \<Rightarrow> bool) \<Rightarrow> world \<Rightarrow> nat \<Rightarrow> (i32 \<times> world) result" where
  "MountChannel px fl mal w ch =
     rbind (channel_of w ch) (\<lambda>channel.
     let checked = (\<lambda>(code, w). if code \<noteq> 0 then Inl CondAbort else Inr (0, w)) in
     if mounted channel = MAPPED then rbind (PremapChannel px fl mal w ch) checked
     else if mounted channel = LOADED then rbind (PreloadChannel fl w ch) checked
     else if mounted channel = NETWORK then rbind (PrefetchChannel w ch) checked
     else Inl CondAbort)"

text \<open>The loop of \<^verbatim>\<open>main\<close> and its body: a channel the manifest does not mention is left out.\<close>

definition mount_one :: "posix \<Rightarrow> files \<Rightarrow> (nat \<Rightarrow> bool) \<Rightarrow> nat \<Rightarrow> world \<Rightarrow> world result" where
  "mount_one px fl mal ch w =
    (case manifest w of
       None \<Rightarrow> Inr w
     | Some m \<Rightarrow>
         rbind (ConstructChannel m ch) (\<lambda>(r, m).
         let w = w\<lparr>manifest := Some m\<rparr> in
         if r \<noteq> 0 then Inr w else rbind (MountChannel px fl mal w ch) (\<lambda>(_, w). Inr w)))"

fun mount_channels ::
  "posix \<Rightarrow> files \<Rightarrow> (nat \<Rightarrow> bool) \<Rightarrow> nat list \<Rightarrow> world \<Rightarrow> world result" where
  "mount_channels px fl mal [] w = Inr w"
| "mount_channels px fl mal (ch # chs) w = rbind (mount_one px fl mal ch w) (mount_channels px fl mal chs)"

section \<open>Memory in advance\<close>

text \<open>
  \<open>removed\<close> is set through the pointer to the entry, wherever sorting has put it by then: the entry is
  the one that starts at the page it started at when the pointer was taken.
\<close>

definition mark_removed :: "u64 \<Rightarrow> NaClVmmap \<Rightarrow> NaClVmmap" where
  "mark_removed pn vm =
     vm\<lparr>vmentry := map (map_option (\<lambda>e. if page_num e = pn then e\<lparr>removed := True\<rparr> else e)) (vmentry vm),
        is_sorted := False\<rparr>"

text \<open>The mask of the rounding is a 32-bit number.\<close>

definition PreallocateUserMemory :: "posix \<Rightarrow> (nat \<Rightarrow> bool) \<Rightarrow> world \<Rightarrow> world result" where
  "PreallocateUserMemory px mal w =
     rbind (policy_of (manifest w)) (\<lambda>policy.
     let nap = app w;
         stump = (ucast ((ucast (max_mem policy) :: u64) - stack_size nap - data_end nap) :: u32) in
     if max_mem policy = 0 then Inr w
     else
       let i = (data_end nap + NACL_MAP_PAGESIZE - 1) AND ucast (NOT (0x10000 - 1 :: u32)) in
       rbind (NaClCommonSysMmapIntern px mal w i (ucast stump) 3 0x22 (- 1) 0) (\<lambda>(heap, w).
       let policy = policy\<lparr>heap_ptr := heap\<rparr>; w = w\<lparr>manifest := set_policy policy (manifest w)\<rparr> in
       if (ucast heap :: u64) \<noteq> i then Inl AssertFailed
       else if nvalid (mem_map (app w)) = 0 then Inl OutOfBounds
       else rbind (deref (vmentry (mem_map (app w))) (nvalid (mem_map (app w)) - 1)) (\<lambda>user_space.
         if ucast (heap div 4096) \<noteq> page_num user_space then Inl AssertFailed
         else if is_sorted (mem_map (app w)) then Inl AssertFailed
         else rbind (NaClVmmapFindMaxFreeSpace (mem_map (app w)) 1) (\<lambda>(free, vm).
           let w = w\<lparr>app := (app w)\<lparr>mem_map := vm\<rparr>\<rparr>;
               dead_space = (ucast (free * NACL_PAGESIZE) :: u32);
               i = (page_num user_space + npages user_space) * NACL_PAGESIZE in
           rbind (NaClCommonSysMmapIntern px mal w i (ucast dead_space) 0 0x22 (- 1) 0) (\<lambda>(dead, w).
           if (ucast dead :: u64) \<noteq> i then Inl AssertFailed
           else rbind (NaClVmmapMakeSorted (mark_removed (page_num user_space) (mem_map (app w)))) (\<lambda>vm.
             let w = w\<lparr>app := (app w)\<lparr>mem_map := vm\<rparr>\<rparr> in
             if 0xfffff000 < heap then Inl CondAbort else Inr w))))))"

section \<open>What mounting gives\<close>

text \<open>No system call of the mapping kind touches the manifest.\<close>

lemma UpdateAddrMap_frame: "NaClCommonUtilUpdateAddrMap mal nap sys n pr d bb ob del = Inr nap' \<Longrightarrow> \<exists>vm. nap' = nap\<lparr>mem_map := vm\<rparr>"
  by (auto simp: NaClCommonUtilUpdateAddrMap_def rbind_eq_Inr)

lemma mmap_parts_manifest:
  "mmap_main px mal whole d dsc w sys n prt fl off fs fb = Inr (v, w1) \<Longrightarrow> manifest w1 = manifest w"
  "mmap_zero_fill px mal whole w sys n soi prt = Inr r \<Longrightarrow>
     manifest (case r of Inl (_, w') \<Rightarrow> w' | Inr w' \<Rightarrow> w') = manifest w"
  "mmap_inaccessible px mal whole w sys soi len = Inr w1 \<Longrightarrow> manifest w1 = manifest w"
  by (auto simp: mmap_main_def mmap_zero_fill_def mmap_inaccessible_def Let_def rbind_eq_Inr split: if_splits)

lemma mmap_at_manifest:
  assumes "mmap_at px mal d dsc w u n soi len prt fl off fs fb = Inr (r, w')"
  shows "manifest w' = manifest w"
proof (cases "w' = w")
  case False
  obtain whole sys v1 w1 r2 where r: "mmap_main px mal whole d dsc w sys n (prt AND NOT NACL_ABI_PROT_EXEC)
      (fl OR NACL_ABI_MAP_FIXED) off fs fb = Inr (v1, w1)"
    "mmap_zero_fill px mal whole w1 sys n soi (prt AND NOT NACL_ABI_PROT_EXEC) = Inr r2"
    "(case r2 of Inl (v2, w2) \<Rightarrow> mmap_return v2 w2
      | Inr w2 \<Rightarrow> rbind (mmap_inaccessible px mal whole w2 sys soi len) (mmap_return u)) = Inr (r, w')"
    using assms False by (auto simp: mmap_at_def Let_def rbind_eq_Inr dest: mmap_return_world split: if_splits)
  show ?thesis
  proof (cases r2)
    case (Inl x)
    with r mmap_parts_manifest(1) [OF r(1)] mmap_parts_manifest(2) [OF r(2)] show ?thesis
      by (cases x) (auto dest: mmap_return_world)
  next
    case (Inr w2)
    then obtain w3 where "mmap_inaccessible px mal whole w2 sys soi len = Inr w3" "w' = w3"
      using r(3) by (auto simp: rbind_eq_Inr dest: mmap_return_world)
    with Inr mmap_parts_manifest(1) [OF r(1)] mmap_parts_manifest(2) [OF r(2)] mmap_parts_manifest(3)
    show ?thesis by fastforce
  qed
qed simp

lemma MmapIntern_manifest:
  assumes "NaClCommonSysMmapIntern px mal w start n prt fl d off = Inr (r, w')"
  shows "manifest w' = manifest w"
  using assms by (cases rule: MmapIntern_cases) (auto dest: mmap_at_manifest split: option.splits)

text \<open>The shape of a policy: five channels, and character arrays of the sizes they are declared with.\<close>

definition policy_typed :: "SetupList \<Rightarrow> bool" where
  "policy_typed p \<longleftrightarrow> self_size p = 1016 \<and> length (channels p) = CHANNELS_COUNT \<and>
     length (content_type p) = CONTENT_TYPE_LEN \<and> length (timestamp p) = TIMESTAMP_LEN \<and>
     length (x_object_meta_tag p) = X_OBJECT_META_TAG_LEN \<and> length (user_etag p) = USER_TAG_LEN"

text \<open>The mode and the limits that the records of a manifest give to the channel with a prefix.\<close>

definition limits_from :: "MasterManifestRecord list \<Rightarrow> string \<Rightarrow> PreOpenedFileDesc \<Rightarrow> bool" where
  "limits_from recs pre c \<longleftrightarrow>
    (let number = (\<lambda>key. case get_value_by_key recs (pre @ key) of None \<Rightarrow> 0 | Some v \<Rightarrow> atoll v) in
     mounted c = ucast (number ''Mode'') \<and> max_size c = number ''Max'' \<and>
     max_get_size c = number ''MaxGet'' \<and> max_gets c = ucast (number ''MaxGetCnt'') \<and>
     max_put_size c = number ''MaxPut'' \<and> max_puts c = ucast (number ''MaxPutCnt''))"

text \<open>
  A channel after the loop: named as the manifest says, and if it is named, of its own type, mounted
  in one of the two ways that work, not larger than allowed, with the mode and the limits of the
  manifest and nothing used.
\<close>

definition channel_typed :: "MasterManifestRecord list \<Rightarrow> nat \<Rightarrow> PreOpenedFileDesc \<Rightarrow> bool" where
  "channel_typed recs i c \<longleftrightarrow> ch_self_size c = 104 \<and> ch_name c = get_value_by_key recs (CHANNEL_PREFIXES ! i) \<and>
     (ch_name c \<noteq> None \<longrightarrow> ch_type c = of_nat i \<and> mounted c \<in> {MAPPED, LOADED} \<and>
        limits_from recs (CHANNEL_PREFIXES ! i) c \<and> sint (fsize c) \<le> sint (max_size c) \<and>
        cnt_gets c = 0 \<and> cnt_puts c = 0 \<and> cnt_get_size c = 0 \<and> cnt_put_size c = 0)"

definition same_limits :: "PreOpenedFileDesc \<Rightarrow> PreOpenedFileDesc \<Rightarrow> bool" where
  "same_limits c c' \<longleftrightarrow> ch_self_size c' = ch_self_size c \<and> ch_name c' = ch_name c \<and> ch_type c' = ch_type c \<and>
     mounted c' = mounted c \<and> max_size c' = max_size c \<and> max_gets c' = max_gets c \<and> max_puts c' = max_puts c \<and>
     max_get_size c' = max_get_size c \<and> max_put_size c' = max_put_size c \<and> cnt_gets c' = cnt_gets c \<and>
     cnt_puts c' = cnt_puts c \<and> cnt_get_size c' = cnt_get_size c \<and> cnt_put_size c' = cnt_put_size c"

lemma open_channel_spec:
  assumes "open_channel fl pre name c = Inr c'" "pre = PreallocateChannel_premap \<or> pre = PreallocateChannel_preload"
  shows "same_limits c c' \<and> sint (fsize c') \<le> sint (max_size c')"
  using assms
  by (auto simp: open_channel_def PreallocateChannel_premap_def PreallocateChannel_preload_def Let_def rbind_eq_Inr
      same_limits_def split: if_splits)

lemma manifest_put:
  assumes "manifest w = Some m" "user_setup m = Some p"
  shows "manifest (put_channel ch c w) = Some (m\<lparr>user_setup := Some (p\<lparr>channels := (channels p)[ch := c]\<rparr>)\<rparr>)"
  using assms by (simp add: put_channel_def)

lemma PremapChannel_spec:
  assumes "PremapChannel px fl mal w ch = Inr (r, w')" "manifest w = Some m" "user_setup m = Some p" "ch < length (channels p)"
  shows "\<exists>c. manifest w' = Some (m\<lparr>user_setup := Some (p\<lparr>channels := (channels p)[ch := c]\<rparr>)\<rparr>) \<and>
    same_limits (channels p ! ch) c \<and> sint (fsize c) \<le> sint (max_size c)"
proof -
  have p: "channel_of w ch = Inr (channels p ! ch)" using assms(2-4) by (simp add: channel_of_def policy_of_def)
  obtain name where nm: "ch_name (channels p ! ch) = Some name"
    using assms(1) p by (auto simp: PremapChannel_def split: if_splits option.splits)
  obtain c1 d w1 where c1: "open_channel fl PreallocateChannel_premap name (channels p ! ch) = Inr c1"
      "NaClDescIoDescMake mal w (sint (handle c1)) = Inr (d, w1)"
    using assms(1) p nm by (auto simp: PremapChannel_def rbind_eq_Inr split: if_splits)
  then have w1: "manifest w1 = manifest w" by (auto simp: NaClDescIoDescMake_def split: if_splits)
  obtain desc nap where sa: "NaClSetAvail mal (app w1) (Some d) = Some (Inr (desc, nap))"
    using assms(1) p nm c1 by (auto simp: PremapChannel_def split: if_splits option.splits sum.splits)
  obtain n prt flags b w2 where w2: "NaClCommonSysMmapIntern px mal (w1\<lparr>app := nap\<rparr>) 0 n prt flags desc 0 = Inr (b, w2)"
    "w' = put_channel ch (c1\<lparr>buffer := b, bsize := ucast (fsize c1), handle := - 1\<rparr>) w2"
    using assms(1) p nm c1 sa by (auto simp: PremapChannel_def Let_def rbind_eq_Inr split: if_splits)
  have m2: "manifest w2 = Some m" using MmapIntern_manifest [OF w2(1)] w1 assms(2) by simp
  have "same_limits (channels p ! ch) (c1\<lparr>buffer := b, bsize := ucast (fsize c1), handle := - 1\<rparr>)"
    "sint (fsize c1) \<le> sint (max_size c1)"
    using open_channel_spec [OF c1(1)] by (auto simp: same_limits_def)
  then show ?thesis using manifest_put [OF m2 assms(3)] w2(2) by auto
qed

lemma PreloadChannel_spec:
  assumes "PreloadChannel fl w ch = Inr (0, w')" "manifest w = Some m" "user_setup m = Some p" "ch < length (channels p)"
  shows "\<exists>c. manifest w' = Some (m\<lparr>user_setup := Some (p\<lparr>channels := (channels p)[ch := c]\<rparr>)\<rparr>) \<and>
    same_limits (channels p ! ch) c \<and> sint (fsize c) \<le> sint (max_size c)"
proof -
  have p: "channel_of w ch = Inr (channels p ! ch)" using assms(2-4) by (simp add: channel_of_def policy_of_def)
  obtain name c1 where c1: "open_channel fl PreallocateChannel_preload name (channels p ! ch) = Inr c1"
    "w' = put_channel ch (c1\<lparr>bsize := - 1\<rparr>) w"
    using assms(1) p by (auto simp: PreloadChannel_def rbind_eq_Inr split: if_splits option.splits)
  have "same_limits (channels p ! ch) (c1\<lparr>bsize := - 1\<rparr>)" "sint (fsize c1) \<le> sint (max_size c1)"
    using open_channel_spec [OF c1(1)] by (auto simp: same_limits_def)
  then show ?thesis using manifest_put [OF assms(2,3)] c1(2) by auto
qed

lemma MountChannel_spec:
  assumes run: "MountChannel px fl mal w ch = Inr (r, w')" and m: "manifest w = Some m" "user_setup m = Some p" "ch < length (channels p)"
  shows "\<exists>c. manifest w' = Some (m\<lparr>user_setup := Some (p\<lparr>channels := (channels p)[ch := c]\<rparr>)\<rparr>) \<and>
    same_limits (channels p ! ch) c \<and> sint (fsize c) \<le> sint (max_size c)"
    and "mounted (channels p ! ch) \<in> {MAPPED, LOADED}"
proof -
  have p: "channel_of w ch = Inr (channels p ! ch)" using m by (simp add: channel_of_def policy_of_def)
  consider r where "PremapChannel px fl mal w ch = Inr (r, w')" "mounted (channels p ! ch) = MAPPED"
    | "PreloadChannel fl w ch = Inr (0, w')" "mounted (channels p ! ch) = LOADED"
    using run p by (auto simp: MountChannel_def PrefetchChannel_def Let_def rbind_eq_Inr split: if_splits)
  then show "\<exists>c. manifest w' = Some (m\<lparr>user_setup := Some (p\<lparr>channels := (channels p)[ch := c]\<rparr>)\<rparr>) \<and>
    same_limits (channels p ! ch) c \<and> sint (fsize c) \<le> sint (max_size c)" "mounted (channels p ! ch) \<in> {MAPPED, LOADED}"
    using PremapChannel_spec [OF _ m] PreloadChannel_spec [OF _ m] by (cases; blast)+
qed

lemma ConstructChannel_spec:
  assumes "ConstructChannel m ch = Inr (r, m')" "user_setup m = Some p" "ch < 5" "length (channels p) = 5"
  shows "\<exists>c. m' = m\<lparr>user_setup := Some (p\<lparr>channels := (channels p)[ch := c]\<rparr>)\<rparr> \<and> ch_self_size c = 104 \<and>
    ch_name c = get_value_by_key (master m) (CHANNEL_PREFIXES ! ch) \<and> (r \<noteq> 0 \<longleftrightarrow> ch_name c = None) \<and>
    (r = 0 \<longrightarrow> ch_type c = of_nat ch \<and> limits_from (master m) (CHANNEL_PREFIXES ! ch) c \<and> cnt_gets c = 0 \<and> cnt_puts c = 0 \<and> cnt_get_size c = 0 \<and> cnt_put_size c = 0)"
  using assms
  by (auto simp: ConstructChannel_def GetChannelPrefixById_def CHANNEL_PREFIXES_def policy_of_def Let_def rbind_eq_Inr
      limits_from_def number_at_def split: if_splits)

lemma mount_one_spec:
  assumes run: "mount_one px fl mal ch w = Inr w'" and m: "manifest w = Some m" "user_setup m = Some p"
    and ch: "ch < 5" "length (channels p) = 5"
  shows "\<exists>c. manifest w' = Some (m\<lparr>user_setup := Some (p\<lparr>channels := (channels p)[ch := c]\<rparr>)\<rparr>) \<and>
    channel_typed (master m) ch c"
proof -
  obtain r m1 where r: "ConstructChannel m ch = Inr (r, m1)"
    "(if r \<noteq> 0 then Inr (w\<lparr>manifest := Some m1\<rparr>)
      else rbind (MountChannel px fl mal (w\<lparr>manifest := Some m1\<rparr>) ch) (\<lambda>(_, w). Inr w)) = Inr w'"
    using run m(1) by (auto simp: mount_one_def rbind_eq_Inr Let_def)
  obtain c where c: "m1 = m\<lparr>user_setup := Some (p\<lparr>channels := (channels p)[ch := c]\<rparr>)\<rparr>" "ch_self_size c = 104"
    "ch_name c = get_value_by_key (master m) (CHANNEL_PREFIXES ! ch)" "r \<noteq> 0 \<longleftrightarrow> ch_name c = None"
    "r = 0 \<longrightarrow> ch_type c = of_nat ch \<and> limits_from (master m) (CHANNEL_PREFIXES ! ch) c \<and> cnt_gets c = 0 \<and> cnt_puts c = 0 \<and> cnt_get_size c = 0 \<and> cnt_put_size c = 0"
    using ConstructChannel_spec [OF r(1) m(2) ch] by (elim exE conjE) (rule that)
  show ?thesis
  proof (cases "r = 0")
    case False
    then have "manifest w' = Some m1" using r(2) by auto
    moreover have "channel_typed (master m) ch c" using False c(2-4) by (simp add: channel_typed_def)
    ultimately show ?thesis using c(1) by blast
  next
    case True
    then obtain r2 where w2: "MountChannel px fl mal (w\<lparr>manifest := Some m1\<rparr>) ch = Inr (r2, w')"
      using r(2) by (auto simp: rbind_eq_Inr)
    let ?p = "p\<lparr>channels := (channels p)[ch := c]\<rparr>"
    have m1: "user_setup m1 = Some ?p" "manifest (w\<lparr>manifest := Some m1\<rparr>) = Some m1" "ch < length (channels ?p)"
      "channels ?p ! ch = c" using c(1) ch by simp_all
    obtain c2 where c2: "manifest w' = Some (m1\<lparr>user_setup := Some (?p\<lparr>channels := (channels ?p)[ch := c2]\<rparr>)\<rparr>)"
      "same_limits c c2" "sint (fsize c2) \<le> sint (max_size c2)"
      using MountChannel_spec(1) [OF w2 m1(2,1,3)] unfolding m1(4) by blast
    have "mounted c \<in> {MAPPED, LOADED}" using MountChannel_spec(2) [OF w2 m1(2,1,3)] unfolding m1(4) .
    with c2(2,3) c True have "channel_typed (master m) ch c2" by (simp add: channel_typed_def same_limits_def limits_from_def Let_def)
    moreover have "manifest w' = Some (m\<lparr>user_setup := Some (p\<lparr>channels := (channels p)[ch := c2]\<rparr>)\<rparr>)"
      using c2(1) c(1) by simp
    ultimately show ?thesis by blast
  qed
qed

lemma mount_channels_spec:
  assumes "mount_channels px fl mal [i..<5] w = Inr w'" "i \<le> 5" "manifest w = Some m" "user_setup m = Some p"
    "policy_typed p" "\<forall>j < i. channel_typed (master m) j (channels p ! j)"
  shows "\<exists>p'. manifest w' = Some (m\<lparr>user_setup := Some p'\<rparr>) \<and> policy_typed p' \<and>
    (\<forall>j < 5. channel_typed (master m) j (channels p' ! j)) \<and> (\<exists>cs. p' = p\<lparr>channels := cs\<rparr>)"
  using assms
proof (induction "5 - i" arbitrary: i w m p)
  case 0
  have i: "i = 5" using 0(1,3) by simp
  have "m\<lparr>user_setup := Some p\<rparr> = m" using 0(5) by (cases m) simp
  then have "manifest w' = Some (m\<lparr>user_setup := Some p\<rparr>)" using 0(2,4) i by simp
  moreover have "\<exists>cs. p = p\<lparr>channels := cs\<rparr>" by (rule exI [of _ "channels p"]) simp
  ultimately show ?case using 0(6,7) i by blast
next
  case (Suc k)
  have i: "i < 5" "k = 5 - Suc i" using Suc.hyps(2) by linarith+
  have len: "length (channels p) = 5" using Suc.prems(5) by (simp add: policy_typed_def CHANNELS_COUNT_def channel_defs)
  have "mount_channels px fl mal (i # [Suc i..<5]) w = Inr w'"
    using Suc.prems(1) unfolding upt_conv_Cons [OF i(1)] .
  then obtain w2 where w2: "mount_one px fl mal i w = Inr w2" "mount_channels px fl mal [Suc i..<5] w2 = Inr w'"
    unfolding mount_channels.simps rbind_eq_Inr by blast
  obtain c where c: "manifest w2 = Some (m\<lparr>user_setup := Some (p\<lparr>channels := (channels p)[i := c]\<rparr>)\<rparr>)" "channel_typed (master m) i c"
    using mount_one_spec [OF w2(1) Suc.prems(3,4) i(1) len] by blast
  let ?p = "p\<lparr>channels := (channels p)[i := c]\<rparr>"
  have "policy_typed ?p" using Suc.prems(5) by (simp add: policy_typed_def)
  moreover have "\<forall>j < Suc i. channel_typed (master m) j (channels ?p ! j)"
    using Suc.prems(6) c(2) len i(1) by (auto simp: less_Suc_eq nth_list_update_if)
  ultimately show ?case
    using Suc.hyps(1) [OF i(2) w2(2) _ c(1), of ?p] i(1) by simp
qed

end
