(* ===== verification/RuntimeProps.thy ===== *)
theory RuntimeProps
  imports Channels
begin

text \<open>
  The properties of the runtime as a whole, and a run in which the user program reads 30 bytes of
  its input channel, of which the policy grants 20.
\<close>

section \<open>An example\<close>

definition ch_example :: "nat \<Rightarrow> PreOpenedFileDesc" where
  "ch_example i = \<lparr>ch_self_size = 104, ch_name = Some ''data'', ch_type = of_nat i, mounted = LOADED, handle = 3,
     fsize = 100, buffer = 0, bsize = - 1, max_size = 100, max_gets = 5, max_puts = 5, max_get_size = 20,
     max_put_size = 20, cnt_gets = 0, cnt_puts = 0, cnt_get_size = 0, cnt_put_size = 0\<rparr>"

definition policy_example :: SetupList where
  "policy_example = \<lparr>self_size = 1016, heap_ptr = 0, max_mem = 0, max_cpu = 0, max_syscalls = 0, max_setup_calls = 2,
     cnt_mem = 0, cnt_cpu = 0, cnt_cpu_last = 0, cnt_syscalls = 0, cnt_setup_calls = 0,
     content_type = replicate 64 NUL, timestamp = replicate 64 NUL, x_object_meta_tag = replicate 256 NUL,
     user_etag = replicate 64 NUL, syscallback = 0, channels = map ch_example [0..<5]\<rparr>"

definition ctx_example :: NaClThreadContext where
  "ctx_example = \<lparr>rax = 0, rbx = 0, rcx = 0, rdx = 0, rbp = 0, rsi = 0, rdi = 0, rsp = 0x100400100,
     r8 = 0, r9 = 0, r10 = 0, r11 = 0, r12 = 0, r13 = 0, r14 = 0, r15 = 0x100000000, prog_ctr = 0,
     new_prog_ctr = 0, ctx_sysret = 0, tls_base = 0, tls_idx = 0\<rparr>"

definition mem_example :: memory where
  "mem_example = st64 0x100400100 0x100010000 (st64 0x100400108 0x20025 (st32 0x1004000e8 0x500000
     (st64 0x100500000 TrapRead (st64 0x100500018 0x600000 (st64 0x100500020 30 (\<lambda>_. 0))))))"

definition world_example :: world where
  "world_example = \<lparr>app = nap_example, manifest = Some \<lparr>master = [], user_setup = Some policy_example,
     system_setup = None, report = None\<rparr>, mem = mem_example, g_syscallback = 0, written = [], hostlog = [],
     descs = [], user_ctx = ctx_example, syscall_args = 0, sysret = 0\<rparr>"

definition io_example :: io where
  "io_example = \<lparr>os_clock = 7, os_pread = (\<lambda>_ n _. Some (replicate (unat n) 65)), os_pwrite = (\<lambda>_ bs _. Some (length bs))\<rparr>"

definition posix_example :: posix where
  "posix_example = \<lparr>px_mmap = (\<lambda>a _ _ _ _ _. Inr a), px_munmap = (\<lambda>_ _. None), px_mprotect = (\<lambda>_ _ _. None),
     px_open = (\<lambda>_ _ _. Inr 3), px_fstat = (\<lambda>_. Inl 9), px_read = (\<lambda>_ _. Inl 9), px_write = (\<lambda>_ _. Inl 9),
     px_lseek = (\<lambda>_ _ _. Inl 9), px_close = (\<lambda>_. None)\<rparr>"

definition table_example :: "handler list" where
  "table_example = (case NaClSyscallTableInit of Inl _ \<Rightarrow> [] | Inr t \<Rightarrow> t)"


lemma table_example_0: "length table_example = 110" "table_example ! 0 = TrapDecoder"
  by code_simp+

lemma ld64_zero: "ld64 (\<lambda>_. 0) a = 0" by (simp add: ld64_eq eval_nat_numeral)
lemma mem_example_loads:
  "ld64 mem_example 0x100400100 = 0x100010000" "ld64 mem_example 0x100400108 = 0x20025"
  "ld32 mem_example 0x1004000e8 = 0x500000" "ld64 mem_example 0x100500000 = TrapRead"
  "ld64 mem_example 0x100500010 = 0" "ld64 mem_example 0x100500018 = 0x600000"
  "ld64 mem_example 0x100500020 = 30" "ld64 mem_example 0x100500028 = 0"
  by (simp_all add: mem_example_def ldst ld64_zero)

lemma hook_example:
  "\<exists>w'. NaClSyscallCSegHook px (\<lambda>_. True) table_example io_example 9 world_example = Inr (Returns 20, w') \<and>
    new_prog_ctr (user_ctx w') = 0x100020020 \<and>
    policy_of (manifest w') = Inr (policy_example\<lparr>cnt_cpu := 7, cnt_cpu_last := 9, cnt_syscalls := 1,
       channels := (channels policy_example)[0 := get_charged (ch_example 0) 20]\<rparr>) \<and>
    mem w' = st_bytes 0x100600000 (replicate 20 65) mem_example"
  by (simp add: NaClSyscallCSegHook_def world_example_def ctx_example_def io_example_def nap_example_def
      NaClGetThreadCtxSp_def NaClUserToSysStackAddr_def config_defs NACL_USERRET_FIX_def NACL_SYSARGS_FIX_def
      NACL_SYSCALLRET_FIX_def NaClSetThreadCtxSp_def mem_example_loads PauseCpuClock_def AccountingSyscallsInc_def
      account_def policy_of_def set_policy_def Let_def hook_dispatch_def table_example_0 NACL_MAX_SYSCALLS_def
      run_handler_def TrapHandler_def NaClUserToSys_def trap_call_defs TrapReadHandle_def channel_of_def
      policy_example_def ch_example_def put_channel_def hook_leave_def ResumeCpuClock_def NaClSwitchToApp_def NaClSandboxCodeAddr_def channel_defs
      LOADED_def get_charged_def upt_conv_Cons)

lemma nap_example_sys: "sys_ok nap_example"
proof -
  have "not_exec (vm_pages vm_example p)" if "0x50000 \<le> unat p * 4096" for p
    using that by (auto simp: vm_pages_def vm_example_ents pages_def covers_def e_start_def e_end_def page_of_def
        not_exec_def PROT_EXEC_def)
  then show ?thesis by (simp add: sys_ok_def nap_example_def vm_example_inv)
qed

lemma world_example_start: "start_ok policy_example world_example"
  by (auto simp: start_ok_def world_example_def policy_of_def nap_example_sys fresh_policy_def policy_example_def ch_example_def)

lemma io_example_pread: "pread_ok io_example"
  by (simp add: pread_ok_def io_example_def)

text \<open>The state after the call of the example.\<close>

lemma example_run:
  obtains w' where "reachable (\<lambda>_. True) table_example world_example w'"
    "policy_of (manifest w') = Inr (policy_example\<lparr>cnt_cpu := 7, cnt_cpu_last := 9, cnt_syscalls := 1,
       channels := (channels policy_example)[0 := get_charged (ch_example 0) 20]\<rparr>)"
    "mem w' = st_bytes 0x100600000 (replicate 20 65) mem_example"
  using hook_example reachable.step [OF reachable.start runtime_step.call [OF io_example_pread]] by blast

text \<open>A run that unmaps the allocation page at 0x100000, with the call as entry 22 of the table.\<close>

definition unmap_example :: world where
  "unmap_example = world_example\<lparr>mem := st64 0x100400100 0x1000102c0 (st64 0x100400108 0x20020
     (st32 0x1004000e8 0x100000 (st32 0x1004000ec 0x10000 (\<lambda>_. 0))))\<rparr>"

lemma unmap_example_loads:
  "ld64 (mem unmap_example) 0x100400100 = 0x1000102c0" "ld64 (mem unmap_example) 0x100400108 = 0x20020"
  "ld32 (mem unmap_example) 0x1004000e8 = 0x100000" "ld32 (mem unmap_example) 0x1004000ec = 0x10000"
  by (simp_all add: unmap_example_def ldst)

lemma munmap_example:
  "\<exists>vm. vm_pages vm 256 = None \<and> (\<forall>w. app w = nap_example \<and> whole_chunk w = Inr False \<longrightarrow>
    NaClSysMunmap posix_example (\<lambda>_. True) w 0x100000 0x10000 =
    Inr (0, w\<lparr>hostlog := hostlog w @ [Mmap 0x100100000 0x10000 0 0x32 (- 1) 0], app := nap_example\<lparr>mem_map := vm\<rparr>\<rparr>))"
proof -
  have "vm_pages vm_example 20 \<noteq> None"
    by (simp add: vm_pages_def vm_example_ents pages_def covers_def e_start_def e_end_def)
  then have "\<exists>p. \<not> (256 \<le> p \<and> p < 256 + 16) \<and> vm_pages vm_example p \<noteq> None"
    by (intro exI [of _ 20]) (simp)
  then obtain vm where vm: "NaClVmmapUpdate (\<lambda>_. True) vm_example 256 16 0 None True = Inr vm" "vm_pages vm 256 = None"
    using Update_unmap(1) [OF vm_example_inv, of "\<lambda>_. True" 16 256 0 None] by auto
  have m: "mem_map nap_example = vm_example" by (simp add: nap_example_def)
  have g: "NaClIsAllocPageMultiple 0x100000" "NaClRoundAllocPage 0x10000 = 0x10000"
    "NaClUserToSysAddrRange nap_example 0x100000 0x10000 = 0x100100000"
    "\<not> AddrRangeContainsExecutablePages nap_example 0x100000" "NaClSysToUser nap_example 0x100100000 = Inr 0x100000"
    "(0x100100000 :: u64) \<noteq> kNaClBadAddress" "MAP_PRIVATE OR MAP_ANONYMOUS OR MAP_FIXED = 0x32"
    "drop_bit NACL_PAGESHIFT 0x100000 = (256 :: u64)" "drop_bit NACL_PAGESHIFT 0x10000 = (16 :: u64)" by code_simp+
  show ?thesis
    using vm by (intro exI [of _ vm]) (simp add: NaClSysMunmap_def Let_def g m posix_example_def PROT_NONE_def)
qed

lemma table_example_munmap: "table_example ! 22 = NaClSysMunmapDecoder" by code_simp

lemma unmap_example_run:
  obtains w' where "reachable (\<lambda>_. True) table_example unmap_example w'"
    "hostlog w' = [Mmap 0x100100000 0x10000 0 0x32 (- 1) 0]" "vm_pages (mem_map (app w')) 256 = None"
proof -
  obtain vm where vm: "vm_pages vm 256 = None" "\<And>w. app w = nap_example \<Longrightarrow> whole_chunk w = Inr False \<Longrightarrow>
      NaClSysMunmap posix_example (\<lambda>_. True) w 0x100000 0x10000 =
      Inr (0, w\<lparr>hostlog := hostlog w @ [Mmap 0x100100000 0x10000 0 0x32 (- 1) 0], app := nap_example\<lparr>mem_map := vm\<rparr>\<rparr>)"
    using munmap_example by blast
  have a: "app unmap_example = nap_example" "nap_example\<lparr>user_side_flag := True\<rparr> = nap_example"
    "manifest unmap_example = Some \<lparr>master = [], user_setup = Some policy_example, system_setup = None, report = None\<rparr>"
    "user_ctx unmap_example = ctx_example" "hostlog unmap_example = []" "rsp ctx_example = 0x100400100"
    "mem_start nap_example = 0x100000000" "max_mem policy_example = 0"
    by (simp_all add: unmap_example_def world_example_def nap_example_def ctx_example_def policy_example_def)
  have "\<exists>w'. NaClSyscallCSegHook posix_example (\<lambda>_. True) table_example io_example 9 unmap_example = Inr (Returns 0, w') \<and>
      hostlog w' = [Mmap 0x100100000 0x10000 0 0x32 (- 1) 0] \<and> mem_map (app w') = vm"
    by (simp add: NaClSyscallCSegHook_def a NaClGetThreadCtxSp_def NaClUserToSysStackAddr_def config_defs
        NACL_USERRET_FIX_def NACL_SYSARGS_FIX_def NACL_SYSCALLRET_FIX_def NaClSetThreadCtxSp_def unmap_example_loads
        PauseCpuClock_def AccountingSyscallsInc_def account_def policy_of_def set_policy_def Let_def hook_dispatch_def
        table_example_0 table_example_munmap NACL_MAX_SYSCALLS_def run_handler_def vm(2) whole_chunk_def hook_leave_def
        ResumeCpuClock_def NaClSwitchToApp_def)
  with vm(1) show thesis
    using reachable.step [OF reachable.start runtime_step.call [OF io_example_pread]] that by blast
qed

section \<open>Safety of runs\<close>

text \<open>
  C1. Whatever the user program does and whatever it calls, the policy stays within the one the run
  started with: the files and attributes are the same, no limit has grown, no channel has been read
  or written more often than its first limit allows, and no more bytes than the first limit have
  been moved as long as the limit was not made negative. The callback is unset or is the address of
  an instruction bundle of the text.
\<close>

theorem reachable_within_policy:
  assumes "start_ok p0 w0" "reachable mal table w0 w" "\<forall>n. mal n"
  shows "\<exists>p. policy_of (manifest w) = Inr p \<and> policy_within p0 p \<and>
    callback_ok (app w) (syscallback p) (g_syscallback w)"
  using confined_inv [OF start_confined [OF assms]] by (simp add: trap_inv_def)

theorem reachable_within_policy_witness:
  "\<exists>w p. reachable (\<lambda>_. True) table_example world_example w \<and> policy_of (manifest w) = Inr p \<and>
     cnt_gets (channels p ! 0) = 1 \<and> policy_within policy_example p"
proof -
  obtain w where w: "reachable (\<lambda>_. True) table_example world_example w"
    "policy_of (manifest w) = Inr (policy_example\<lparr>cnt_cpu := 7, cnt_cpu_last := 9, cnt_syscalls := 1,
       channels := (channels policy_example)[0 := get_charged (ch_example 0) 20]\<rparr>)" by (rule example_run)
  from reachable_within_policy [OF world_example_start w(1)] w show ?thesis
    by (auto simp: get_charged_def policy_example_def ch_example_def)
qed

text \<open>
  C2. In every state a run can reach, each call made to the operating system for the user program
  lies between the end of the code and the top of the sandbox and does not ask for executable
  memory; the memory map is well-formed, shows the same pages below the end of the code as at the
  start, and none above it as executable.
\<close>

theorem reachable_memory_calls:
  assumes "start_ok p0 w0" "reachable mal table w0 w" "\<forall>n. mal n"
  defines "text_end \<equiv> unat (dynamic_text_end (app w0))" and "base \<equiv> unat (mem_start (app w0))"
  shows "(\<forall>c \<in> set (hostlog w). call_ok (base + text_end) (base + 2 ^ 32) c) \<and> vm_inv (mem_map (app w)) \<and>
    (\<forall>p. unat p * 2 ^ 12 < text_end \<longrightarrow> vm_pages (mem_map (app w)) p = vm_pages (mem_map (app w0)) p) \<and>
    (\<forall>p. text_end \<le> unat p * 2 ^ 12 \<longrightarrow> not_exec (vm_pages (mem_map (app w)) p))"
proof -
  have c: "safe_step w0 w" using start_confined [OF assms(1-3)] by (simp add: confined_def)
  then have "extends (base + text_end) (base + 2 ^ 32) [] (hostlog w)"
    using assms(1) by (simp add: safe_step_def start_ok_def text_end_def base_def)
  moreover have "sys_ok (app w)" "dynamic_text_end (app w) = dynamic_text_end (app w0)"
    using c by (simp_all add: safe_step_def same_layout_def)
  moreover have "map_step text_end (mem_map (app w0)) (mem_map (app w))"
    using c by (simp add: safe_step_def text_end_def)
  ultimately show ?thesis by (auto simp: extends_def sys_ok_def map_step_def text_end_def not_le [symmetric])
qed

theorem reachable_memory_calls_witness:
  "\<exists>w. reachable (\<lambda>_. True) table_example unmap_example w \<and> hostlog w = [Mmap 0x100100000 0x10000 0 0x32 (- 1) 0] \<and>
     call_ok 0x100050000 0x200000000 (Mmap 0x100100000 0x10000 0 0x32 (- 1) 0) \<and> vm_inv (mem_map (app w)) \<and>
     vm_pages (mem_map (app w)) 256 = None \<and> vm_pages (mem_map (app w)) 20 = Some (5, None)"
proof -
  obtain w where w: "reachable (\<lambda>_. True) table_example unmap_example w"
    "hostlog w = [Mmap 0x100100000 0x10000 0 0x32 (- 1) 0]" "vm_pages (mem_map (app w)) 256 = None"
    by (rule unmap_example_run)
  have s: "start_ok policy_example unmap_example"
    using world_example_start by (simp add: start_ok_def unmap_example_def)
  have "vm_pages vm_example 20 = Some (5, None)"
    by (simp add: vm_pages_def vm_example_ents pages_def covers_def page_of_def e_start_def e_end_def)
  with reachable_memory_calls [OF s w(1)] w show ?thesis
    by (auto simp: unmap_example_def world_example_def nap_example_def)
qed

text \<open>
  C3. In every state a run can reach, the memory outside the sandbox and the 2 GB above it, which
  are guard pages, is what it was at the start. In particular the runtime writes nowhere else for
  the user program, given that \<open>pread\<close> returns no more bytes than it was asked for.
\<close>

theorem reachable_memory_frame:
  assumes "start_ok p0 w0" "reachable mal table w0 w" "\<forall>n. mal n"
    "2 ^ 32 + 2 ^ 31 \<le> unat (x - mem_start (app w0))"
  shows "mem w x = mem w0 x"
  using start_confined [OF assms(1-3)] assms(4) by (simp add: confined_def same_outside_def)

theorem reachable_memory_frame_witness:
  "\<exists>w. reachable (\<lambda>_. True) table_example world_example w \<and> mem w \<noteq> mem world_example \<and>
     mem w 0x400000000 = mem world_example 0x400000000"
proof -
  obtain w where w: "reachable (\<lambda>_. True) table_example world_example w"
    "mem w = st_bytes 0x100600000 (replicate 20 65) mem_example" by (rule example_run)
  have "mem_example 0x100600000 = 0" by (simp add: mem_example_def st64_at st32_at)
  then have "mem w \<noteq> mem world_example"
    using w(2) by (auto simp: world_example_def st_bytes_def dest!: fun_cong [where x = "0x100600000"])
  with reachable_memory_frame [OF world_example_start w(1), of "0x400000000"] w(1) show ?thesis
    by (auto simp: world_example_def nap_example_def)
qed

text \<open>
  C4. Whenever the hook gives control back to the user program, the address it continues at is in
  the sandbox and is the start of an instruction bundle, whatever return address the user program
  left on its stack.
\<close>

theorem hook_returns_to_bundle:
  assumes "start_ok p0 w0" "reachable mal table w0 w" "\<forall>n. mal n" "pread_ok h"
    and "NaClSyscallCSegHook px mal table h clk w = Inr (Returns r, w')"
    and "bundle_size (app w0) = 2 ^ k" "k < 64" "2 ^ k dvd unat (mem_start (app w0))"
  shows "NaClIsUserAddr (app w0) (new_prog_ctr (user_ctx w')) \<and> 2 ^ k dvd unat (new_prog_ctr (user_ctx w'))"
proof -
  note c = start_confined [OF assms(1-3)]
  obtain ur where ur: "new_prog_ctr (user_ctx w') = NaClSandboxCodeAddr (app w) ur"
    using hook_confined [OF assms(5,3) confined_inv [OF c] confined_ok [OF c] assms(4)] by blast
  have "NaClSandboxCodeAddr (app w) ur = NaClSandboxCodeAddr (app w0) ur"
    using c by (simp add: confined_def safe_step_def same_layout_def NaClSandboxCodeAddr_def)
  moreover have "app_ok (app w0)" "addr_bits (app w0) = 32"
    using assms(1) sys_ok_app by (auto simp: start_ok_def sys_ok_def)
  ultimately show ?thesis using SandboxCodeAddr_in [OF _ _ assms(6-8)] ur by simp
qed

theorem hook_returns_to_bundle_witness:
  "\<exists>w'. NaClSyscallCSegHook posix_example (\<lambda>_. True) table_example io_example 9 world_example = Inr (Returns 20, w') \<and>
     NaClIsUserAddr nap_example (new_prog_ctr (user_ctx w'))"
proof -
  obtain w' where w': "NaClSyscallCSegHook posix_example (\<lambda>_. True) table_example io_example 9 world_example = Inr (Returns 20, w')"
    using hook_example by blast
  from hook_returns_to_bundle [OF world_example_start reachable.start _ io_example_pread w', of 5] w' show ?thesis
    by (auto simp: world_example_def nap_example_def)
qed

section \<open>Progress\<close>

definition user_pointer :: "u64 \<Rightarrow> bool" where
  "user_pointer u \<longleftrightarrow> 0 < unat u \<and> unat u < 2 ^ 32"

lemma user_pointer_sys: "sys_ok nap \<Longrightarrow> user_pointer u \<Longrightarrow> NaClUserToSys nap u = Inr (u + mem_start nap)"
  using user_sys_user(1) [OF sys_ok_app] by (auto simp: user_pointer_def sys_ok_def)

text \<open>The pointers that the arguments of a trap call hold.\<close>

definition trap_args_ok :: "world \<Rightarrow> u32 \<Rightarrow> bool" where
  "trap_args_ok w args \<longleftrightarrow> args \<noteq> 0 \<and>
     (let arg = (\<lambda>i. ld64 (mem w) (ucast args + mem_start (app w) + 8 * i)) in
      (arg 0 = TrapUserSetup \<longrightarrow> user_pointer (arg 2)) \<and>
      (arg 0 \<in> {TrapRead, TrapWrite} \<longrightarrow> user_pointer (arg 3)))"

lemma callback_pointer:
  assumes "text_address nap cb" "cb \<noteq> 0" "sys_ok nap" "unat (static_text_end nap) \<le> 2 ^ 32"
  shows "user_pointer (scast cb)"
proof -
  have "unat (dynamic_text_end nap) < 2 ^ 32"
    using assms(3) by (auto simp: sys_ok_def word_less_nat_alt word_le_nat_alt)
  then have "unat (scast cb :: u64) < 2 ^ 32" using assms(1,4) by (auto simp: text_address_def word_less_nat_alt)
  moreover have "(scast cb :: u64) \<noteq> 0"
  proof
    have "sint (scast cb :: u64) = sint cb"
      using sint_less [of cb] sint_greater_eq [of cb] by (simp add: signed_scast_eq signed_take_bit_int_eq_self)
    moreover assume "(scast cb :: u64) = 0"
    ultimately have "sint cb = sint (0 :: i32)" by simp
    then have "cb = 0" by (simp only: signed_word_eqI)
    with assms(2) show False by simp
  qed
  ultimately show ?thesis by (simp add: user_pointer_def unat_gt_0)
qed

lemma UserSetup_granted:
  assumes p: "policy_of (manifest w) = Inr p0" "length (channels p0) = 5"
    and ok: "sys_ok (app w)" "unat (static_text_end (app w)) \<le> 2 ^ 32" "user_pointer hu"
    and lim: "sint (cnt_setup_calls p0 + 1) \<le> sint (max_setup_calls p0)"
    and defs: "hint = hu + mem_start (app w)" "first = (cnt_setup_calls p0 + 1 = 1)"
      "p = new_policy first (mem w) hint (counted p0)" "asked = ld32 (mem w) (at_syscallback hint)"
      "cb = (if text_address (app w) asked then asked else 0)"
  obtains r w' where "TrapUserSetupHandle w hu = Inr (r, w')"
    "r = flag (policy_ok first (mem w) hint (counted p0) \<and> cb = asked) OK_CODE"
    "policy_of (manifest w') = Inr (p\<lparr>syscallback := cb\<rparr>)"
    "g_syscallback w' = (if cb = 0 then 0 else scast cb + mem_start (app w))"
    "shows_policy (mem w') hint p" "agree_outside hint 0 1016 (mem w) (mem w')"
proof -
  obtain m' where m': "TrapUserSetupHandle w hu =
       rbind (UpdateSyscallback (w\<lparr>manifest := set_policy p (manifest w), mem := m'\<rparr>) hint) (\<lambda>(r, w').
         Inr (if r = ERR_CODE then ERR_CODE else flag (policy_ok first (mem w) hint (counted p0)) OK_CODE, w'))"
    "agree_outside hint 0 1016 (mem w) m'" "shows_policy m' hint p"
    "ld32 m' (at_syscallback hint) = ld32 (mem w) (at_syscallback hint)"
    using TrapUserSetup_eq [OF p user_pointer_sys [OF ok(1,3)] lim defs(2) defs(3) [unfolded defs(1)]]
    unfolding defs(1) by blast
  let ?w1 = "w\<lparr>manifest := set_policy p (manifest w), mem := m'\<rparr>"
  have w1: "policy_of (manifest ?w1) = Inr p" "asked = ld32 (mem ?w1) (at_syscallback hint)"
    using p(1) m'(4) defs(4) by simp_all
  have cb: "NaClUserToSys (app w) (scast asked) = Inr (scast asked + mem_start (app w))"
    if "asked \<noteq> 0" "text_address (app w) asked"
    using callback_pointer [OF that(2,1) ok(1,2)] user_pointer_sys [OF ok(1)] by simp
  show ?thesis
  proof (cases "asked \<noteq> 0 \<and> text_address (app w) asked")
    case True
    then show ?thesis using that m' cb UpdateSyscallback_eq [OF w1] p(1) defs(5)
      by (simp add: OK_CODE_def ERR_CODE_def)
  next
    case False
    let ?w2 = "?w1\<lparr>g_syscallback := 0, manifest := set_policy (p\<lparr>syscallback := 0\<rparr>) (manifest ?w1)\<rparr>"
    have cb0: "cb = 0" using False defs(5) by auto
    have "UpdateSyscallback ?w1 hint = Inr (if asked = 0 then OK_CODE else ERR_CODE, ?w2)"
      unfolding UpdateSyscallback_eq [OF w1] using False by auto
    with m'(1) have "TrapUserSetupHandle w hu =
      Inr (flag (policy_ok first (mem w) hint (counted p0) \<and> cb = asked) OK_CODE, ?w2)"
      by (simp add: flag_def OK_CODE_def ERR_CODE_def cb0)
    moreover have "policy_of (manifest ?w2) = Inr (p\<lparr>syscallback := cb\<rparr>)" using p(1) cb0 by simp
    ultimately show ?thesis using that m'(2,3) cb0 by simp
  qed
qed

lemma UserSetup_returns:
  assumes "policy_of (manifest w) = Inr p" "length (channels p) = 5"
    and "sys_ok (app w)" "unat (static_text_end (app w)) \<le> 2 ^ 32" "user_pointer hu"
  shows "\<exists>r w'. TrapUserSetupHandle w hu = Inr (r, w')"
proof (cases "sint (max_setup_calls p) < sint (cnt_setup_calls p + 1)")
  case True
  from TrapUserSetup_refused [OF assms(1) user_pointer_sys [OF assms(3,5)] True] show ?thesis by blast
next
  case False
  then show ?thesis using UserSetup_granted [OF assms _ refl refl refl refl refl] by (metis not_less)
qed

text \<open>
  C35. A set-up call within its limit always comes back. The policy then has, for each limit, what the
  program asked for where it asked for no more than it had (everything stays on the first call, which
  only reads the policy), and the callback asked for when that is an aligned address of the
  static or dynamic text, none otherwise; the structure of the user
  program shows the new policy, nothing else of its memory changes, and the call reports success
  exactly when every wish was granted.
\<close>

theorem TrapUserSetup_exchange:
  assumes "policy_of (manifest w) = Inr p0" "length (channels p0) = CHANNELS_COUNT"
    and "sys_ok (app w)" "unat (static_text_end (app w)) \<le> 2 ^ 32" "user_pointer hu"
    and "sint (cnt_setup_calls p0 + 1) \<le> sint (max_setup_calls p0)"
    and "hint = hu + mem_start (app w)" "first = (cnt_setup_calls p0 + 1 = 1)"
      "p = new_policy first (mem w) hint (counted p0)" "asked = ld32 (mem w) (at_syscallback hint)"
      "cb = (if text_address (app w) asked then asked else 0)"
  shows "\<exists>r w'. TrapUserSetupHandle w hu = Inr (r, w') \<and>
    policy_of (manifest w') = Inr (p\<lparr>syscallback := cb\<rparr>) \<and>
    g_syscallback w' = (if cb = 0 then 0 else scast cb + mem_start (app w)) \<and>
    shows_policy (mem w') hint p \<and> agree_outside hint 0 1016 (mem w) (mem w') \<and>
    r = (if policy_ok first (mem w) hint (counted p0) \<and> cb = asked then OK_CODE else ERR_CODE)"
proof -
  have "length (channels p0) = 5" using assms(2) by (simp add: CHANNELS_COUNT_def channel_defs)
  from UserSetup_granted [OF assms(1) this assms(3-)] show ?thesis unfolding flag_def by metis
qed

theorem TrapUserSetup_exchange_witness:
  "\<exists>r w'. TrapUserSetupHandle world_example 0x700000 = Inr (r, w') \<and>
    policy_of (manifest w') = Inr ((new_policy True mem_example 0x100700000 (counted policy_example))\<lparr>syscallback := 0\<rparr>) \<and>
    r = OK_CODE"
proof -
  have p: "policy_of (manifest world_example) = Inr policy_example" by (simp add: world_example_def policy_of_def)
  have n: "length (channels policy_example) = CHANNELS_COUNT"
    by (simp add: policy_example_def CHANNELS_COUNT_def channel_defs)
  have a: "app world_example = nap_example" "mem world_example = mem_example" by (simp_all add: world_example_def)
  have t: "unat (static_text_end nap_example) \<le> 2 ^ 32" "mem_start nap_example = 0x100000000"
    by (simp_all add: nap_example_def)
  have u: "user_pointer 0x700000" by (simp add: user_pointer_def)
  have l: "sint (cnt_setup_calls policy_example + 1) \<le> sint (max_setup_calls policy_example)"
    "cnt_setup_calls policy_example + 1 = 1" by (simp_all add: policy_example_def)
  have z: "ld32 mem_example (at_syscallback 0x100700000) = 0"
    by (simp add: mem_example_def at_syscallback_def ldst) (simp add: ld32_eq eval_nat_numeral)
  have k: "policy_ok True mem_example 0x100700000 (counted policy_example)"
    by (simp add: policy_ok_def policy_example_def counted_def upt_conv_Cons channel_ok_def)
  from TrapUserSetup_exchange [OF p n _ _ u l(1) refl refl refl refl refl, unfolded a t(2) l(2)] nap_example_sys t(1) z k
  show ?thesis by (auto split: if_splits)
qed

lemma Trap_returns:
  assumes p: "policy_of (manifest w) = Inr p" "length (channels p) = 5"
    and ok: "sys_ok (app w)" "unat (static_text_end (app w)) \<le> 2 ^ 32" "trap_args_ok w args"
  shows "\<exists>out w'. TrapHandler h w args = Inr (out, w')"
proof -
  have "unat args < 2 ^ LENGTH(32)" by (rule unsigned_less)
  then have "user_pointer (ucast args)"
    using ok(3) by (simp add: user_pointer_def trap_args_ok_def unsigned_ucast_eq unat_gt_0)
  note sa = user_pointer_sys [OF ok(1) this]
  define arg where "arg i = ld64 (mem w) (ucast args + mem_start (app w) + 8 * i)" for i
  have a: "arg 0 = TrapUserSetup \<Longrightarrow> user_pointer (arg 2)" "arg 0 = TrapRead \<or> arg 0 = TrapWrite \<Longrightarrow> user_pointer (arg 3)"
    using ok(3) by (auto simp: trap_args_ok_def Let_def arg_def)
  have c: "channel_of w i = Inr (channels p ! i)" if "i < 5" for i using channel_of_eq [OF p(1)] p(2) that by simp
  have rd: "\<exists>x. TrapReadHandle h w d b s off = Inr x" "\<exists>x. TrapWriteHandle h w d b s off = Inr x"
    if "user_pointer b" for d b s off
    using user_pointer_sys [OF ok(1) that] c
    by (auto simp: TrapReadHandle_def TrapWriteHandle_def channel_defs Let_def split: option.split)
  have m: "manifest w \<noteq> None" using p(1) by (auto simp: policy_of_def split: option.splits)
  consider "arg 0 = TrapUserSetup" | "arg 0 = TrapRead" | "arg 0 = TrapWrite"
    | "arg 0 \<notin> {TrapUserSetup, TrapRead, TrapWrite}" by blast
  then show ?thesis
  proof cases
    case 1
    obtain x where "TrapUserSetupHandle w (arg 2) = Inr x" using UserSetup_returns [OF p ok(1,2) a(1) [OF 1]] by blast
    with 1 m sa show ?thesis by (cases x) (simp add: TrapHandler_def Let_def trap_call_defs arg_def)
  next
    case 2
    obtain x where "TrapReadHandle h w (ucast (arg 2)) (arg 3) (ucast (arg 4)) (arg 5) = Inr x" using rd(1) a(2) 2 by blast
    with 2 m sa show ?thesis by (cases x) (simp add: TrapHandler_def Let_def trap_call_defs arg_def)
  next
    case 3
    obtain x where "TrapWriteHandle h w (ucast (arg 2)) (arg 3) (ucast (arg 4)) (arg 5) = Inr x" using rd(2) a(2) 3 by blast
    with 3 m sa show ?thesis by (cases x) (simp add: TrapHandler_def Let_def trap_call_defs arg_def)
  next
    case 4
    with m sa show ?thesis by (auto simp: TrapHandler_def Let_def arg_def)
  qed
qed

lemma leave_returns:
  assumes "trap_inv p0 w"
  shows "\<exists>out w'. hook_leave clk ur w = Inr (out, w')"
proof -
  obtain p where "policy_of (manifest w) = Inr p" using assms by (auto simp: trap_inv_def)
  then show ?thesis by (auto simp: hook_leave_def ResumeCpuClock_def Let_def)
qed

lemma clocks_return:
  assumes "trap_inv p0 w"
  shows "\<exists>mf1 v mf2. PauseCpuClock c (manifest w) = Inr mf1 \<and> AccountingSyscallsInc mf1 = Inr (v, mf2)"
proof -
  obtain p where p: "policy_of (manifest w) = Inr p" using assms by (auto simp: trap_inv_def)
  then obtain m where "manifest w = Some m" by (auto simp: policy_of_def split: option.splits)
  with p show ?thesis
    by (auto simp: PauseCpuClock_def AccountingSyscallsInc_def account_def Let_def set_policy_def policy_of_def
        split: option.splits)
qed

text \<open>The calls that need nothing of the operating system but reading and writing channels.\<close>

definition plain_call :: "world \<Rightarrow> u32 \<Rightarrow> handler \<Rightarrow> bool" where
  "plain_call w arg fn \<longleftrightarrow>
     fn \<in> {NotImplementedDecoder, NaClSysExitDecoder, NaClSysTls_InitDecoder, NaClSysMutex_CreateDecoder} \<or>
     fn = TrapDecoder \<and> trap_args_ok w arg"

lemma plain_call_returns:
  assumes "trap_inv p0 w" "sys_ok (app w)" "unat (static_text_end (app w)) \<le> 2 ^ 32"
    "plain_call w (ld32 (mem w) (syscall_args w)) fn"
  shows "\<exists>out w'. run_handler px mal h w fn = Inr (out, w')"
proof (cases "fn = TrapDecoder")
  case True
  obtain p where "policy_of (manifest w) = Inr p" "length (channels p) = 5"
    using assms(1) by (auto simp: trap_inv_def policy_within_def)
  from Trap_returns [OF this assms(2,3)] True assms(4) show ?thesis by (simp add: plain_call_def run_handler_def)
next
  case False
  with assms(4) show ?thesis by (auto simp: plain_call_def run_handler_def NaClSysExit_def longjmp_def split: prod.split)
qed

text \<open>
  C34. Every system call the user program makes comes back, or ends the program, if its number is
  unknown or its handler is one of the trap, exit, the set-up of thread-local storage, the mutex
  stub or the placeholder, and the pointers it passes to the trap are addresses of the sandbox.
\<close>

theorem hook_comes_back:
  assumes "start_ok p0 w0" "reachable mal table w0 w" "\<forall>n. mal n" "pread_ok h"
    and "unat (static_text_end (app w0)) \<le> 2 ^ 32" "length table = NACL_MAX_SYSCALLS"
  defines "sp \<equiv> rsp (user_ctx w)"
  defines "n \<equiv> unat (drop_bit 5 (ld64 (mem w) sp - (mem_start (app w0) + 0x10000)))"
  assumes "n < NACL_MAX_SYSCALLS \<longrightarrow> plain_call w (ld32 (mem w) (sp - 0x18)) (table ! n)"
  shows "\<exists>out w'. NaClSyscallCSegHook px mal table h clk w = Inr (out, w')"
proof -
  note c = start_confined [OF assms(1-3)]
  have same: "mem_start (app w) = mem_start (app w0)" "static_text_end (app w) = static_text_end (app w0)"
    using c by (simp_all add: confined_def safe_step_def same_layout_def)
  obtain mf1 v mf2 where mf: "PauseCpuClock (os_clock h) (manifest w) = Inr mf1" "AccountingSyscallsInc mf1 = Inr (v, mf2)"
    using clocks_return [OF confined_inv [OF c]] by blast
  define w3 where "w3 = w\<lparr>app := (app w)\<lparr>user_side_flag := True\<rparr>, manifest := mf2,
    user_ctx := NaClSetThreadCtxSp (user_ctx w) (sp + NACL_SYSCALLRET_FIX)\<rparr>"
  define N where "N = drop_bit 5 (ld64 (mem w) sp - (mem_start (app w0) + 0x10000))"
  have N1: "NaClSyscallCSegHook px mal table h clk w =
      hook_dispatch px mal table h clk N (sp - 0x18) (ld64 (mem w) (sp + NACL_USERRET_FIX)) w3"
    using mf by (simp add: NaClSyscallCSegHook_def Let_def w3_def sp_def N_def same NaClGetThreadCtxSp_def
        NaClUserToSysStackAddr_def NACL_SYSARGS_FIX_def config_defs)
  have "unat N = n" unfolding n_def N_def by (rule refl)
  note N = N1 this
  have t3: "trap_inv p0 w3"
    using clock_inv(3) [OF clock_inv(1) [OF confined_inv [OF c] mf(1)]] mf(2)
    by (auto simp: w3_def same_layout_def elim!: trap_inv_same)
  have s3: "sys_ok (app w3)" using confined_ok [OF c] by (simp add: w3_def sys_ok_def)
  show ?thesis
  proof (cases "NACL_MAX_SYSCALLS \<le> n")
    case True
    have "trap_inv p0 (w3\<lparr>sysret := word_of_int (- NACL_ABI_EINVAL)\<rparr>)" using t3 by (simp add: trap_inv_def)
    from leave_returns [OF this] True N show ?thesis by (simp add: hook_dispatch_def)
  next
    case False
    let ?w4 = "w3\<lparr>syscall_args := sp - 0x18\<rparr>"
    have t4: "trap_inv p0 ?w4" "sys_ok (app ?w4)" using t3 s3 by (simp_all add: trap_inv_def)
    moreover have "plain_call ?w4 (ld32 (mem ?w4) (syscall_args ?w4)) (table ! n)"
      using False assms(9) by (simp add: plain_call_def trap_args_ok_def w3_def)
    ultimately obtain out w5 where r: "run_handler px mal h ?w4 (table ! n) = Inr (out, w5)"
      using plain_call_returns assms(5) same(2) by (fastforce simp: w3_def)
    have "trap_inv p0 (w5\<lparr>sysret := x\<rparr>)" for x
      using confined_inv [OF run_handler_confined [OF r assms(3) t4 assms(4)]] by (simp add: trap_inv_def)
    from leave_returns [OF this] r N False assms(6) show ?thesis
      by (cases out) (simp_all add: hook_dispatch_def)
  qed
qed

theorem hook_comes_back_witness:
  "\<exists>out w'. NaClSyscallCSegHook posix_example (\<lambda>_. True) table_example io_example 9 world_example = Inr (out, w')"
proof (rule hook_comes_back [OF world_example_start reachable.start _ io_example_pread])
  show "unat (drop_bit 5 (ld64 (mem world_example) (rsp (user_ctx world_example)) - (mem_start (app world_example) + 0x10000)))
      < NACL_MAX_SYSCALLS \<longrightarrow>
    plain_call world_example (ld32 (mem world_example) (rsp (user_ctx world_example) - 0x18))
      (table_example ! unat (drop_bit 5 (ld64 (mem world_example) (rsp (user_ctx world_example)) -
        (mem_start (app world_example) + 0x10000))))"
    by (simp add: world_example_def ctx_example_def nap_example_def mem_example_loads table_example_0 plain_call_def
        trap_args_ok_def Let_def trap_call_defs user_pointer_def)
qed (simp_all add: world_example_def nap_example_def table_example_0 NACL_MAX_SYSCALLS_def)

section \<open>The policy a run starts with\<close>

definition block_typed :: "SetupList \<Rightarrow> bool" where
  "block_typed b \<longleftrightarrow> length (channels b) = CHANNELS_COUNT \<and> length (content_type b) = CONTENT_TYPE_LEN \<and>
     length (timestamp b) = TIMESTAMP_LEN \<and> length (x_object_meta_tag b) = X_OBJECT_META_TAG_LEN \<and>
     length (user_etag b) = USER_TAG_LEN"

lemma length_strncpy_null: "length d = n \<Longrightarrow> length (strncpy_null d s n) = n"
  by (auto simp: strncpy_null_def strncpy_def split: option.split)

lemma SetupUserPolicy_typed:
  assumes "SetupUserPolicy mal block m0 = Inr m" "block_typed block"
  obtains p where "m = m0\<lparr>user_setup := Some p\<rparr>" "policy_typed p" "syscallback p = 0" "channels p = channels block"
  using assms by (auto simp: SetupUserPolicy_def Let_def policy_typed_def block_typed_def length_strncpy_null split: if_splits)

text \<open>
  C37. Filling in the policy and mounting the channels gives a policy of the declared shape, each of
  whose channels has the name in the manifest, and is either unnamed or of its own type, with the
  mode and the five limits that the manifest gives under its prefix (0 for a missing key, counts cut
  to 32 bits), mapped or loaded, with a file not larger than its limit, and unused; when the manifest
  names all five channels, the policy is one a run may start with.
\<close>

theorem mounted_policy_typed:
  assumes "SetupUserPolicy mal block m0 = Inr m" "block_typed block" "manifest w = Some m"
    and "mount_channels px fl mal [0..<CHANNELS_COUNT] w = Inr w'"
  shows "\<exists>p. policy_of (manifest w') = Inr p \<and> policy_typed p \<and>
    (\<forall>i < CHANNELS_COUNT. channel_typed (master m0) i (channels p ! i)) \<and>
    ((\<forall>i < CHANNELS_COUNT. get_value_by_key (master m0) (CHANNEL_PREFIXES ! i) \<noteq> None) \<longrightarrow> fresh_policy p)"
proof -
  obtain p where p: "m = m0\<lparr>user_setup := Some p\<rparr>" "policy_typed p" "syscallback p = 0" by (rule SetupUserPolicy_typed [OF assms(1,2)])
  have five: "CHANNELS_COUNT = 5" by (simp add: CHANNELS_COUNT_def channel_defs)
  have m: "user_setup m = Some p" "master m = master m0" using p(1) by simp_all
  obtain p' cs where p': "manifest w' = Some (m\<lparr>user_setup := Some p'\<rparr>)" "policy_typed p'"
    "\<forall>j < 5. channel_typed (master m) j (channels p' ! j)" "p' = p\<lparr>channels := cs\<rparr>"
    using mount_channels_spec [OF assms(4) [unfolded five] _ assms(3) m(1) p(2)] by auto
  have "fresh_policy p'" if "\<forall>i < 5. get_value_by_key (master m0) (CHANNEL_PREFIXES ! i) \<noteq> None"
    using that p'(2-4) p(3) m(2) five
    by (auto simp: fresh_policy_def policy_typed_def channel_typed_def in_set_conv_nth)
  then show ?thesis using p' m(2) five by (auto simp: policy_of_def)
qed

definition manifest_example :: Manifest where
  "manifest_example = \<lparr>master = [\<lparr>mkey = ''Input'', mvalue = ''/in''\<rparr>, \<lparr>mkey = ''InputMode'', mvalue = ''1''\<rparr>,
     \<lparr>mkey = ''InputMax'', mvalue = ''9''\<rparr>, \<lparr>mkey = ''InputMaxGetCnt'', mvalue = ''40''\<rparr>], user_setup = None, system_setup = None, report = None\<rparr>"

definition files_example :: files where
  "files_example = \<lparr>fl_open = (\<lambda>_ _. 3), fl_content = (\<lambda>_. Some ''hello''), fl_ftruncate = (\<lambda>_ _. True)\<rparr>"

lemma mount_example:
  "case SetupUserPolicy (\<lambda>_. True) policy_example manifest_example of Inl _ \<Rightarrow> False
   | Inr m \<Rightarrow> (case mount_channels posix_example files_example (\<lambda>_. True) [0..<CHANNELS_COUNT]
         (world_example\<lparr>manifest := Some m\<rparr>) of Inl _ \<Rightarrow> False
     | Inr w' \<Rightarrow> (case policy_of (manifest w') of Inl _ \<Rightarrow> False
       | Inr p \<Rightarrow> fsize (channels p ! 0) = 5 \<and> handle (channels p ! 0) = 3))"
  by code_simp

theorem mounted_policy_typed_witness:
  "\<exists>m w' p. SetupUserPolicy (\<lambda>_. True) policy_example manifest_example = Inr m \<and>
     mount_channels posix_example files_example (\<lambda>_. True) [0..<CHANNELS_COUNT] (world_example\<lparr>manifest := Some m\<rparr>) = Inr w' \<and>
     policy_of (manifest w') = Inr p \<and> policy_typed p \<and> fsize (channels p ! 0) = 5 \<and> handle (channels p ! 0) = 3 \<and>
     channel_typed (master manifest_example) 0 (channels p ! 0) \<and> max_size (channels p ! 0) = 9 \<and>
     max_gets (channels p ! 0) = 40"
proof -
  have b: "block_typed policy_example"
    by (simp add: block_typed_def policy_example_def CHANNELS_COUNT_def channel_defs attr_len_defs)
  obtain m w' where m: "SetupUserPolicy (\<lambda>_. True) policy_example manifest_example = Inr m" and
    w': "mount_channels posix_example files_example (\<lambda>_. True) [0..<CHANNELS_COUNT] (world_example\<lparr>manifest := Some m\<rparr>) = Inr w'"
     "\<forall>p. policy_of (manifest w') = Inr p \<longrightarrow> fsize (channels p ! 0) = 5 \<and> handle (channels p ! 0) = 3"
    using mount_example by (auto split: sum.splits)
  from mounted_policy_typed [OF m b _ w'(1)] w'(2) obtain p where
    p: "policy_of (manifest w') = Inr p" "policy_typed p" "channel_typed (master manifest_example) 0 (channels p ! 0)"
      "fsize (channels p ! 0) = 5" "handle (channels p ! 0) = 3"
    by (auto simp: CHANNELS_COUNT_def channel_defs)
  have k: "get_value_by_key (master manifest_example) ''Input'' = Some ''/in''" "atoll ''9'' = 9" "atoll ''40'' = 40"
    "get_value_by_key (master manifest_example) ''InputMax'' = Some ''9''"
    "get_value_by_key (master manifest_example) ''InputMaxGetCnt'' = Some ''40''" by code_simp+
  have "max_size (channels p ! 0) = 9" "max_gets (channels p ! 0) = 40"
    using p(3) k by (simp_all add: channel_typed_def limits_from_def CHANNEL_PREFIXES_def)
  with m w'(1) p show ?thesis by blast
qed

end
