(* ===== verification/MmapProps.thy ===== *)
theory MmapProps
  imports RuntimeProps
begin

text \<open>
  What a mapping of anonymous memory at a fixed address does, a refusal of the host included, and
  what a negative limit on the bytes of a channel does.
\<close>

section \<open>Anonymous memory at a fixed address\<close>

text \<open>The flags of such a mapping.\<close>

definition fixed_anonymous :: int where
  "fixed_anonymous = NACL_ABI_MAP_FIXED OR NACL_ABI_MAP_PRIVATE OR NACL_ABI_MAP_ANONYMOUS"

lemma fixed_anonymous_flags:
  "fixed_anonymous AND NOT mmap_allowed_flags = 0" "fixed_anonymous AND NACL_ABI_MAP_ANONYMOUS \<noteq> 0"
  "fixed_anonymous AND NACL_ABI_MAP_FIXED \<noteq> 0" "fixed_anonymous OR NACL_ABI_MAP_FIXED = fixed_anonymous"
  "fixed_anonymous AND NACL_ABI_MAP_SHARED = 0" "fixed_anonymous AND NACL_ABI_MAP_PRIVATE \<noteq> 0"
  by (simp_all add: fixed_anonymous_def mmap_allowed_flags_def abi_defs)

lemma fixed_anonymous_host: "NaClMapFlagMap fixed_anonymous = MAP_PRIVATE OR MAP_FIXED OR MAP_ANONYMOUS"
  by (simp add: NaClMapFlagMap_def bit_to_def fixed_anonymous_flags or.commute or.left_commute)

text \<open>
  What \<^verbatim>\<open>mmap(2)\<close> documents of \<open>MAP_FIXED\<close>: a mapping that is granted is at the address asked for; and a
  host that grants every such mapping.
\<close>

definition mmap_at_fixed :: "posix \<Rightarrow> bool" where
  "mmap_at_fixed px \<longleftrightarrow> (\<forall>a n pr fl d off b. fl AND MAP_FIXED \<noteq> 0 \<longrightarrow> px_mmap px a n pr fl d off = Inr b \<longrightarrow> b = a)"

definition mmap_granted :: "posix \<Rightarrow> bool" where
  "mmap_granted px \<longleftrightarrow> (\<forall>a n pr fl d off. fl AND MAP_FIXED \<noteq> 0 \<longrightarrow> \<not> isl (px_mmap px a n pr fl d off))"

text \<open>
  The answers to a mapping of one allocation page after which \<open>NaClDescIoDescMap\<close> goes on: the address
  asked for, and every error but EPERM, whose negation it takes for the failure it looks for.
\<close>

definition goes_on :: "posix \<Rightarrow> bool" where
  "goes_on px \<longleftrightarrow> (\<forall>a n pr off. case px_mmap px a n pr (MAP_PRIVATE OR MAP_FIXED OR MAP_ANONYMOUS) (- 1) off of
     Inl e \<Rightarrow> (word_of_int (- NaClXlateErrno e) :: u64) \<noteq> - 1 | Inr b \<Rightarrow> b = a)"

lemma granted_goes_on:
  assumes "mmap_at_fixed px" "mmap_granted px"
  shows "goes_on px"
proof -
  have f: "(MAP_PRIVATE OR MAP_FIXED OR MAP_ANONYMOUS) AND MAP_FIXED \<noteq> 0" by code_simp
  show ?thesis unfolding goes_on_def
  proof (intro allI)
    fix a n pr off
    let ?r = "px_mmap px a n pr (MAP_PRIVATE OR MAP_FIXED OR MAP_ANONYMOUS) (- 1) off"
    have "\<not> isl ?r" using assms(2) f unfolding mmap_granted_def by blast
    then obtain b where b: "?r = Inr b" by (cases ?r) simp_all
    then have "b = a" using assms(1) f unfolding mmap_at_fixed_def by blast
    with b show "case ?r of Inl e \<Rightarrow> (word_of_int (- NaClXlateErrno e) :: u64) \<noteq> - 1 | Inr b \<Rightarrow> b = a" by simp
  qed
qed

text \<open>The calls for \<open>k\<close> allocation pages from \<open>sys\<close> on.\<close>

definition anon_calls :: "u64 \<Rightarrow> nat \<Rightarrow> int \<Rightarrow> i64 \<Rightarrow> hcall list" where
  "anon_calls sys k prt off = map (\<lambda>i. Mmap (sys + of_nat i * NACL_MAP_PAGESIZE) NACL_MAP_PAGESIZE (NaClProtMap prt)
     (MAP_PRIVATE OR MAP_FIXED OR MAP_ANONYMOUS) (- 1) (off + of_nat i * NACL_MAP_PAGESIZE)) [0..<k]"

lemma io_map_page_anon:
  assumes "goes_on px" "addr \<noteq> - 1" "NACL_MAP_PAGESIZE \<le> e - addr"
    and "prt AND (NACL_ABI_PROT_READ OR NACL_ABI_PROT_WRITE) = prt"
  shows "io_map_page px whole None e prt fixed_anonymous addr (t, log) = Inr (Inr (t + NACL_MAP_PAGESIZE,
    if whole then log
    else log @ [Mmap addr NACL_MAP_PAGESIZE (NaClProtMap prt) (MAP_PRIVATE OR MAP_FIXED OR MAP_ANONYMOUS) (- 1) t]))"
proof -
  have ms: "(if NACL_MAP_PAGESIZE < e - addr then NACL_MAP_PAGESIZE else e - addr) = NACL_MAP_PAGESIZE"
    using assms(3) by auto
  have q: "case px_mmap px addr NACL_MAP_PAGESIZE (NaClProtMap prt) (MAP_PRIVATE OR MAP_FIXED OR MAP_ANONYMOUS) (- 1) t of
      Inl e \<Rightarrow> (word_of_int (- NaClXlateErrno e) :: u64) \<noteq> - 1 | Inr b \<Rightarrow> b = addr"
    using assms(1) unfolding goes_on_def by blast
  show ?thesis
    using q assms(2)
    by (auto simp: io_map_page_def Let_def ms NaClDescEffLdrUnmapMemory_def NaClHostDescMap_def assms(4)
        fixed_anonymous_flags fixed_anonymous_host split: sum.splits)
qed

lemma IoDescMap_anon:
  assumes px: "goes_on px" and prt: "NOT (NACL_ABI_PROT_READ OR NACL_ABI_PROT_WRITE) AND prt = 0"
    and n: "unat n = k * 65536" and room: "unat a + unat n + 2 ^ 16 \<le> 2 ^ 64"
  shows "NaClDescIoDescMap px whole None a n prt fixed_anonymous off log =
    Inr (a, if whole then log else log @ anon_calls a k prt off)"
proof -
  let ?f = "io_map_page px whole None (a + n) prt fixed_anonymous"
  let ?I = "\<lambda>i s. s = (off + of_nat i * NACL_MAP_PAGESIZE, if whole then log else log @ anon_calls a i prt off)"
  have pg: "unat NACL_MAP_PAGESIZE = 65536" by (simp add: config_defs)
  have e: "unat (a + n) = unat a + unat n" using room by (intro unat_plus_nowrap) (simp)
  have "prt AND (NACL_ABI_PROT_READ OR NACL_ABI_PROT_WRITE) =
      prt AND ((NACL_ABI_PROT_READ OR NACL_ABI_PROT_WRITE) OR NOT (NACL_ABI_PROT_READ OR NACL_ABI_PROT_WRITE))"
    using prt by (simp only: bit.conj_disj_distrib and.commute [of prt] or.right_neutral bit.conj_disj_distrib2)
  then have rw: "prt AND (NACL_ABI_PROT_READ OR NACL_ABI_PROT_WRITE) = prt" by (simp only: bit.disj_cancel_right) simp
  have "\<exists>s'. ptr_loop loop_rounds NACL_MAP_PAGESIZE ?f a (a + n) (off, log) = Inr (Inr s') \<and> ?I (0 + k) s'"
  proof (rule ptr_loop_inv)
    show "k < loop_rounds" using n unat_lt64 [of n] by (simp add: loop_rounds_def)
    show "\<exists>s'. ?f (a + of_nat i * NACL_MAP_PAGESIZE) s = Inr (Inr s') \<and> ?I (0 + Suc i) s'"
      if i: "i < k" and s: "?I (0 + i) s" for i s
    proof -
      let ?b = "a + of_nat i * NACL_MAP_PAGESIZE"
      have le: "i * 65536 + 65536 \<le> unat n" using i n by simp
      have m: "unat (of_nat i * NACL_MAP_PAGESIZE :: u64) = i * 65536"
        using le unat_lt64 [of n] by (simp add: unat_word_ariths unat_of_nat pg)
      then have "unat ?b = unat a + i * 65536" using le room by (subst unat_plus_nowrap) simp_all
      with le room have "unat ?b \<noteq> unat (- 1 :: u64)"
        by (simp add: unsigned_minus_1_eq_mask mask_eq_exp_minus_1)
      then have b: "?b \<noteq> - 1" by metis
      have "a + n - ?b = n - of_nat i * NACL_MAP_PAGESIZE" by simp
      moreover have "unat (n - of_nat i * NACL_MAP_PAGESIZE) = unat n - i * 65536"
        using m le by (subst unat_sub) (simp_all add: word_le_nat_alt)
      ultimately have "NACL_MAP_PAGESIZE \<le> a + n - ?b" using le pg by (simp add: word_le_nat_alt)
      from io_map_page_anon [OF px b this rw] s show ?thesis by (simp add: anon_calls_def algebra_simps)
    qed
  qed (use n room in \<open>simp_all add: pg e anon_calls_def\<close>)
  then show ?thesis using prt fixed_anonymous_flags(3,4) by (auto simp: NaClDescIoDescMap_def Let_def and.commute)
qed

text \<open>The pages of \<open>[start, start + len)\<close> have the protection, the others what they had.\<close>

definition mapped_at :: "u64 \<Rightarrow> nat \<Rightarrow> int \<Rightarrow> NaClVmmap \<Rightarrow> NaClVmmap \<Rightarrow> bool" where
  "mapped_at a len pr vm vm' \<longleftrightarrow> (\<forall>q. vm_pages vm' q =
     (if unat a \<le> unat q * 4096 \<and> unat q * 4096 < unat a + len then Some (pr, None) else vm_pages vm q))"

lemma UpdateAddrMap_maps:
  assumes ok: "sys_ok nap" "\<forall>n. mal n" and u: "2 ^ 12 dvd unat u" "0 < unat u" "2 ^ 12 dvd unat n" "0 < unat n"
    "unat u + unat n \<le> 2 ^ 32"
  shows "\<exists>vm. NaClCommonUtilUpdateAddrMap mal nap (u + mem_start nap) n pr None bb ob False = Inr (nap\<lparr>mem_map := vm\<rparr>) \<and>
    vm_inv vm \<and> mapped_at u (unat n) pr (mem_map nap) vm"
proof -
  let ?pn = "drop_bit NACL_PAGESHIFT u" and ?np = "drop_bit NACL_PAGESHIFT n"
  have "NaClSysToUser nap (u + mem_start nap) = Inr u"
    using user_sys_user(1,2) [OF sys_ok_app [OF ok(1)]] ok(1) u by (auto simp: sys_ok_def)
  moreover obtain a b where ab: "unat u = 4096 * a" "unat n = 4096 * b" using u(1,3) by (auto elim!: dvdE)
  have pn: "unat ?pn = a" "unat ?np = b" using ab by (simp_all add: drop_bit_eq_div unat_div config_defs)
  have s: "unat (?pn + ?np) = a + b" using pn ab u(5) by (subst unat_plus_nowrap) simp_all
  obtain vm where "NaClVmmapUpdate mal (mem_map nap) ?pn ?np pr None False = Inr vm" "vm_inv vm"
    "\<forall>p. vm_pages vm p = (if ?pn \<le> p \<and> p < ?pn + ?np then Some (new_page ?pn pr None p) else vm_pages (mem_map nap) p)"
    using Update_map [of "mem_map nap" mal ?np ?pn pr None] ok pn ab u by (auto simp: sys_ok_def)
  moreover from this(3) have "mapped_at u (unat n) pr (mem_map nap) vm"
    using ab pn s by (simp add: mapped_at_def new_page_def word_le_nat_alt word_less_nat_alt)
  ultimately show ?thesis by (auto simp: NaClCommonUtilUpdateAddrMap_def)
qed


lemma sys_not_errno:
  assumes "sys_ok nap" "unat u < 2 ^ 32"
  shows "\<not> NaClPtrIsNegErrno (u + mem_start nap)"
proof -
  have "unat (u + mem_start nap) = unat u + unat (mem_start nap)"
    using assms by (intro unat_plus_nowrap) (simp add: sys_ok_def)
  then have lt: "unat (u + mem_start nap) < 2 ^ 64 - 2 ^ 16" using assms by (simp add: sys_ok_def)
  have m: "0xffff = (mask 16 :: u64)" by (simp add: mask_eq_exp_minus_1)
  have "NOT (mask 16) = (0xffffffffffff0000 :: u64)" by (simp add: mask_eq_exp_minus_1)
  then have "unat (NOT (mask 16) :: u64) = 2 ^ 64 - 2 ^ 16" by simp
  moreover have "unat ((u + mem_start nap) AND NOT (mask 16)) \<le> unat (u + mem_start nap)" by (simp add: unat_and_not_mask)
  ultimately show ?thesis using lt unfolding NaClPtrIsNegErrno_def m by (metis linorder_not_less)
qed

lemma mmap_main_anon:
  assumes ok: "sys_ok (app w)" "\<forall>n. mal n" and px: "goes_on px"
    and prt: "NOT (NACL_ABI_PROT_READ OR NACL_ABI_PROT_WRITE) AND prt = 0"
    and u: "2 ^ 12 dvd unat u" "0 < unat u" "unat n = k * 65536" "0 < unat n" "unat u + unat n \<le> 2 ^ 32"
  shows "\<exists>vm. mmap_main px mal whole None None w (u + mem_start (app w)) n prt fixed_anonymous off fs fb =
      Inr (u + mem_start (app w), w\<lparr>hostlog := if whole then hostlog w
        else hostlog w @ anon_calls (u + mem_start (app w)) k prt off, app := (app w)\<lparr>mem_map := vm\<rparr>\<rparr>) \<and>
    vm_inv vm \<and> mapped_at u (unat n) (NaClProtMap prt) (mem_map (app w)) vm"
proof -
  let ?s = "u + mem_start (app w)"
  have "unat ?s = unat u + unat (mem_start (app w))" using ok(1) u by (intro unat_plus_nowrap) (simp add: sys_ok_def)
  then have "unat ?s + unat n + 2 ^ 16 \<le> 2 ^ 64" using ok(1) u(5) by (simp add: sys_ok_def)
  from IoDescMap_anon [OF px prt u(3) this]
  have log: "NaClDescIoDescMapAnon px whole ?s n prt fixed_anonymous off (hostlog w) =
      Inr (?s, if whole then hostlog w else hostlog w @ anon_calls ?s k prt off)"
    unfolding NaClDescIoDescMapAnon_def .
  have n12: "2 ^ 12 dvd unat n" unfolding u(3) by (rule dvd_mult) (simp)
  obtain vm where vm: "NaClCommonUtilUpdateAddrMap mal (app w) ?s n (NaClProtMap prt) None fs off False =
      Inr ((app w)\<lparr>mem_map := vm\<rparr>)" "vm_inv vm" "mapped_at u (unat n) (NaClProtMap prt) (mem_map (app w)) vm"
    using UpdateAddrMap_maps [OF ok u(1,2) n12 u(4,5)] by metis
  have "NaClProtMap NACL_ABI_PROT_NONE = PROT_NONE" by (simp add: NaClProtMap_def bit_to_def abi_defs PROT_NONE_def)
  then have pr: "prt = NACL_ABI_PROT_NONE \<Longrightarrow> NaClProtMap prt = PROT_NONE" by simp
  have "n \<noteq> 0" using u(4) by auto
  then have n: "0 < n" by (simp add: word_neq_0_conv)
  have "\<not> NaClPtrIsNegErrno ?s" using u by (intro sys_not_errno [OF ok(1)]) (simp)
  then have "mmap_main px mal whole None None w ?s n prt fixed_anonymous off fs fb =
      Inr (?s, w\<lparr>hostlog := if whole then hostlog w else hostlog w @ anon_calls ?s k prt off,
        app := (app w)\<lparr>mem_map := vm\<rparr>\<rparr>)"
    using log vm(1) pr n unfolding mmap_main_def Let_def by (cases "prt = NACL_ABI_PROT_NONE") simp_all
  with vm(2,3) show ?thesis by blast
qed

text \<open>
  The host calls of the whole system call: none when the memory was allocated in advance, otherwise
  one for each allocation page.
\<close>

definition anon_log :: "world \<Rightarrow> u64 \<Rightarrow> nat \<Rightarrow> int \<Rightarrow> hcall list" where
  "anon_log w u len prt =
    (if whole_chunk w = Inr True then [] else anon_calls (u + mem_start (app w)) (len div 2 ^ 16) prt 0)"

lemma mmap_at_anon:
  assumes ok: "sys_ok (app w)" "\<forall>n. mal n" and px: "goes_on px" and pol: "policy_of (manifest w) = Inr p"
    and prt: "NOT (NACL_ABI_PROT_READ OR NACL_ABI_PROT_WRITE OR NACL_ABI_PROT_EXEC) AND prt = 0"
    and u: "2 ^ 12 dvd unat u" "0 < unat u" "unat n = k * 65536" "0 < unat n" "unat u + unat n \<le> 2 ^ 32"
    and above: "\<not> AddrRangeContainsExecutablePages (app w) u"
  shows "\<exists>w'. mmap_at px mal None None w u n n n prt fixed_anonymous 0 fs fb = Inr (ucast u, w') \<and>
    hostlog w' = hostlog w @ anon_log w u (unat n) (prt AND NOT NACL_ABI_PROT_EXEC) \<and> vm_inv (mem_map (app w')) \<and>
    mapped_at u (unat n) (NaClProtMap (prt AND NOT NACL_ABI_PROT_EXEC)) (mem_map (app w)) (mem_map (app w'))"
proof -
  let ?pr = "prt AND NOT NACL_ABI_PROT_EXEC"
  have "NOT (NACL_ABI_PROT_READ OR NACL_ABI_PROT_WRITE) AND ?pr =
      NOT (NACL_ABI_PROT_READ OR NACL_ABI_PROT_WRITE OR NACL_ABI_PROT_EXEC) AND prt"
    by (simp add: bit.de_Morgan_disj and.assoc and.commute and.left_commute)
  then have pr: "NOT (NACL_ABI_PROT_READ OR NACL_ABI_PROT_WRITE) AND ?pr = 0" using prt by simp
  have "\<exists>whole. whole_chunk w = Inr whole" unfolding whole_chunk_def pol by auto
  then obtain whole where whole: "whole_chunk w = Inr whole" by blast
  obtain vm where m: "mmap_main px mal whole None None w (u + mem_start (app w)) n ?pr fixed_anonymous 0 fs fb =
      Inr (u + mem_start (app w), w\<lparr>hostlog := if whole then hostlog w
        else hostlog w @ anon_calls (u + mem_start (app w)) k ?pr 0, app := (app w)\<lparr>mem_map := vm\<rparr>\<rparr>)"
    "vm_inv vm" "mapped_at u (unat n) (NaClProtMap ?pr) (mem_map (app w)) vm"
    using mmap_main_anon [OF ok px pr u] by metis
  have s: "NaClUserToSys (app w) u = Inr (u + mem_start (app w))"
    using user_pointer_sys [OF ok(1)] u by (simp add: user_pointer_def)
  have e: "unat (u + n) = unat u + unat n" using u(5) by (intro unat_plus_nowrap) (simp)
  have g: "\<not> push_bit (addr_bits (app w)) 1 \<le> u" "\<not> u + n < u" "\<not> push_bit (addr_bits (app w)) 1 < u + n"
    using ok(1) u(4,5) by (simp_all add: sys_ok_def e word_le_nat_alt word_less_nat_alt)
  have r: "mmap_return u w' = Inr (ucast u, w')" for w'
    using u(4,5) by (simp add: mmap_return_def word_less_nat_alt)
  have k: "unat n div 2 ^ 16 = k" by (simp add: u(3))
  show ?thesis using m s g r whole above k
    by (simp add: mmap_at_def Let_def fixed_anonymous_flags mmap_zero_fill_def mmap_inaccessible_def anon_log_def)
qed

lemma mmap_fixed_anonymous:
  assumes ok: "sys_ok (app w)" "\<forall>n. mal n" and px: "goes_on px" and pol: "policy_of (manifest w) = Inr p"
    and prt: "NOT (NACL_ABI_PROT_READ OR NACL_ABI_PROT_WRITE OR NACL_ABI_PROT_EXEC) AND prt = 0"
    and u: "NaClIsAllocPageMultiple u" "0 < unat u" "0 < unat n" "unat u + round_up 16 (unat n) \<le> 2 ^ 32"
    and above: "\<not> AddrRangeContainsExecutablePages (app w) u"
  shows "\<exists>w'. NaClCommonSysMmapIntern px mal w u n prt fixed_anonymous d 0 = Inr (ucast u, w') \<and>
    hostlog w' = hostlog w @ anon_log w u (round_up 16 (unat n)) (prt AND NOT NACL_ABI_PROT_EXEC) \<and>
    vm_inv (mem_map (app w')) \<and>
    mapped_at u (round_up 16 (unat n)) (NaClProtMap (prt AND NOT NACL_ABI_PROT_EXEC)) (mem_map (app w)) (mem_map (app w'))"
proof -
  let ?len = "NaClRoundAllocPage n"
  have "unat n \<le> round_up 16 (unat n)" by (rule round_up_ge)
  then have len: "unat ?len = round_up 16 (unat n)" "unat n \<le> unat ?len" using u(4) by (simp_all add: alloc.unat_rnd)
  have d: "2 ^ 12 dvd x" if "2 ^ 16 dvd x" for x :: nat using that by (rule dvd_trans [rotated]) (simp add: le_imp_power_dvd)
  have u12: "2 ^ 12 dvd unat u" using u(1) by (intro d) (simp add: alloc.is_mult_dvd)
  have "2 ^ 16 dvd unat ?len" using alloc.rnd_is_mult [of n] by (simp add: alloc.is_mult_dvd)
  then obtain k where k: "unat ?len = k * 65536" by (auto elim!: dvdE simp: mult.commute)
  have mn: "size_min ?len kMaxUsableFileSize = ?len"
  proof -
    have "unat kMaxUsableFileSize = 2 ^ 63 - 1" by (simp add: kMaxUsableFileSize_def mask_eq_exp_minus_1)
    then show ?thesis using len u(4) by (simp add: size_min_def word_less_nat_alt)
  qed
  have n0: "n \<noteq> 0" using u(3) by auto
  have z: "NaClIsAllocPageMultiple 0" by (simp add: alloc.is_mult_dvd)
  from mmap_at_anon [OF ok px pol prt u12 u(2) k _ _ above] len u(3,4) show ?thesis
    by (simp add: NaClCommonSysMmapIntern_def Let_def fixed_anonymous_flags u(1) z n0 mmap_file_sizes_def mn
        mmap_choose_def)
qed

lemma posix_example_grants: "mmap_at_fixed posix_example" "mmap_granted posix_example"
  by (simp_all add: mmap_at_fixed_def mmap_granted_def posix_example_def)

text \<open>
  C36. Mapping anonymous memory at an address above the code succeeds on a host that grants fixed
  mappings: the call returns the address; the host is asked for each allocation page of the rounded
  length in turn, at its place in the sandbox, with the protection asked for without the right to
  execute, and for nothing else, or for nothing at all when the memory was allocated in advance;
  every page of that length then has that protection in the memory map and is backed by no file,
  every other page stays as it was, and the memory map keeps its invariant.
\<close>

theorem mmap_anonymous_maps:
  assumes "sys_ok (app w)" "\<forall>n. mal n" "mmap_at_fixed px" "mmap_granted px" "policy_of (manifest w) = Inr p"
    and "NOT (NACL_ABI_PROT_READ OR NACL_ABI_PROT_WRITE OR NACL_ABI_PROT_EXEC) AND prt = 0"
    and "NaClIsAllocPageMultiple u" "0 < unat u" "0 < unat n" "unat u + round_up 16 (unat n) \<le> 2 ^ 32"
    and "\<not> AddrRangeContainsExecutablePages (app w) u"
  shows "\<exists>w'. NaClCommonSysMmapIntern px mal w u n prt fixed_anonymous d 0 = Inr (ucast u, w') \<and>
    hostlog w' = hostlog w @
      (if user_side_flag (app w) \<and> max_mem p \<noteq> 0 then []
       else map (\<lambda>i. Mmap (u + mem_start (app w) + of_nat i * 0x10000) 0x10000
              (NaClProtMap (prt AND NOT NACL_ABI_PROT_EXEC)) (MAP_PRIVATE OR MAP_FIXED OR MAP_ANONYMOUS) (- 1)
              (of_nat i * 0x10000)) [0..<round_up 16 (unat n) div 2 ^ 16]) \<and>
    vm_inv (mem_map (app w')) \<and>
    mapped_at u (round_up 16 (unat n)) (NaClProtMap (prt AND NOT NACL_ABI_PROT_EXEC)) (mem_map (app w)) (mem_map (app w'))"
proof -
  have "manifest w \<noteq> None" using assms(5) by (cases "manifest w") (simp_all add: policy_of_def)
  then have c: "whole_chunk w = Inr True \<longleftrightarrow> user_side_flag (app w) \<and> max_mem p \<noteq> 0"
    unfolding whole_chunk_def assms(5) by simp
  have pg: "NACL_MAP_PAGESIZE = 0x10000" by (simp add: config_defs)
  show ?thesis
    using mmap_fixed_anonymous [OF assms(1,2) granted_goes_on [OF assms(3,4)] assms(5-), of d]
    unfolding anon_log_def c anon_calls_def pg add_0_left .
qed

theorem mmap_anonymous_maps_witness:
  "\<exists>w'. NaClCommonSysMmapIntern posix_example (\<lambda>_. True) world_example 0x200000 0x10001 7 fixed_anonymous (- 1) 0 =
      Inr (0x200000, w') \<and> hostlog w' = hostlog world_example @ [Mmap 0x100200000 0x10000 3 0x32 (- 1) 0,
        Mmap 0x100210000 0x10000 3 0x32 (- 1) 0x10000] \<and>
    vm_pages (mem_map (app w')) 0x21f = Some (3, None)"
proof -
  have a: "app world_example = nap_example" "mem_start nap_example = 0x100000000"
    by (simp_all add: world_example_def nap_example_def)
  have p: "policy_of (manifest world_example) = Inr policy_example" "max_mem policy_example = 0"
    by (simp_all add: world_example_def policy_of_def policy_example_def)
  have r: "round_up 16 0x10001 = 0x20000" by (simp add: round_up_def round_down_def)
  have pr: "NOT (NACL_ABI_PROT_READ OR NACL_ABI_PROT_WRITE OR NACL_ABI_PROT_EXEC) AND 7 = 0"
    "NaClProtMap (7 AND NOT NACL_ABI_PROT_EXEC) = 3" "MAP_PRIVATE OR MAP_FIXED OR MAP_ANONYMOUS = 0x32"
    by (simp_all add: abi_defs NaClProtMap_def bit_to_def PROT_READ_def PROT_WRITE_def
        MAP_PRIVATE_def MAP_FIXED_def MAP_ANONYMOUS_def)
  have u: "NaClIsAllocPageMultiple 0x200000" "\<not> AddrRangeContainsExecutablePages nap_example 0x200000" by code_simp+
  have two: "[0..<2] = [0, 1 :: nat]" by code_simp
  from mmap_anonymous_maps [of world_example "\<lambda>_. True" posix_example policy_example 7 "0x200000" "0x10001" "- 1"]
    nap_example_sys posix_example_grants p pr(1) u
  obtain w' where "NaClCommonSysMmapIntern posix_example (\<lambda>_. True) world_example 0x200000 0x10001 7 fixed_anonymous (- 1) 0 =
      Inr (0x200000, w')" "mapped_at 0x200000 0x20000 3 (mem_map nap_example) (mem_map (app w'))"
     "hostlog w' = hostlog world_example @ [Mmap 0x100200000 0x10000 3 0x32 (- 1) 0, Mmap 0x100210000 0x10000 3 0x32 (- 1) 0x10000]"
    by (auto simp: a r pr(2,3) two)
  then show ?thesis by (auto simp: mapped_at_def)
qed

text \<open>
  C39. The same call when the host refuses every mapping for lack of memory: it still returns the
  address, and the memory map still records the pages as accessible.
\<close>

theorem mmap_failure_unnoticed:
  assumes "sys_ok (app w)" "\<forall>n. mal n" "\<forall>a n pr fl d off. px_mmap px a n pr fl d off = Inl NACL_ABI_ENOMEM"
    and "policy_of (manifest w) = Inr p"
    and "NOT (NACL_ABI_PROT_READ OR NACL_ABI_PROT_WRITE OR NACL_ABI_PROT_EXEC) AND prt = 0"
    and "NaClIsAllocPageMultiple u" "0 < unat u" "0 < unat n" "unat u + round_up 16 (unat n) \<le> 2 ^ 32"
    and "\<not> AddrRangeContainsExecutablePages (app w) u"
  shows "\<exists>w'. NaClCommonSysMmapIntern px mal w u n prt fixed_anonymous d 0 = Inr (ucast u, w') \<and>
    mapped_at u (round_up 16 (unat n)) (NaClProtMap (prt AND NOT NACL_ABI_PROT_EXEC)) (mem_map (app w)) (mem_map (app w'))"
proof -
  have e: "NaClXlateErrno NACL_ABI_ENOMEM = 12" by code_simp
  have "goes_on px" using assms(3) by (simp add: goes_on_def e)
  from mmap_fixed_anonymous [OF assms(1,2) this assms(4-)] show ?thesis by metis
qed

theorem mmap_failure_unnoticed_witness:
  "\<exists>w'. NaClCommonSysMmapIntern (posix_example\<lparr>px_mmap := \<lambda>_ _ _ _ _ _. Inl NACL_ABI_ENOMEM\<rparr>) (\<lambda>_. True)
      world_example 0x200000 1 3 fixed_anonymous (- 1) 0 = Inr (0x200000, w') \<and>
    vm_pages (mem_map (app w')) 0x20f = Some (3, None)"
proof -
  let ?px = "posix_example\<lparr>px_mmap := \<lambda>_ _ _ _ _ _. Inl NACL_ABI_ENOMEM\<rparr>"
  have a: "app world_example = nap_example" by (simp add: world_example_def)
  have p: "policy_of (manifest world_example) = Inr policy_example" by (simp add: world_example_def policy_of_def)
  have r: "round_up 16 (Suc 0) = 0x10000" by (simp add: round_up_def round_down_def)
  have pr: "NOT (NACL_ABI_PROT_READ OR NACL_ABI_PROT_WRITE OR NACL_ABI_PROT_EXEC) AND 3 = 0"
    "NaClProtMap (3 AND NOT NACL_ABI_PROT_EXEC) = 3"
    by (simp_all add: abi_defs NaClProtMap_def bit_to_def PROT_READ_def PROT_WRITE_def)
  have u: "NaClIsAllocPageMultiple 0x200000" "\<not> AddrRangeContainsExecutablePages nap_example 0x200000" by code_simp+
  from mmap_failure_unnoticed [of world_example "\<lambda>_. True" ?px policy_example 3 "0x200000" 1 "- 1"]
    nap_example_sys p pr(1) u
  obtain w' where "NaClCommonSysMmapIntern ?px (\<lambda>_. True) world_example 0x200000 1 3 fixed_anonymous (- 1) 0 =
      Inr (0x200000, w')" "mapped_at 0x200000 0x10000 3 (mem_map nap_example) (mem_map (app w'))"
    by (auto simp: a r pr(2))
  then show ?thesis by (auto simp: mapped_at_def)
qed

section \<open>Limits below zero\<close>

lemma limit_wraps:
  assumes "1 \<le> sint (sz :: i32)"
  shows "sint (scast sz - 2 ^ 32 :: i64) = sint sz - 2 ^ 32" "ucast (scast sz - 2 ^ 32 :: i64) = sz"
proof -
  have b: "sint sz < 2 ^ 31" using sint_less [of sz] by simp
  have w: "(scast sz - 2 ^ 32 :: i64) = word_of_int (sint sz - 2 ^ 32)"
    unfolding scast_eq by (simp only: of_int_diff of_int_power of_int_numeral)
  have "signed_take_bit (LENGTH(64) - Suc 0) (sint sz - 2 ^ 32) = sint sz - 2 ^ 32"
    using assms b by (intro signed_take_bit_int_eq_self) simp_all
  then show "sint (scast sz - 2 ^ 32 :: i64) = sint sz - 2 ^ 32" unfolding w by (simp only: signed_of_int of_int_eq_id id_apply)
  have "(word_of_int (sint sz - 2 ^ 32) :: i32) = word_of_int (sint sz) - word_of_int (2 ^ 32)" by (simp only: of_int_diff)
  also have "\<dots> = sz" by simp
  finally show "ucast (scast sz - 2 ^ 32 :: i64) = sz"
    unfolding w by (subst ucast_down_wi) (simp_all add: is_down)
qed

text \<open>
  C40. The rest of the byte limit is cut to 32 bits before it is compared with 1. A program that has
  lowered its limit, as it may, to \<open>2 ^ 32\<close> below what would allow its next request is granted that
  request in full, though it has no bytes left.
\<close>

theorem TrapRead_negative_limit:
  assumes "channel_of w (unat desc) = Inr fd" "unat desc = InputChannel" "NaClUserToSys (app w) buf = Inr sys"
    and "mounted fd = LOADED" "1 \<le> sint sz" "0 \<le> sint off" "sint off < sint (fsize fd)"
    and "sint (cnt_gets fd) < sint (max_gets fd)" "max_get_size fd = cnt_get_size fd + scast sz - 2 ^ 32"
    and "os_pread h (handle fd) (scast sz) off = Some bs"
  shows "\<exists>w'. TrapReadHandle h w desc buf sz off = Inr (of_nat (length bs), w') \<and>
    mem w' = st_bytes sys bs (mem w) \<and> sint (max_get_size fd - cnt_get_size fd) < 0"
proof -
  let ?t = "max_get_size fd - cnt_get_size fd"
  have t: "sint ?t = sint sz - 2 ^ 32" "ucast ?t = sz" using limit_wraps [OF assms(5)] assms(9) by simp_all
  have b: "sint sz < 2 ^ 32" using sint_less [of sz] by simp
  have m: "mem (put_channel ch fd' w) = mem w" for ch fd' by (simp add: put_channel_def)
  show ?thesis
    unfolding TrapReadHandle_def Let_def assms(3) rbind_simps assms(1) t using assms(2,4-8,10) b
    by (simp add: m)
qed

theorem TrapRead_negative_limit_witness:
  "\<exists>w'. TrapReadHandle io_example (put_channel 0 ((ch_example 0)\<lparr>max_get_size := 30 - 2 ^ 32\<rparr>) world_example) 0 0x600000 30 0 =
     Inr (30, w') \<and> mem w' = st_bytes 0x100600000 (replicate 30 65) mem_example"
proof -
  let ?fd = "(ch_example 0)\<lparr>max_get_size := 30 - 2 ^ 32\<rparr>"
  let ?w = "put_channel 0 ?fd world_example"
  have c: "channel_of ?w (unat 0) = Inr ?fd"
    by (simp add: channel_of_def put_channel_def world_example_def policy_of_def set_policy_def policy_example_def)
  have a: "app ?w = nap_example" "mem (put_channel ch f world_example) = mem_example" for ch f
    by (simp_all add: put_channel_def world_example_def)
  have s: "NaClUserToSys (app ?w) 0x600000 = Inr 0x100600000" unfolding a(1) by (simp add: NaClUserToSys_def nap_example_def)
  have o: "os_pread io_example (handle ?fd) (scast (30 :: i32)) 0 = Some (replicate 30 65)" by (simp add: io_example_def)
  from TrapRead_negative_limit [OF c _ s _ _ _ _ _ _ o] show ?thesis
    by (simp add: ch_example_def InputChannel_def a(2))
qed

end
