(* ===== verification/Spec2Isabelle.thy ===== *)
theory Spec2Isabelle
  imports DynCode MmapProps
begin

text \<open>
  ZeroVM runs one untrusted program in a sandbox of 4 GB inside its own process. A manifest says which
  files the program may use as channels and how much; the program enters the runtime through
  trampolines, and everything it may ask for is a system call of the table or a call of the trap. This
  is a development on the code of the runtime, under \<^verbatim>\<open>src/src\<close>, for x86-64 on Linux, built with
  assertions and without networking.

  \<^bold>\<open>How the code is represented.\<close> A structure is a record with the fields of the source, an enumeration a
  datatype, an integer a word of its width read with \<open>unat\<close> or \<open>sint\<close>. A function that changes an object
  returns the changed object. What may fail returns a \<open>result\<close>: the left values are the ways the process ends
  (\<open>LogFatal\<close>, \<open>CheckFailed\<close>, \<open>AssertFailed\<close>, \<open>CondAbort\<close>), the accesses that have no defined
  effect (\<open>NullDeref\<close>, \<open>OutOfBounds\<close>) and \<open>Diverges\<close> for a loop that does not end. A pointer
  that may be NULL is an option. The allocator is a parameter \<open>mal\<close> that tells for a number of bytes
  whether the request succeeds. The operating system is a record of its answers: \<open>host\<close> for memory
  (SelMemory), \<open>posix\<close> for descriptors (HostDesc), \<open>io\<close> for the clock and the files of the channels (Trap),
  \<open>files\<close> for opening them (Channels). Calls that change the memory of the process are kept in a log.

  \<^bold>\<open>The parts and their theories.\<close>
  \<^item> Prelude: results, words, rounding of numbers, and \<open>ptr_loop\<close>, a loop over addresses. It is given
    \<open>loop_rounds\<close>, which is \<open>2 ^ 64 + 1\<close>, rounds: a pointer that only grows passes its end before that,
    and \<open>ptr_loop_inv\<close> proves that the loop returns. CLib: \<^verbatim>\<open>qsort\<close> and \<^verbatim>\<open>bsearch\<close>.
  \<^item> SelUtil (\<^verbatim>\<open>nacl_config.h\<close>, \<^verbatim>\<open>sel_util-inl.h\<close>): constants and rounding; the locale \<open>rounding\<close> has the laws
    of a pair of rounding functions and is interpreted for pages, allocation pages and page numbers.
  \<^item> DynArray (\<^verbatim>\<open>dyn_array.c\<close>): the growing array of descriptors with its bitmap of free slots. The locale
    \<open>slot_table\<close> is its contract as a partial function.
  \<^item> Vmmap, VmmapPages, VmmapFind (\<^verbatim>\<open>sel_mem.c\<close>, \<^verbatim>\<open>nacl_memory_object.c\<close>): the memory map as the array of
    entries that the code keeps; its abstraction \<open>vm_pages\<close>, a function from pages to protection and
    backing; the lookups. \<open>vm_inv\<close> is the invariant; updates are proved to refine the update of
    that function, and the locale \<open>address_map\<close> is what clients use.
  \<^item> ErrorCode (\<^verbatim>\<open>nacl_error_code.c\<close>); SelMemory (\<^verbatim>\<open>linux/sel_memory.c\<close>): pages from the host and the search
    for a random place.
  \<^item> SelLdr, Sandbox (\<^verbatim>\<open>sel_ldr.c\<close>, \<^verbatim>\<open>sel_ldr.h\<close>, \<^verbatim>\<open>sel_ldr-inl.h\<close>, \<^verbatim>\<open>sel_ldr_x86_64.c\<close>): the application
    object, the translation of addresses (locale \<open>translation\<close>), trampolines and the descriptor table.
  \<^item> Shm, DynText, DynRegions, DynCode, ValidateImage (\<^verbatim>\<open>nacl_text.c\<close>, \<^verbatim>\<open>sel_validate_image.c\<close>,
    \<^verbatim>\<open>nacl_desc_imc_shm.c\<close>): code that is added while the program runs. The table of regions (locale
    \<open>region_table\<close>) stays sorted and disjoint, and code can be entered only after all of it is written.
    The validator is a parameter.
  \<^item> ManifestParser, ManifestSetup, Channels (\<^verbatim>\<open>src/manifest\<close>): reading the manifest, the policy and its
    counters, the report, and mounting the channels.
  \<^item> HostDesc (\<^verbatim>\<open>nacl_host_desc.c\<close>, \<^verbatim>\<open>nacl_desc_io.c\<close>): descriptors of the host.
  \<^item> Trap, TrapSetup, TrapSafety (\<^verbatim>\<open>trap.c\<close>): reading, writing and the exchange of the policy with the
    user program, on its memory. The locale \<open>metered\<close> has the laws of a counter with a limit and is
    interpreted for reading and for writing.
  \<^item> Syscalls, SyscallSafety (\<^verbatim>\<open>nacl_syscall_handlers.c\<close>, \<^verbatim>\<open>nacl_syscall_hook.c\<close>): the break, mapping and
    unmapping, the table and the hook that every call goes through.
  \<^item> Runtime, RuntimeProps, MmapProps: runs. \<open>runtime_step\<close> is either a step of the user program, which may
    change its registers and the memory of the sandbox in any way, or a call of the hook with any answers of the
    host; \<open>reachable\<close> is the states of a run.

  \<^bold>\<open>What is shown.\<close> For runs of any length and any user program: the policy never gets more than it was
  (C1), the calls to the host and the memory map stay above the code and below the top of the sandbox
  and never ask for executable memory (C2), memory outside the sandbox and its guard area keeps its content
  (C3), and control returns only to the start of an instruction bundle (C4); the calls of the trap come back
  (C34). For the parts: the memory map and its searches (C5 to C11), the descriptor array (C12 to C14), the
  translation of addresses, construction, patching and trampolines (C15 to C21), dynamic code (C22 to C30), the
  random place of pages (C31), the manifest (C32, C33, C37, C38), the exchange of the policy (C35) and
  anonymous mappings (C36). C11, C14, C28, C29, C33, C39 and C40 state behaviour of the code that looks
  unintended.

  \<^bold>\<open>Hypotheses.\<close> \<open>start_ok\<close> is what loading establishes: the layout of the sandbox, a well-formed memory map
  with no executable page above the code and a policy of the declared shape, which \<open>mounted_policy_typed\<close>
  (C37) derives for the policy. \<open>pread_ok\<close> and \<open>mmap_at_fixed\<close> state what \<^verbatim>\<open>pread(2)\<close> and \<^verbatim>\<open>mmap(2)\<close> document:
  no more bytes than asked for, and a granted fixed mapping at its address; \<open>mmap_granted\<close> is a host that refuses no
  fixed mapping, C39 one that refuses all. Texts of manifests have less than \<open>2 ^ 29\<close> bytes, the size from which
  \<^verbatim>\<open>4 * size\<close> wraps in \<^verbatim>\<open>parse_manifest\<close>. Where
  a property assumes that \<open>mal\<close> grants every request, a failed allocation is a fault of the model, mostly the end of the
  process. Every property with a hypothesis is followed by an instance of it.

  \<^bold>\<open>Not modelled.\<close> Loading the ELF image and reserving the address space (\<^verbatim>\<open>elf_util.c\<close>,
  \<^verbatim>\<open>sel_ldr_standard.c\<close>, \<^verbatim>\<open>sel_addrspace.c\<close>): runs start from a loaded application. The instruction decoder and validator:
  they are driven by generated tables and are a parameter. Assembly, signals and the qualification of the
  processor: their meaning is that of the machine. Locks, reference counts and threads: the program has one
  thread, and no modelled result reads a count. Logging, performance counters, the
  command line, 0mq networking, which is not built, and the library of the user programs.
\<close>

end
